(* ===== verification/Prelude.thy ===== *)
theory Prelude
  imports Main "HOL-Library.Word"
begin

text \<open>
  Shared vocabulary of the development: the machine integers and byte strings of the Rust
  code, the outcome of a fallible Rust function (\<open>Ok\<close>, \<open>Err\<close> with the crate's own error
  type, or \<open>Panic\<close> for an aborted thread), slice indexing with its run-time checks, the
  big- and little-endian readers and writers that every wire format is built from, and the
  two codec interfaces (\<open>byte_codec\<close>, \<open>stream_codec\<close>) through which the components reuse
  one proof of their round trips.
\<close>

unbundle bit_operations_syntax

section \<open>Collections of facts\<close>

named_theorems parse_simps \<open>readers applied to what the matching writer produced\<close>
named_theorems layout \<open>definitions that lay out a message as bytes\<close>
named_theorems no_panic \<open>a function does not panic\<close>

section \<open>Types\<close>

type_synonym u8 = "8 word"
type_synonym u16 = "16 word"
type_synonym u32 = "32 word"
type_synonym u64 = "64 word"
type_synonym bytes = "8 word list"

text \<open>
  The error type of the crate (\<open>src/lib.rs\<close>). The payload of \<open>Io\<close> is the kind of the
  underlying \<open>std::io::Error\<close>.
\<close>

datatype error =
    Short nat nat \<comment> \<open>bytes needed, bytes available\<close>
  | Protocol string
  | NegotiationFailure string
  | Io string

text \<open>
  The outcome of a Rust function of type \<open>Result<T>\<close>. \<open>Panic\<close> is not an error value: it
  is the abort of the thread by an out-of-range index, a failed \<open>copy_from_slice\<close>, a
  cursor read past the end, or (in a build with overflow checks) an arithmetic overflow.
\<close>

datatype 'a result = Ok 'a | Err error | Panic

primrec and_then :: "'a result \<Rightarrow> ('a \<Rightarrow> 'b result) \<Rightarrow> 'b result" where
  "and_then (Ok x) f = f x"
| "and_then (Err e) f = Err e"
| "and_then Panic f = Panic"

text \<open>\<open>Result::unwrap_or\<close> of a fallible call that cannot swallow a panic.\<close>

primrec or_default :: "'a \<Rightarrow> 'a result \<Rightarrow> 'a result" where
  "or_default d (Ok x) = Ok x"
| "or_default d (Err e) = Ok d"
| "or_default d Panic = Panic"

lemma and_then_cong [fundef_cong]:
  "m = m' \<Longrightarrow> (\<And>x. m' = Ok x \<Longrightarrow> f x = g x) \<Longrightarrow> and_then m f = and_then m' g"
  by (cases m') auto

lemma and_then_eq_Ok: "and_then m f = Ok y \<longleftrightarrow> (\<exists>x. m = Ok x \<and> f x = Ok y)"
  by (cases m) auto

lemma and_then_eq_Panic [simp]:
  "and_then m f = Panic \<longleftrightarrow> m = Panic \<or> (\<exists>x. m = Ok x \<and> f x = Panic)"
  by (cases m) auto

text \<open>The same, as introduction rules that descend into a chain of readers.\<close>

lemma panic_free:
  "m \<noteq> Panic \<Longrightarrow> (\<And>x. m = Ok x \<Longrightarrow> f x \<noteq> Panic) \<Longrightarrow> and_then m f \<noteq> Panic"
  "(c \<Longrightarrow> a \<noteq> Panic) \<Longrightarrow> (\<not> c \<Longrightarrow> b \<noteq> Panic) \<Longrightarrow> (if c then a else b) \<noteq> Panic"
  "(\<And>y z. p = (y, z) \<Longrightarrow> g y z \<noteq> Panic) \<Longrightarrow> (case p of (y, z) \<Rightarrow> g y z) \<noteq> Panic"
  by (auto split: prod.splits)

lemma and_then_eq_Err:
  "and_then m f = Err e \<longleftrightarrow> m = Err e \<or> (\<exists>x. m = Ok x \<and> f x = Err e)"
  by (cases m) auto

lemma and_then_assoc: "and_then (and_then m f) g = and_then m (\<lambda>x. and_then (f x) g)"
  by (cases m) auto

lemma and_then_if [simp]:
  "and_then (if c then a else b) f = (if c then and_then a f else and_then b f)"
  by simp

lemma or_default_eq_Panic [simp]: "or_default d m = Panic \<longleftrightarrow> m = Panic"
  by (cases m) auto

text \<open>
  The length guard \<open>if buf.len() < n { return Err(Error::Short { .. }) }\<close> that opens most
  parsers, as a computation.
\<close>

definition need_bytes :: "nat \<Rightarrow> bytes \<Rightarrow> unit result" where
  "need_bytes n buf = (if length buf < n then Err (Short n (length buf)) else Ok ())"

lemma need_bytes_Ok [simp]: "n \<le> length buf \<Longrightarrow> need_bytes n buf = Ok ()"
  by (simp add: need_bytes_def)

lemma need_bytes_Err: "length buf < n \<Longrightarrow> need_bytes n buf = Err (Short n (length buf))"
  by (simp add: need_bytes_def)

lemma need_bytes_eq_Ok [simp]: "need_bytes n buf = Ok u \<longleftrightarrow> n \<le> length buf"
  by (auto simp: need_bytes_def)

lemma need_bytes_no_panic [simp]: "need_bytes n buf \<noteq> Panic"
  by (simp add: need_bytes_def)

section \<open>Slices: indexing with Rust's run-time checks\<close>

definition index :: "'a list \<Rightarrow> nat \<Rightarrow> 'a result" where
  "index xs i = (if i < length xs then Ok (xs ! i) else Panic)"

text \<open>\<open>&xs[i..j]\<close>, \<open>&xs[i..]\<close> and \<open>&xs[..j]\<close>.\<close>

definition slice :: "'a list \<Rightarrow> nat \<Rightarrow> nat \<Rightarrow> 'a list result" where
  "slice xs i j = (if i \<le> j \<and> j \<le> length xs then Ok (take (j - i) (drop i xs)) else Panic)"

definition slice_from :: "'a list \<Rightarrow> nat \<Rightarrow> 'a list result" where
  "slice_from xs i = (if i \<le> length xs then Ok (drop i xs) else Panic)"

definition slice_to :: "'a list \<Rightarrow> nat \<Rightarrow> 'a list result" where
  "slice_to xs j = (if j \<le> length xs then Ok (take j xs) else Panic)"

text \<open>\<open>dst[off..off + src.len()].copy_from_slice(src)\<close> and \<open>dst[i] = x\<close>.\<close>

definition copy_at :: "'a list \<Rightarrow> nat \<Rightarrow> 'a list \<Rightarrow> 'a list result" where
  "copy_at dst off src =
     (if off + length src \<le> length dst
      then Ok (take off dst @ src @ drop (off + length src) dst) else Panic)"

definition store :: "'a list \<Rightarrow> nat \<Rightarrow> 'a \<Rightarrow> 'a list result" where
  "store dst i x = (if i < length dst then Ok (dst[i := x]) else Panic)"

lemma index_Ok [simp]: "i < length xs \<Longrightarrow> index xs i = Ok (xs ! i)"
  by (simp add: index_def)

lemma index_not_Err [simp]: "index xs i \<noteq> Err e"
  by (simp add: index_def)

lemma index_eq_Ok [simp]: "index xs i = Ok x \<longleftrightarrow> i < length xs \<and> x = xs ! i"
  by (auto simp: index_def)

lemma index_eq_Panic [simp]: "index xs i = Panic \<longleftrightarrow> length xs \<le> i"
  by (auto simp: index_def)

lemma slice_Ok [simp]: "i \<le> j \<Longrightarrow> j \<le> length xs \<Longrightarrow> slice xs i j = Ok (take (j - i) (drop i xs))"
  by (simp add: slice_def)

lemma slice_eq_Ok [simp]:
  "slice xs i j = Ok ys \<longleftrightarrow> i \<le> j \<and> j \<le> length xs \<and> ys = take (j - i) (drop i xs)"
  by (auto simp: slice_def)

lemma slice_not_Err [simp]: "slice xs i j \<noteq> Err e"
  by (simp add: slice_def)

lemma slice_eq_Panic [simp]: "slice xs i j = Panic \<longleftrightarrow> j < i \<or> length xs < j"
  by (auto simp: slice_def)

lemma slice_from_Ok [simp]: "i \<le> length xs \<Longrightarrow> slice_from xs i = Ok (drop i xs)"
  by (simp add: slice_from_def)

lemma slice_from_eq_Ok [simp]: "slice_from xs i = Ok ys \<longleftrightarrow> i \<le> length xs \<and> ys = drop i xs"
  by (auto simp: slice_from_def)

lemma slice_from_eq_Panic [simp]: "slice_from xs i = Panic \<longleftrightarrow> length xs < i"
  by (auto simp: slice_from_def)

lemma slice_to_Ok [simp]: "j \<le> length xs \<Longrightarrow> slice_to xs j = Ok (take j xs)"
  by (simp add: slice_to_def)

lemma slice_to_eq_Ok [simp]: "slice_to xs j = Ok ys \<longleftrightarrow> j \<le> length xs \<and> ys = take j xs"
  by (auto simp: slice_to_def)

lemma slice_to_eq_Panic [simp]: "slice_to xs j = Panic \<longleftrightarrow> length xs < j"
  by (auto simp: slice_to_def)

lemma copy_at_eq_Ok:
  "copy_at dst off src = Ok ys \<longleftrightarrow>
     off + length src \<le> length dst \<and> ys = take off dst @ src @ drop (off + length src) dst"
  by (auto simp: copy_at_def)

lemma copy_at_eq_Panic [simp]: "copy_at dst off src = Panic \<longleftrightarrow> length dst < off + length src"
  by (auto simp: copy_at_def)

lemma copy_at_length: "copy_at dst off src = Ok ys \<Longrightarrow> length ys = length dst"
  by (auto simp: copy_at_eq_Ok)

lemma copy_at_nth:
  assumes "copy_at dst off src = Ok ys" and "i < length dst"
  shows "ys ! i = (if off \<le> i \<and> i < off + length src then src ! (i - off) else dst ! i)"
  using assms by (auto simp: copy_at_eq_Ok nth_append min_def)

lemma store_Ok [simp]: "i < length dst \<Longrightarrow> store dst i x = Ok (dst[i := x])"
  by (simp add: store_def)

section \<open>Filling a buffer in order\<close>

text \<open>
  A loop that writes every element of a fresh buffer once, in order: \<open>f x\<close> yields the next
  elements, or panics when it reads out of range.
\<close>

fun traverse :: "('a \<Rightarrow> 'b list result) \<Rightarrow> 'a list \<Rightarrow> 'b list result" where
  "traverse f [] = Ok []"
| "traverse f (x # xs) =
     and_then (f x) (\<lambda>ys. and_then (traverse f xs) (\<lambda>zs. Ok (ys @ zs)))"

lemma traverse_Ok: "(\<And>x. x \<in> set xs \<Longrightarrow> f x = Ok (g x)) \<Longrightarrow> traverse f xs = Ok (concat (map g xs))"
  by (induction xs) simp_all

lemma traverse_no_Panic: "(\<And>x. x \<in> set xs \<Longrightarrow> f x \<noteq> Panic) \<Longrightarrow> traverse f xs \<noteq> Panic"
  by (induction xs) simp_all

lemma traverse_length:
  "traverse f xs = Ok ys \<Longrightarrow> (\<And>x zs. x \<in> set xs \<Longrightarrow> f x = Ok zs \<Longrightarrow> length zs = n) \<Longrightarrow>
   length ys = length xs * n"
proof (induction xs arbitrary: ys)
  case (Cons x xs)
  then obtain a b where "f x = Ok a" "traverse f xs = Ok b" "ys = a @ b"
    by (auto simp: and_then_eq_Ok)
  moreover have "length b = length xs * n" using Cons calculation by auto
  moreover have "length a = n" using Cons.prems(2) calculation(1) by auto
  ultimately show ?case by simp
qed simp

lemma concat_map_nth:
  assumes "\<And>x. x \<in> set xs \<Longrightarrow> length (g x) = n" and "i < length xs * n"
  shows "concat (map g xs) ! i = g (xs ! (i div n)) ! (i mod n)"
  using assms
proof (induction xs arbitrary: i)
  case (Cons x xs)
  show ?case
  proof (cases "i < n")
    case False
    then have "concat (map g xs) ! (i - n) = g (xs ! ((i - n) div n)) ! ((i - n) mod n)"
      using Cons.prems by (intro Cons.IH) auto
    moreover have "0 < n" using Cons.prems(2) by (cases n) auto
    then have "i div n = Suc ((i - n) div n)" "(i - n) mod n = i mod n"
      using False by (auto simp: le_div_geq le_mod_geq not_less)
    ultimately show ?thesis using False Cons.prems(1) by (simp add: nth_append)
  qed (use Cons.prems in \<open>simp add: nth_append\<close>)
qed simp

section \<open>Integers as bytes\<close>

text \<open>
  \<open>to_le_bytes\<close> / \<open>to_be_bytes\<close> and their inverses. The \<open>put_*\<close> writers append to a
  \<open>BytesMut\<close>; here they yield the bytes appended. The \<open>get_*\<close> readers of \<open>bytes::Buf\<close> on
  a \<open>&[u8]\<close> cursor return the value and the advanced cursor, and panic, as that trait
  documents, when too few bytes remain.
\<close>

definition put_u8 :: "u8 \<Rightarrow> bytes" where
  "put_u8 w = [w]"

definition put_u16_le :: "u16 \<Rightarrow> bytes" where
  "put_u16_le w = [ucast w, ucast (drop_bit 8 w)]"

definition put_u16 :: "u16 \<Rightarrow> bytes" where
  "put_u16 w = [ucast (drop_bit 8 w), ucast w]"

definition put_u32_le :: "u32 \<Rightarrow> bytes" where
  "put_u32_le w =
     [ucast w, ucast (drop_bit 8 w), ucast (drop_bit 16 w), ucast (drop_bit 24 w)]"

definition put_u64_le :: "u64 \<Rightarrow> bytes" where
  "put_u64_le w =
     [ucast w, ucast (drop_bit 8 w), ucast (drop_bit 16 w), ucast (drop_bit 24 w),
      ucast (drop_bit 32 w), ucast (drop_bit 40 w), ucast (drop_bit 48 w), ucast (drop_bit 56 w)]"

definition u16_from_le_bytes :: "u8 \<Rightarrow> u8 \<Rightarrow> u16" where
  "u16_from_le_bytes a b = ucast a OR push_bit 8 (ucast b)"

definition u16_from_be_bytes :: "u8 \<Rightarrow> u8 \<Rightarrow> u16" where
  "u16_from_be_bytes a b = u16_from_le_bytes b a"

definition u32_from_le_bytes :: "u8 \<Rightarrow> u8 \<Rightarrow> u8 \<Rightarrow> u8 \<Rightarrow> u32" where
  "u32_from_le_bytes a b c d =
     ucast a OR push_bit 8 (ucast b) OR push_bit 16 (ucast c) OR push_bit 24 (ucast d)"

fun get_u8 :: "bytes \<Rightarrow> (u8 \<times> bytes) result" where
  "get_u8 (a # r) = Ok (a, r)"
| "get_u8 _ = Panic"

fun get_u16_le :: "bytes \<Rightarrow> (u16 \<times> bytes) result" where
  "get_u16_le (a # b # r) = Ok (u16_from_le_bytes a b, r)"
| "get_u16_le _ = Panic"

fun get_u16 :: "bytes \<Rightarrow> (u16 \<times> bytes) result" where
  "get_u16 (a # b # r) = Ok (u16_from_be_bytes a b, r)"
| "get_u16 _ = Panic"

fun get_u32_le :: "bytes \<Rightarrow> (u32 \<times> bytes) result" where
  "get_u32_le (a # b # c # d # r) = Ok (u32_from_le_bytes a b c d, r)"
| "get_u32_le _ = Panic"

text \<open>\<open>Buf::advance\<close>, and the idiom of copying out the first \<open>n\<close> bytes and advancing.\<close>

definition advance :: "nat \<Rightarrow> bytes \<Rightarrow> bytes result" where
  "advance n b = slice_from b n"

definition take_bytes :: "nat \<Rightarrow> bytes \<Rightarrow> (bytes \<times> bytes) result" where
  "take_bytes n b = (if n \<le> length b then Ok (take n b, drop n b) else Panic)"


section \<open>The codec interface of a fixed-width field\<close>

text \<open>
  What every parser relies on about a pair of writer and reader: the writer produces exactly
  \<open>width\<close> bytes, the reader recovers the value and leaves the rest of the cursor, every
  sufficiently long input is the writer's output for some value, and a short input panics.
\<close>

locale byte_codec =
  fixes put :: "'a \<Rightarrow> bytes"
    and get :: "bytes \<Rightarrow> ('a \<times> bytes) result"
    and width :: nat
  assumes length_put: "length (put x) = width"
    and get_put: "get (put x @ r) = Ok (x, r)"
    and get_short: "length b < width \<Longrightarrow> get b = Panic"
    and get_long: "width \<le> length b \<Longrightarrow> \<exists>x r. get b = Ok (x, r) \<and> b = put x @ r"
begin

lemma get_eq_Panic: "get b = Panic \<longleftrightarrow> length b < width"
  using get_short [of b] get_long [of b] by (fastforce simp: not_less)

lemma get_not_Err: "get b \<noteq> Err e"
  using get_short [of b] get_long [of b] by (cases "length b < width") auto

lemma get_eq_Ok: "get b = Ok (x, r) \<longleftrightarrow> b = put x @ r"
proof
  assume g: "get b = Ok (x, r)"
  then have "width \<le> length b" using get_short [of b] by (cases "length b < width") auto
  then show "b = put x @ r" using get_long [of b] g by auto
qed (simp add: get_put)

lemma get_length: "get b = Ok (x, r) \<Longrightarrow> length r = length b - width"
  by (auto simp: get_eq_Ok length_put)

lemma get_length_exact: "get b = Ok (x, r) \<Longrightarrow> length b = width + length r"
  by (auto simp: get_eq_Ok length_put)

lemma put_inj_app: "put x @ r = put y @ s \<longleftrightarrow> x = y \<and> r = s"
proof
  assume "put x @ r = put y @ s"
  then have "get (put x @ r) = get (put y @ s)" by (rule arg_cong)
  then show "x = y \<and> r = s" by (simp only: get_put result.inject prod.inject)
qed simp

lemma put_inj: "put x = put y \<longleftrightarrow> x = y"
  using put_inj_app [of x "[]" y "[]"] by simp

text \<open>A sequence of fields, read by a counted loop, as arrays of ids and lengths are.\<close>

lemma put_list_length: "length (concat (map put xs)) = width * length xs"
  by (induction xs) (auto simp: length_put)

end

lemma u16_le_roundtrip [simp]:
  "u16_from_le_bytes (ucast w) (ucast (drop_bit 8 w)) = (w :: u16)"
  unfolding u16_from_le_bytes_def
  by (rule bit_word_eqI) (auto simp: bit_simps)

lemma u16_le_bytes:
  "(ucast (u16_from_le_bytes a b) :: u8) = a"
  "(ucast (drop_bit 8 (u16_from_le_bytes a b)) :: u8) = b"
  unfolding u16_from_le_bytes_def
  by (rule bit_word_eqI, auto simp: bit_simps dest: bit_imp_le_length)+

lemma u32_le_roundtrip [simp]:
  "u32_from_le_bytes (ucast w) (ucast (drop_bit 8 w)) (ucast (drop_bit 16 w)) (ucast (drop_bit 24 w))
    = (w :: u32)"
proof (rule bit_word_eqI)
  fix n assume "n < LENGTH(32)"
  then consider "n < 8" | "8 \<le> n" "n < 16" | "16 \<le> n" "n < 24" | "24 \<le> n" "n < 32"
    by fastforce
  then show "bit (u32_from_le_bytes (ucast w) (ucast (drop_bit 8 w)) (ucast (drop_bit 16 w))
      (ucast (drop_bit 24 w))) n = bit w n"
    by cases (auto simp: u32_from_le_bytes_def bit_simps)
qed

lemma u32_le_bytes:
  "(ucast (u32_from_le_bytes a b c d) :: u8) = a"
  "(ucast (drop_bit 8 (u32_from_le_bytes a b c d)) :: u8) = b"
  "(ucast (drop_bit 16 (u32_from_le_bytes a b c d)) :: u8) = c"
  "(ucast (drop_bit 24 (u32_from_le_bytes a b c d)) :: u8) = d"
  unfolding u32_from_le_bytes_def
  by (rule bit_word_eqI, auto simp: bit_simps dest: bit_imp_le_length)+

text \<open>Code equations that compute on integers: an order of magnitude cheaper than bit operations.\<close>

lemma u16_from_le_bytes_code [code]: "u16_from_le_bytes a b = word_of_int (uint a + 0x100 * uint b)"
proof -
  have "u16_from_le_bytes a b = ucast a + push_bit 8 (ucast b)"
    unfolding u16_from_le_bytes_def
    by (rule disjunctive_add_eq_or [symmetric], rule bit_eqI) (auto simp: bit_simps dest: bit_imp_le_length)
  then show ?thesis by (simp add: push_bit_eq_mult unsigned_ucast_eq)
qed

lemma u32_from_le_bytes_code [code]:
  "u32_from_le_bytes a b c d = word_of_int (uint a + 0x100 * (uint b + 0x100 * (uint c + 0x100 * uint d)))"
proof -
  have "u32_from_le_bytes a b c d = ucast a + (push_bit 8 (ucast b) + (push_bit 16 (ucast c) + push_bit 24 (ucast d)))"
    unfolding u32_from_le_bytes_def
    by (subst disjunctive_add_eq_or, (rule bit_eqI, force simp: bit_simps dest: bit_imp_le_length))+ (rule refl)
  then show ?thesis by (simp add: push_bit_eq_mult algebra_simps)
qed

lemma zdiv_le_dividend: "(a mod 2 ^ n :: int) div 2 ^ k \<le> a mod 2 ^ n"
  by (rule order.trans [OF zdiv_mono2 [of _ 1]]) simp_all

lemma ucast_drop_bit_code: "ucast (drop_bit k w) = (word_of_int (uint w div 2 ^ k) :: 'a::len word)"
proof -
  have "uint (drop_bit k w) = uint w div 2 ^ k"
    by transfer (auto simp: drop_bit_eq_div take_bit_eq_mod pos_imp_zdiv_nonneg_iff
        intro!: mod_pos_pos_trivial order.strict_trans1 [OF zdiv_le_dividend])
  then show ?thesis by (simp only: ucast_eq)
qed

lemma put_le_code [code]:
  "put_u16_le w = (let n = uint w in [word_of_int n, word_of_int (n div 0x100)])"
  "put_u16 w = (let n = uint w in [word_of_int (n div 0x100), word_of_int n])"
  "put_u32_le v =
     (let n = uint v in [word_of_int n, word_of_int (n div 0x100), word_of_int (n div 0x10000), word_of_int (n div 0x1000000)])"
  by (simp_all add: put_u16_le_def put_u16_def put_u32_le_def ucast_drop_bit_code Let_def flip: ucast_eq)

lemma two_bytes: "2 \<le> length (b :: bytes) \<Longrightarrow> \<exists>x y r. b = x # y # r"
  by (cases b rule: get_u16_le.cases) auto

lemma four_bytes: "4 \<le> length (b :: bytes) \<Longrightarrow> \<exists>x y z w r. b = x # y # z # w # r"
  by (cases b rule: get_u32_le.cases) auto

interpretation c8: byte_codec put_u8 get_u8 1
proof unfold_locales
  fix b :: bytes assume "length b < 1" then show "get_u8 b = Panic" by simp
next
  fix b :: bytes assume "1 \<le> length b"
  then show "\<exists>x r. get_u8 b = Ok (x, r) \<and> b = put_u8 x @ r" by (cases b) (auto simp: put_u8_def)
qed (simp_all add: put_u8_def)

interpretation c16le: byte_codec put_u16_le get_u16_le 2
proof unfold_locales
  fix b :: bytes assume "length b < 2" then show "get_u16_le b = Panic"
    by (cases b rule: get_u16_le.cases) auto
next
  fix b :: bytes assume "2 \<le> length b"
  then show "\<exists>x r. get_u16_le b = Ok (x, r) \<and> b = put_u16_le x @ r"
    by (auto dest!: two_bytes simp: put_u16_le_def u16_le_bytes)
qed (simp_all add: put_u16_le_def)

interpretation c16be: byte_codec put_u16 get_u16 2
proof unfold_locales
  fix b :: bytes assume "length b < 2" then show "get_u16 b = Panic"
    by (cases b rule: get_u16.cases) auto
next
  fix b :: bytes assume "2 \<le> length b"
  then show "\<exists>x r. get_u16 b = Ok (x, r) \<and> b = put_u16 x @ r"
    by (auto dest!: two_bytes simp: put_u16_def u16_from_be_bytes_def u16_le_bytes)
qed (simp_all add: put_u16_def u16_from_be_bytes_def)

interpretation c32le: byte_codec put_u32_le get_u32_le 4
proof unfold_locales
  fix b :: bytes assume "length b < 4" then show "get_u32_le b = Panic"
    by (cases b rule: get_u32_le.cases) auto
next
  fix b :: bytes assume "4 \<le> length b"
  then show "\<exists>x r. get_u32_le b = Ok (x, r) \<and> b = put_u32_le x @ r"
    by (auto dest!: four_bytes simp: put_u32_le_def u32_le_bytes)
qed (simp_all add: put_u32_le_def)

lemma length_put_u64_le [simp]: "length (put_u64_le w) = 8"
  by (simp add: put_u64_le_def)

lemmas length_puts [simp] =
  c8.length_put c16le.length_put c16be.length_put c32le.length_put

lemmas get_puts [simp, parse_simps] = c8.get_put c16le.get_put c16be.get_put c32le.get_put

lemmas get_puts_nil [simp, parse_simps] =
  c8.get_put [where r = "[]", simplified] c16le.get_put [where r = "[]", simplified]
  c16be.get_put [where r = "[]", simplified] c32le.get_put [where r = "[]", simplified]

lemmas get_Panic_iff [simp] = c8.get_eq_Panic c16le.get_eq_Panic c16be.get_eq_Panic c32le.get_eq_Panic

lemmas get_not_Err [simp] = c8.get_not_Err c16le.get_not_Err c16be.get_not_Err c32le.get_not_Err

lemmas get_length = c8.get_length c16le.get_length c16be.get_length c32le.get_length

lemmas get_eq_Ok = c8.get_eq_Ok c16le.get_eq_Ok c16be.get_eq_Ok c32le.get_eq_Ok

lemmas get_lens =
  c8.get_length_exact c16le.get_length_exact c16be.get_length_exact c32le.get_length_exact

lemma take_bytes_append [simp, parse_simps]:
  "length xs = n \<Longrightarrow> take_bytes n (xs @ r) = Ok (xs, r)"
  by (auto simp: take_bytes_def)

lemma take_bytes_eq_Panic [simp]: "take_bytes n b = Panic \<longleftrightarrow> length b < n"
  by (auto simp: take_bytes_def)

lemma take_bytes_eq_Ok:
  "take_bytes n b = Ok (x, r) \<longleftrightarrow> n \<le> length b \<and> x = take n b \<and> r = drop n b"
  by (auto simp: take_bytes_def)

lemma advance_eq_Panic [simp]: "advance n b = Panic \<longleftrightarrow> length b < n"
  by (auto simp: advance_def)

lemma advance_eq_Ok: "advance n b = Ok r \<longleftrightarrow> n \<le> length b \<and> r = drop n b"
  by (auto simp: advance_def)

lemma advance_append [simp, parse_simps]: "length xs = n \<Longrightarrow> advance n (xs @ r) = Ok r"
  by (auto simp: advance_def)

text \<open>A length stored in a 16-bit or 32-bit field comes back when it fits.\<close>

lemma unat_of_nat_u16 [simp]: "n < 65536 \<Longrightarrow> unat (of_nat n :: u16) = n"
  by (simp add: unat_of_nat take_bit_nat_eq_self)

lemma unat_of_nat_u32 [simp]: "n < 4294967296 \<Longrightarrow> unat (of_nat n :: u32) = n"
  by (simp add: unat_of_nat take_bit_nat_eq_self)

lemma unat_of_nat_u8 [simp]: "n < 256 \<Longrightarrow> unat (of_nat n :: u8) = n"
  by (simp add: unat_of_nat take_bit_nat_eq_self)

lemma unat_u8_bound [simp]: "unat (w :: u8) < 256"
  using unsigned_less [of w] by simp

lemma unat_u16_bound [simp]: "unat (w :: u16) < 65536"
  using unsigned_less [of w] by simp

lemma unat_u32_bound [simp]: "unat (w :: u32) < 4294967296"
  using unsigned_less [of w] by simp

text \<open>Masking a byte that is small enough.\<close>

lemma and_mask_below:
  assumes "unat (w :: 'a::len word) < 2 ^ n" shows "w AND mask n = w"
proof -
  have "take_bit n (unat w) = unat w" using assms by (simp add: take_bit_nat_eq_self)
  moreover have "unat (take_bit n w) = take_bit n (unat w)" by transfer (simp add: min.commute flip: nat_take_bit_eq)
  ultimately have "take_bit n w = w" by (simp flip: word_unat_eq_iff)
  then show ?thesis by (simp add: take_bit_eq_mask)
qed

lemma u8_below_128: "unat (w :: u8) < 128 \<Longrightarrow> w AND 0x7f = w"
  using and_mask_below [of w 7] by (simp add: mask_eq_exp_minus_1)

lemma u8_below_64: "unat (w :: u8) < 64 \<Longrightarrow> w AND 0x3f = w"
  using and_mask_below [of w 6] by (simp add: mask_eq_exp_minus_1)

lemma unat_ucast_u8: "unat (ucast (w :: 'a :: len word) :: u8) = unat w mod 256"
  by (simp add: unsigned_ucast_eq take_bit_eq_mod)

lemma unat_drop_bit: "unat (drop_bit n w) = unat w div 2 ^ n"
  by (simp only: unat_drop_bit_eq) (simp add: drop_bit_eq_div)

lemma unat_bounds [simp]:
  "\<not> 256 \<le> unat (b :: u8)" "\<not> 65536 \<le> unat (h :: u16)" "\<not> 4294967296 \<le> unat (w :: u32)"
  by (simp_all add: not_le)

text \<open>\<open>(a << 8) | b\<close> on naturals, for \<open>b\<close> a byte.\<close>

lemma shl8_or_nat: "b < 256 \<Longrightarrow> push_bit 8 a OR b = a * 256 + (b :: nat)"
proof -
  assume "b < 256"
  then have "int (push_bit 8 a OR b) = concat_bit 8 (int b) (int a)"
    by (simp add: of_nat_or_eq of_nat_push_bit concat_bit_def or.commute take_bit_int_eq_self)
  also have "\<dots> = int (a * 256 + b)"
    using \<open>b < 256\<close> by (simp add: concat_bit_eq push_bit_eq_mult take_bit_int_eq_self)
  finally show "push_bit 8 a OR b = a * 256 + b" by (simp only: of_nat_eq_iff)
qed

section \<open>The codec interface of a stream of messages\<close>

text \<open>
  Several protocols here send self-delimiting messages back to back and parse them with a
  loop \<open>while !buf.is_empty()\<close>. The interface names the encoder and decoder of one message
  and the loop; its laws are the message's round trip and the loop's unfolding.
\<close>

locale stream_codec =
  fixes enc :: "'m \<Rightarrow> bytes"
    and dec :: "bytes \<Rightarrow> ('m \<times> bytes) result"
    and valid :: "'m \<Rightarrow> bool"
    and loop :: "bytes \<Rightarrow> 'm list result"
  assumes enc_dec: "valid m \<Longrightarrow> dec (enc m @ r) = Ok (m, r)"
    and enc_nonempty: "enc m \<noteq> []"
    and loop_Nil: "loop [] = Ok []"
    and loop_step: "b \<noteq> [] \<Longrightarrow>
       loop b = and_then (dec b) (\<lambda>(m, r). and_then (loop r) (\<lambda>ms. Ok (m # ms)))"
    and dec_shrinks: "dec b = Ok (m, r) \<Longrightarrow> length r < length b"
begin

lemma loop_append:
  assumes "list_all valid ms"
  shows "loop (concat (map enc ms) @ b) = and_then (loop b) (\<lambda>ms'. Ok (ms @ ms'))"
  using assms
proof (induction ms)
  case Nil
  then show ?case by (cases "loop b") simp_all
next
  case (Cons m ms)
  have "loop (enc m @ (concat (map enc ms) @ b)) =
      and_then (loop (concat (map enc ms) @ b)) (\<lambda>ms. Ok (m # ms))"
    using Cons.prems enc_nonempty [of m] by (subst loop_step) (auto simp: enc_dec)
  with Cons show ?case by (simp add: and_then_assoc)
qed

lemma loop_concat: "list_all valid ms \<Longrightarrow> loop (concat (map enc ms)) = Ok ms"
  using loop_append [of ms "[]"] by (simp add: loop_Nil)

lemma loop_error:
  assumes "list_all valid ms" and "b \<noteq> []" and "dec b = Err e"
  shows "loop (concat (map enc ms) @ b) = Err e"
  using assms by (subst loop_append) (simp_all add: loop_step)

lemma loop_no_panic:
  assumes "\<And>b. dec b \<noteq> Panic"
  shows "loop b \<noteq> Panic"
proof (induction b rule: measure_induct_rule [of length])
  case (less b)
  show ?case
  proof (cases "b = []")
    case False
    then show ?thesis using less assms dec_shrinks by (auto simp: loop_step split: prod.splits)
  qed (simp add: loop_Nil)
qed

end

section \<open>Operations on a mutable state\<close>

text \<open>
  A method \<open>fn f(&mut self, ..) -> Result<T>\<close> may change the state and then fail: the state
  it leaves behind is part of its result.
\<close>

type_synonym ('s, 'a) io = "'s \<Rightarrow> 'a result \<times> 's"

definition io_ok :: "'a \<Rightarrow> ('s, 'a) io" where
  "io_ok x s = (Ok x, s)"

definition io_lift :: "'a result \<Rightarrow> ('s, 'a) io" where
  "io_lift m s = (m, s)"

definition io_bind :: "('s, 'a) io \<Rightarrow> ('a \<Rightarrow> ('s, 'b) io) \<Rightarrow> ('s, 'b) io" where
  "io_bind m f s =
     (case m s of
        (Ok x, t) \<Rightarrow> f x t
      | (Err e, t) \<Rightarrow> (Err e, t)
      | (Panic, t) \<Rightarrow> (Panic, t))"

lemma io_bind_simps [simp]:
  "m s = (Ok x, t) \<Longrightarrow> io_bind m f s = f x t"
  "m s = (Err e, t) \<Longrightarrow> io_bind m f s = (Err e, t)"
  "m s = (Panic, t) \<Longrightarrow> io_bind m f s = (Panic, t)"
  by (simp_all add: io_bind_def)

lemma io_bind_ok [simp]: "io_bind (io_ok x) f s = f x s"
  by (simp add: io_ok_def)

lemma io_bind_eq_Ok:
  "io_bind m f s = (Ok y, u) \<longleftrightarrow> (\<exists>x t. m s = (Ok x, t) \<and> f x t = (Ok y, u))"
  by (auto simp: io_bind_def split: prod.splits result.splits)

lemma io_lift_eq [simp]: "io_lift m s = (r, t) \<longleftrightarrow> r = m \<and> t = s"
  by (auto simp: io_lift_def)

end
