(* ===== verification/Transport.thy ===== *)
theory Transport
  imports Prelude
begin

text \<open>
  The trait \<open>PduTransport\<close> of \<open>src/connection.rs\<close> as an interface, and the reasoning about
  sequences of sends and receives that the connection sequence is proved with. A run is
  described by the messages it consumes and the messages it sends: \<open>ready s ins outs\<close> says
  that in state \<open>s\<close> the peer's messages \<open>ins\<close> are still to be received, in that order, and
  that \<open>outs\<close> is what has been sent.
\<close>

type_synonym 's transport_view = "'s \<Rightarrow> bytes list \<Rightarrow> bytes list \<Rightarrow> bool"

definition runs ::
    "'s transport_view \<Rightarrow> ('s, 'a) io \<Rightarrow> bytes list \<Rightarrow> 'a result \<Rightarrow> bytes list \<Rightarrow> bool" where
  "runs ready m ins res outs \<longleftrightarrow>
     (\<forall>s rest sent. ready s (ins @ rest) sent \<longrightarrow>
        (\<exists>t. m s = (res, t) \<and> ready t rest (sent @ outs)))"

lemma runs_ok [intro]: "runs ready (io_ok x) [] (Ok x) []"
  by (auto simp: runs_def io_ok_def)

lemma runs_lift [intro]: "runs ready (io_lift r) [] r []"
  by (auto simp: runs_def io_lift_def)

lemma runs_bind:
  assumes "runs ready m i1 (Ok x) o1" and "runs ready (f x) i2 r o2"
  shows "runs ready (io_bind m f) (i1 @ i2) r (o1 @ o2)"
  unfolding runs_def
proof (intro allI impI)
  fix s rest sent
  assume "ready s ((i1 @ i2) @ rest) sent"
  then have "ready s (i1 @ (i2 @ rest)) sent" by simp
  then obtain t where t: "m s = (Ok x, t)" "ready t (i2 @ rest) (sent @ o1)"
    using assms(1) unfolding runs_def by blast
  then obtain u where "f x t = (r, u)" "ready u rest ((sent @ o1) @ o2)"
    using assms(2) unfolding runs_def by blast
  with t show "\<exists>t. io_bind m f s = (r, t) \<and> ready t rest (sent @ (o1 @ o2))" by simp
qed

lemma runs_bindI:
  assumes "runs ready m i1 (Ok x) o1" and "runs ready (f x) i2 r o2"
    and "ins = i1 @ i2" and "outs = o1 @ o2"
  shows "runs ready (io_bind m f) ins r outs"
  using runs_bind [where f = f, OF assms(1,2)] assms(3,4) by simp

lemma runs_bind_Err:
  "runs ready m i (Err e) os \<Longrightarrow> runs ready (io_bind m f) i (Err e) os"
  unfolding runs_def by (metis io_bind_simps(2))

lemma runs_bind_lift:
  "r = Ok x \<Longrightarrow> runs ready (f x) i2 r2 o2 \<Longrightarrow> runs ready (io_bind (io_lift r) f) i2 r2 o2"
  using runs_bind [OF runs_lift] by fastforce

text \<open>A send contributes one message, a receive consumes one.\<close>

locale pdu_transport =
  fixes send :: "bytes \<Rightarrow> ('s, unit) io"
    and recv :: "('s, bytes) io"
    and ready :: "'s transport_view"
    and fits :: "bytes \<Rightarrow> bool"
  assumes send_runs: "fits p \<Longrightarrow> runs ready (send p) [] (Ok ()) [p]"
    and recv_runs: "runs ready recv [p] (Ok p) []"
begin

lemma send_bind:
  "fits p \<Longrightarrow> runs ready (f ()) ins r outs \<Longrightarrow>
   runs ready (io_bind (send p) f) ins r (p # outs)"
  using runs_bind [OF send_runs] by fastforce

lemma recv_bind:
  "runs ready (f p) ins r outs \<Longrightarrow> runs ready (io_bind recv f) (p # ins) r outs"
  using runs_bind [OF recv_runs] by fastforce

end

section \<open>The scripted transport of the crate's own tests\<close>

record mock_transport =
  mt_responses :: "bytes list"
  mt_sent :: "bytes list"

definition mock_send :: "bytes \<Rightarrow> (mock_transport, unit) io" where
  "mock_send p s = (Ok (), s\<lparr>mt_sent := mt_sent s @ [p]\<rparr>)"

definition mock_recv :: "(mock_transport, bytes) io" where
  "mock_recv s =
     (case mt_responses s of
        [] \<Rightarrow> (Err (Protocol ''mock: no more responses''), s)
      | p # ps \<Rightarrow> (Ok p, s\<lparr>mt_responses := ps\<rparr>))"

definition mock_ready :: "mock_transport transport_view" where
  "mock_ready s ins outs \<longleftrightarrow> mt_responses s = ins \<and> mt_sent s = outs"

interpretation mock: pdu_transport mock_send mock_recv mock_ready "\<lambda>_. True"
  by unfold_locales (auto simp: runs_def mock_ready_def mock_send_def mock_recv_def)

end
