(* ===== verification/Ber.thy ===== *)
theory Ber
  imports Prelude
begin

text \<open>
  BER encoding (\<open>src/mcs/ber.rs\<close>), definite lengths only. The reader's state is the unread
  part of its slice; it is passed along explicitly. A \<open>usize\<close> is 64 bits wide: the length
  accumulator of \<open>read_length\<close> and the \<open>u32\<close> accumulator of \<open>read_integer\<close> drop the high
  bits they shift out.
\<close>

text \<open>
  The loop \<open>while v > 0 { bytes.insert(0, (v & 0xff) as u8); v >>= 8; }\<close>, shared by every
  length and integer encoder of the crate, and the loop \<open>acc = (acc << 8) | b\<close> of the
  decoders, on an accumulator of \<open>w\<close> bits.
\<close>

fun be_insert_loop :: "nat \<Rightarrow> bytes \<Rightarrow> bytes" where
  "be_insert_loop v bs =
     (if v = 0 then bs else be_insert_loop (v div 256) (of_nat (v mod 256) # bs))"

declare be_insert_loop.simps [simp del]

definition shl8_or :: "nat \<Rightarrow> nat \<Rightarrow> u8 \<Rightarrow> nat" where
  "shl8_or w acc b = (acc * 256 + unat b) mod 2 ^ w"

definition be_fold :: "nat \<Rightarrow> bytes \<Rightarrow> nat" where
  "be_fold w bs = foldl (shl8_or w) 0 bs"

section \<open>Encoders\<close>

definition ber_length :: "nat \<Rightarrow> bytes" where
  "ber_length len =
     (if len < 0x80 then [of_nat len]
      else
        (let bs = be_insert_loop len []
         in (0x80 OR of_nat (length bs)) # bs))"

definition ber_tlv :: "bytes \<Rightarrow> bytes \<Rightarrow> bytes" where
  "ber_tlv tag contents = tag @ ber_length (length contents) @ contents"

definition ber_integer :: "u32 \<Rightarrow> bytes" where
  "ber_integer v =
     (let n = unat v;
          bs = (if n = 0 then [0] else be_insert_loop n []);
          bs = (if hd bs AND 0x80 \<noteq> 0 then 0 # bs else bs)
      in ber_tlv [0x02] bs)"

definition ber_boolean :: "bool \<Rightarrow> bytes" where
  "ber_boolean b = ber_tlv [0x01] [if b then 0xff else 0x00]"

definition ber_octet_string :: "bytes \<Rightarrow> bytes" where
  "ber_octet_string bs = ber_tlv [0x04] bs"

definition ber_enumerated :: "u8 \<Rightarrow> bytes" where
  "ber_enumerated v = ber_tlv [0x0a] [v]"

definition ber_sequence :: "bytes \<Rightarrow> bytes" where
  "ber_sequence contents = ber_tlv [0x30] contents"

text \<open>The digits pushed least significant first, and then reversed.\<close>

fun tag_digits_loop :: "nat \<Rightarrow> bytes \<Rightarrow> bytes" where
  "tag_digits_loop n digits =
     (if n = 0 then digits
      else tag_digits_loop (n div 128) (digits @ [of_nat (n mod 128) OR 0x80]))"

declare tag_digits_loop.simps [simp del]

definition application_tag_bytes :: "nat \<Rightarrow> bytes" where
  "application_tag_bytes tag_number =
     (if tag_number < 31 then [0x40 OR 0x20 OR of_nat tag_number]
      else 0x7f # rev (tag_digits_loop (tag_number div 128) [of_nat (tag_number mod 128)]))"

definition ber_application :: "nat \<Rightarrow> bytes \<Rightarrow> bytes" where
  "ber_application tag_number contents = ber_tlv (application_tag_bytes tag_number) contents"

section \<open>The reader\<close>

definition ber_read_length :: "bytes \<Rightarrow> (nat \<times> bytes) result" where
  "ber_read_length buf =
     (if buf = [] then Err (Short 1 0)
      else and_then (index buf 0) (\<lambda>first.
        and_then (slice_from buf 1) (\<lambda>buf.
          if unat first < 0x80 then Ok (unat first, buf)
          else
            (let n = unat (first AND 0x7f)
             in if length buf < n then Err (Short n (length buf))
                else and_then (slice_to buf n) (\<lambda>bs.
                  and_then (slice_from buf n) (\<lambda>rest. Ok (be_fold 64 bs, rest)))))))"

definition ber_expect :: "bytes \<Rightarrow> bytes \<Rightarrow> (bytes \<times> bytes) result" where
  "ber_expect tag buf =
     (if length buf < length tag then Err (Short (length tag) (length buf))
      else and_then (slice_to buf (length tag)) (\<lambda>t.
        if t \<noteq> tag then Err (Protocol ''unexpected BER tag'')
        else and_then (slice_from buf (length tag)) (\<lambda>buf.
          and_then (ber_read_length buf) (\<lambda>(len, buf).
            if length buf < len then Err (Short len (length buf))
            else and_then (slice_to buf len) (\<lambda>v.
              and_then (slice_from buf len) (\<lambda>rest. Ok (v, rest)))))))"

definition ber_read_integer :: "bytes \<Rightarrow> (u32 \<times> bytes) result" where
  "ber_read_integer buf =
     and_then (ber_expect [0x02] buf) (\<lambda>(v, rest). Ok (of_nat (be_fold 32 v), rest))"

section \<open>The digits of a number\<close>

text \<open>The value the digits denote, without a width.\<close>

fun be_value :: "bytes \<Rightarrow> nat" where
  "be_value [] = 0"
| "be_value (b # bs) = unat b * 256 ^ length bs + be_value bs"

lemma be_value_append: "be_value (xs @ [b]) = be_value xs * 256 + unat b"
  by (induction xs) (simp_all add: algebra_simps)

lemma be_fold_value: "be_fold w bs = be_value bs mod 2 ^ w"
proof (induction bs rule: rev_induct)
  case (snoc b bs)
  then have "be_fold w (bs @ [b]) = (be_value bs mod 2 ^ w * 256 + unat b) mod 2 ^ w"
    by (simp add: be_fold_def shl8_or_def)
  also have "\<dots> = (be_value bs * 256 + unat b) mod 2 ^ w"
    by (metis mod_add_left_eq mod_mult_left_eq)
  finally show ?case by (simp add: be_value_append)
qed (simp add: be_fold_def)

lemma be_value_bound: "be_value bs < 256 ^ length bs"
proof (induction bs)
  case (Cons b bs)
  have "unat b * 256 ^ length bs \<le> 255 * 256 ^ length bs"
    by (intro mult_right_mono) (use unat_u8_bound [of b] in linarith, simp)
  with Cons have "unat b * 256 ^ length bs + be_value bs < 256 * 256 ^ length bs" by linarith
  then show ?case by simp
qed simp

lemma be_insert_loop_value:
  "be_value (be_insert_loop v bs) = v * 256 ^ length bs + be_value bs"
proof (induction v bs rule: be_insert_loop.induct)
  case (1 v bs)
  have split: "v * 256 ^ length bs
      = v div 256 * 256 ^ Suc (length bs) + v mod 256 * 256 ^ length bs"
    by (metis (no_types) add_mult_distrib div_mult_mod_eq mult.assoc power_Suc)
  show ?case
    using 1 split by (subst be_insert_loop.simps) (simp add: unat_of_nat_u8)
qed

lemma be_insert_loop_step:
  "v \<noteq> 0 \<Longrightarrow> be_insert_loop v bs = be_insert_loop (v div 256) (of_nat (v mod 256) # bs)"
  by (subst be_insert_loop.simps) simp

lemma be_insert_loop_0 [simp]: "be_insert_loop 0 bs = bs"
  by (simp add: be_insert_loop.simps)

lemma be_insert_loop_app: "be_insert_loop v bs = be_insert_loop v [] @ bs"
proof (induction v arbitrary: bs rule: less_induct)
  case (less v)
  show ?case
  proof (cases "v = 0")
    case False
    let ?d = "of_nat (v mod 256) :: u8"
    have "be_insert_loop (v div 256) xs = be_insert_loop (v div 256) [] @ xs" for xs
      using False by (intro less.IH) simp
    from this [of "?d # bs"] this [of "[?d]"] show ?thesis
      using False by (simp add: be_insert_loop_step)
  qed simp
qed

lemma be_insert_loop_snoc:
  "v \<noteq> 0 \<Longrightarrow> be_insert_loop v [] = be_insert_loop (v div 256) [] @ [of_nat (v mod 256)]"
  by (metis be_insert_loop_app be_insert_loop_step)

lemma be_insert_loop_length: "v < 256 ^ k \<Longrightarrow> length (be_insert_loop v []) \<le> k"
proof (induction k arbitrary: v)
  case (Suc k)
  show ?case
  proof (cases "v = 0")
    case False
    have "v div 256 < 256 ^ k" using Suc.prems by (simp add: less_mult_imp_div_less mult.commute)
    with Suc.IH False show ?thesis by (simp add: be_insert_loop_snoc)
  qed simp
qed simp

lemma be_insert_loop_nonempty: "v \<noteq> 0 \<Longrightarrow> be_insert_loop v [] \<noteq> []"
  by (simp add: be_insert_loop_snoc)

text \<open>The digits are minimal: the leading one is not zero.\<close>

lemma be_insert_loop_hd: "v \<noteq> 0 \<Longrightarrow> hd (be_insert_loop v []) \<noteq> 0"
proof (induction v rule: less_induct)
  case (less v)
  show ?case
  proof (cases "v div 256 = 0")
    case True
    then have "v < 256" by (simp add: div_eq_0_iff)
    then have "unat (of_nat v :: u8) = v" by simp
    then have "of_nat v \<noteq> (0 :: u8)" using less.prems by (metis unat_0)
    with True less.prems \<open>v < 256\<close> show ?thesis by (simp add: be_insert_loop_snoc)
  next
    case False
    then show ?thesis
      using less.IH [of "v div 256"] less.prems be_insert_loop_nonempty [OF False]
      by (simp add: be_insert_loop_snoc [of v])
  qed
qed

lemma be_fold_insert_loop: "v < 2 ^ w \<Longrightarrow> be_fold w (be_insert_loop v []) = v"
  by (simp add: be_fold_value be_insert_loop_value)

lemma be_fold_zero: "be_fold w (0 # bs) = be_fold w bs"
  by (simp add: be_fold_value)

section \<open>Round trips\<close>

lemma long_length_byte:
  assumes "k \<le> 8"
  shows "unat ((0x80 :: u8) OR of_nat k) = 128 + k \<and> unat (((0x80 :: u8) OR of_nat k) AND 0x7f) = k"
proof -
  have "list_all (\<lambda>k. unat ((0x80 :: u8) OR of_nat k) = 128 + k
      \<and> unat (((0x80 :: u8) OR of_nat k) AND 0x7f) = k) [0..<9]"
    by code_simp
  moreover have "k \<in> set [0..<9]" using assms by simp
  ultimately show ?thesis unfolding list_all_iff by blast
qed

lemma ber_read_length_roundtrip [simp, parse_simps]:
  assumes "n < 2 ^ 64"
  shows "ber_read_length (ber_length n @ r) = Ok (n, r)"
proof (cases "n < 128")
  case True
  then show ?thesis by (simp add: ber_read_length_def ber_length_def)
next
  case False
  let ?bs = "be_insert_loop n []"
  have k: "length ?bs \<le> 8" using assms by (intro be_insert_loop_length) simp
  note byte = long_length_byte [OF k]
  show ?thesis
    using False byte be_fold_insert_loop [OF assms]
    by (simp add: ber_read_length_def ber_length_def Let_def)
qed

lemma ber_length_nonempty [simp]: "ber_length n \<noteq> []"
  by (simp add: ber_length_def Let_def)

lemma ber_expect_roundtrip [simp, parse_simps]:
  assumes "length c < 2 ^ 64"
  shows "ber_expect tag (ber_tlv tag c @ r) = Ok (c, r)"
  using assms by (simp add: ber_expect_def ber_tlv_def)

lemma ber_expect_wrong_tag:
  assumes "length tag' = length tag" and "tag' \<noteq> tag"
  shows "ber_expect tag (ber_tlv tag' c @ r) = Err (Protocol ''unexpected BER tag'')"
  using assms by (simp add: ber_expect_def ber_tlv_def)

lemma ber_integer_contents:
  "\<exists>bs. ber_integer v = ber_tlv [0x02] bs \<and> be_fold 32 bs = unat v \<and> length bs \<le> 5"
proof -
  let ?bs = "if unat v = 0 then [0] else be_insert_loop (unat v) []"
  have "be_fold 32 ?bs = unat v"
    using be_fold_insert_loop [of "unat v" 32] unat_u32_bound [of v]
    by (simp add: be_fold_value)
  moreover have "length ?bs \<le> 4"
    using be_insert_loop_length [of "unat v" 4] unat_u32_bound [of v] by simp
  ultimately show ?thesis by (auto simp: ber_integer_def Let_def be_fold_zero)
qed

lemma ber_read_integer_roundtrip [simp, parse_simps]:
  "ber_read_integer (ber_integer v @ r) = Ok (v, r)"
proof -
  obtain bs where "ber_integer v = ber_tlv [0x02] bs" "be_fold 32 bs = unat v" "length bs \<le> 5"
    using ber_integer_contents by blast
  then show ?thesis by (simp add: ber_read_integer_def)
qed

section \<open>The reader never panics and always advances\<close>

lemma ber_read_length_no_panic [no_panic]: "ber_read_length buf \<noteq> Panic"
  by (cases buf) (auto simp: ber_read_length_def Let_def not_less slice_from_def slice_to_def)

lemma ber_expect_no_panic [no_panic]: "ber_expect tag buf \<noteq> Panic"
  by (auto simp: ber_expect_def no_panic not_less)

lemma ber_read_integer_no_panic [no_panic]: "ber_read_integer buf \<noteq> Panic"
  by (auto simp: ber_read_integer_def no_panic)

end
