(* ===== verification/Connect.thy ===== *)
theory Connect
  imports Ber
begin

text \<open>
  MCS Connect-Initial and Connect-Response (\<open>src/mcs/connect.rs\<close>): the BER envelopes that
  carry the GCC conference data.
\<close>

definition CONNECT_INITIAL :: nat where "CONNECT_INITIAL = 101"
definition CONNECT_RESPONSE :: nat where "CONNECT_RESPONSE = 102"

text \<open>
  \<open>uint\<close>: an INTEGER without the sign-extension byte; the loop runs over the shifts
  24, 16, 8 and 0.
\<close>

fun uint_loop :: "u32 \<Rightarrow> nat list \<Rightarrow> bool \<Rightarrow> bytes" where
  "uint_loop v [] started = []"
| "uint_loop v (shift # shifts) started =
     (let b = ucast (drop_bit shift v) :: u8
      in if b \<noteq> 0 \<or> started \<or> shift = 0 then b # uint_loop v shifts True
         else uint_loop v shifts started)"

definition mcs_uint :: "u32 \<Rightarrow> bytes" where
  "mcs_uint v = (let bs = uint_loop v [24, 16, 8, 0] False in 0x02 # of_nat (length bs) # bs)"

definition domain_parameters :: "u32 list \<Rightarrow> bytes" where
  "domain_parameters vals = ber_sequence (concat (map mcs_uint vals))"

definition connect_initial :: "bytes \<Rightarrow> bytes" where
  "connect_initial gcc_ccr =
     (let target = domain_parameters [34, 2, 0, 1, 0, 1, 0xFFFF, 2];
          minimum = domain_parameters [1, 1, 1, 1, 0, 1, 0x420, 2];
          maximum = domain_parameters [0xFFFF, 0xFC17, 0xFFFF, 1, 0, 1, 0xFFFF, 2];
          body = ber_octet_string [0x01] @ ber_octet_string [0x01] @ ber_boolean True
                 @ target @ minimum @ maximum @ ber_octet_string gcc_ccr
      in ber_application CONNECT_INITIAL body)"

definition parse_connect_response :: "bytes \<Rightarrow> bytes result" where
  "parse_connect_response pdu =
     and_then (ber_expect (application_tag_bytes CONNECT_RESPONSE) pdu) (\<lambda>(body, _).
       and_then (ber_expect [0x0a] body) (\<lambda>(res, br).
         if res = [] \<or> hd res \<noteq> 0
         then Err (NegotiationFailure ''MCS Connect-Response not rt-successful'')
         else and_then (ber_read_integer br) (\<lambda>(_, br).
           and_then (ber_expect [0x30] br) (\<lambda>(_, br).
             and_then (ber_expect [0x04] br) (\<lambda>(user_data, _). Ok user_data)))))"

section \<open>What a server's Connect-Response parses to\<close>

text \<open>The Connect-Response a server sends: the encoder the parser is written against.\<close>

definition connect_response_pdu :: "u8 \<Rightarrow> u32 \<Rightarrow> bytes \<Rightarrow> bytes \<Rightarrow> bytes" where
  "connect_response_pdu res connect_id params user_data =
     ber_application CONNECT_RESPONSE
       (ber_enumerated res @ ber_integer connect_id @ ber_sequence params
          @ ber_octet_string user_data)"

lemma uint_loop_length: "length (uint_loop v shifts started) \<le> length shifts"
  by (induction shifts arbitrary: started) (auto simp: Let_def intro: le_SucI)

lemma application_tag_101: "application_tag_bytes 101 = [0x7f, 0x65]"
  by (simp add: application_tag_bytes_def tag_digits_loop.simps)

lemma application_tag_102: "application_tag_bytes 102 = [0x7f, 0x66]"
  by (simp add: application_tag_bytes_def tag_digits_loop.simps)

lemma ber_length_bound:
  assumes "n < 2 ^ 64" shows "length (ber_length n) \<le> 9"
proof -
  have "length (be_insert_loop n []) \<le> 8" using assms by (intro be_insert_loop_length) simp
  then show ?thesis by (simp add: ber_length_def Let_def)
qed

lemma ber_tlv_length:
  "length c < 2 ^ 64 \<Longrightarrow> length (ber_tlv tag c) \<le> length tag + 9 + length c"
  using ber_length_bound [of "length c"] by (simp add: ber_tlv_def)

lemma connect_response_body_length:
  assumes "length params + length user_data < 2 ^ 63"
  shows "length (ber_enumerated res @ ber_integer connect_id @ ber_sequence params
          @ ber_octet_string user_data) < 2 ^ 64"
proof -
  obtain bs where "ber_integer connect_id = ber_tlv [0x02] bs" "length bs \<le> 5"
    using ber_integer_contents by blast
  moreover have "length (ber_tlv [0x02] bs) \<le> 1 + 9 + length bs" if "length bs \<le> 5"
    using that ber_tlv_length [of bs "[0x02]"] by simp
  moreover have "length (ber_tlv [0x0a] [res]) \<le> 1 + 9 + 1"
    using ber_tlv_length [of "[res]" "[0x0a]"] by simp
  moreover have "length (ber_tlv [0x30] params) \<le> 1 + 9 + length params"
    using assms ber_tlv_length [of params "[0x30]"] by simp
  moreover have "length (ber_tlv [0x04] user_data) \<le> 1 + 9 + length user_data"
    using assms ber_tlv_length [of user_data "[0x04]"] by simp
  ultimately show ?thesis
    using assms by (simp add: ber_enumerated_def ber_sequence_def ber_octet_string_def)
qed

lemma parse_connect_response_body:
  assumes "length params + length user_data < 2 ^ 63"
  shows "parse_connect_response (connect_response_pdu res connect_id params user_data) =
     (if res = 0 then Ok user_data
      else Err (NegotiationFailure ''MCS Connect-Response not rt-successful''))"
proof -
  note len = connect_response_body_length [OF assms, of res connect_id]
  have "length params < 2 ^ 64" "length user_data < 2 ^ 64" using assms by simp_all
  then show ?thesis
    using ber_expect_roundtrip [OF len, of "application_tag_bytes CONNECT_RESPONSE" "[]"]
      ber_expect_roundtrip [of user_data "[4]" "[]"]
    by (simp add: parse_connect_response_def connect_response_pdu_def ber_application_def
        ber_enumerated_def ber_sequence_def ber_octet_string_def)
qed

lemma parse_connect_response_no_panic [no_panic]: "parse_connect_response pdu \<noteq> Panic"
  by (auto simp: parse_connect_response_def no_panic split: prod.splits)

end
