(* ===== verification/Per.thy ===== *)
theory Per
  imports Prelude
begin

text \<open>
  Aligned PER primitives (\<open>src/mcs/per.rs\<close>): the length determinant of the MCS domain PDUs
  and of GCC, big-endian.
\<close>

definition per_write_length :: "nat \<Rightarrow> bytes" where
  "per_write_length n =
     (if n < 0x80 then put_u8 (of_nat n)
      else if n < 0x4000 then put_u16 (of_nat n OR 0x8000)
      else put_u8 0xC1 @ put_u16 (of_nat n))"

definition per_read_length :: "bytes \<Rightarrow> (nat \<times> bytes) result" where
  "per_read_length buf =
     (if buf = [] then Err (Short 1 0)
      else and_then (get_u8 buf) (\<lambda>(first, buf).
        if first AND 0x80 = 0 then Ok (unat first, buf)
        else if first AND 0xC0 = 0x80 then
          (if buf = [] then Err (Short 1 0)
           else and_then (get_u8 buf) (\<lambda>(lo, buf).
             Ok (unat (first AND 0x3f) * 256 + unat lo, buf)))
        else Err (Protocol ''unsupported PER fragmented length'')))"

definition per_write_u16 :: "u16 \<Rightarrow> bytes" where
  "per_write_u16 v = put_u16 v"

definition per_write_u8 :: "u8 \<Rightarrow> bytes" where
  "per_write_u8 v = put_u8 v"

definition per_write_object_identifier :: "bytes \<Rightarrow> bytes" where
  "per_write_object_identifier oid_encoded = per_write_length (length oid_encoded) @ oid_encoded"

definition per_write_octet_string :: "bytes \<Rightarrow> bytes" where
  "per_write_octet_string bs = per_write_length (length bs) @ bs"

section \<open>The length determinant round-trips below \<open>0x4000\<close>, and only there\<close>

lemma short_form_byte: "unat (w :: u8) < 128 \<Longrightarrow> w AND 0x80 = 0"
  by (subst u8_below_128 [symmetric], assumption) (simp add: and.assoc)

lemma long_form_byte:
  "unat (w :: u8) < 64 \<Longrightarrow>
   (w OR 0x80) AND 0x80 \<noteq> 0 \<and> (w OR 0x80) AND 0xC0 = 0x80 \<and> (w OR 0x80) AND 0x3f = w"
proof -
  assume "unat w < 64"
  then obtain v where "w = v AND 0x3f" using u8_below_64 by metis
  then show ?thesis by (simp add: and.assoc bit.conj_disj_distrib2)
qed

lemma long_form_put:
  "put_u16 (w OR 0x8000) = [ucast (drop_bit 8 w) OR 0x80, ucast w]"
proof -
  have z: "(0x8000 :: u8) = 0" by simp
  have "(ucast w :: u8) OR 0x8000 = ucast w" unfolding z by simp
  then show ?thesis by (simp add: put_u16_def unsigned_or_eq)
qed

lemma per_length_roundtrip [simp, parse_simps]:
  assumes "n < 0x4000"
  shows "per_read_length (per_write_length n @ r) = Ok (n, r)"
proof (cases "n < 0x80")
  case True
  then show ?thesis
    by (simp add: per_read_length_def per_write_length_def put_u8_def short_form_byte)
next
  case False
  let ?hi = "ucast (drop_bit 8 (of_nat n :: u16)) :: u8" and ?lo = "ucast (of_nat n :: u16) :: u8"
  have n: "unat (of_nat n :: u16) = n" using assms by simp
  have hi: "unat ?hi = n div 256" using assms by (simp add: unat_ucast_u8 unat_drop_bit n)
  then have "unat ?hi < 64" using assms by simp
  note bits = long_form_byte [OF this]
  have lo: "unat ?lo = n mod 256" by (simp only: unat_ucast_u8 n)
  have "per_read_length (per_write_length n @ r) = Ok (unat ?hi * 256 + unat ?lo, r)"
    using False assms bits by (simp add: per_read_length_def per_write_length_def long_form_put)
  then show ?thesis by (simp add: hi lo)
qed

lemma per_length_long_rejected:
  assumes "0x4000 \<le> n"
  shows "per_read_length (per_write_length n @ r) = Err (Protocol ''unsupported PER fragmented length'')"
  using assms by (simp add: per_read_length_def per_write_length_def put_u8_def)

lemma per_read_length_no_panic [no_panic]: "per_read_length buf \<noteq> Panic"
  by (cases buf) (auto simp: per_read_length_def Suc_le_eq)

lemma per_read_length_shrinks: "per_read_length buf = Ok (n, r) \<Longrightarrow> length r < length buf"
  by (auto simp: per_read_length_def and_then_eq_Ok get_eq_Ok split: if_splits)

end
