(* ===== verification/Domain.thy ===== *)
theory Domain
  imports Per
begin

text \<open>
  MCS domain PDUs (\<open>src/mcs/domain.rs\<close>). User ids are sent as offsets from 1001, in
  \<open>u16\<close> arithmetic: a build with overflow checks (\<open>oc\<close>, the debug profile) panics where a
  release build wraps around, so the operations that compute with user ids take \<open>oc\<close>.
\<close>

definition MCS_BASE :: u16 where "MCS_BASE = 1001"
definition IO_CHANNEL :: u16 where "IO_CHANNEL = 1003"

definition ERECT_DOMAIN_REQUEST :: u8 where "ERECT_DOMAIN_REQUEST = 1"
definition ATTACH_USER_REQUEST :: u8 where "ATTACH_USER_REQUEST = 10"
definition ATTACH_USER_CONFIRM :: u8 where "ATTACH_USER_CONFIRM = 11"
definition CHANNEL_JOIN_REQUEST :: u8 where "CHANNEL_JOIN_REQUEST = 14"
definition CHANNEL_JOIN_CONFIRM :: u8 where "CHANNEL_JOIN_CONFIRM = 15"
definition SEND_DATA_REQUEST :: u8 where "SEND_DATA_REQUEST = 25"
definition SEND_DATA_INDICATION :: u8 where "SEND_DATA_INDICATION = 26"

lemmas domain_consts =
  MCS_BASE_def IO_CHANNEL_def ERECT_DOMAIN_REQUEST_def ATTACH_USER_REQUEST_def
  ATTACH_USER_CONFIRM_def CHANNEL_JOIN_REQUEST_def CHANNEL_JOIN_CONFIRM_def
  SEND_DATA_REQUEST_def SEND_DATA_INDICATION_def

section \<open>Arithmetic with and without overflow checks\<close>

definition add_u16 :: "bool \<Rightarrow> u16 \<Rightarrow> u16 \<Rightarrow> u16 result" where
  "add_u16 oc a b = (if oc \<and> 65536 \<le> unat a + unat b then Panic else Ok (a + b))"

definition sub_u16 :: "bool \<Rightarrow> u16 \<Rightarrow> u16 \<Rightarrow> u16 result" where
  "sub_u16 oc a b = (if oc \<and> unat a < unat b then Panic else Ok (a - b))"

section \<open>The PDUs\<close>

definition choice :: "u8 \<Rightarrow> u8" where
  "choice ix = push_bit 2 ix"

definition erect_domain_request :: bytes where
  "erect_domain_request = [choice ERECT_DOMAIN_REQUEST, 0x01, 0x00, 0x01, 0x00]"

definition attach_user_request :: bytes where
  "attach_user_request = [choice ATTACH_USER_REQUEST]"

definition parse_attach_user_confirm :: "bool \<Rightarrow> bytes \<Rightarrow> u16 result" where
  "parse_attach_user_confirm oc buf =
     (if length buf < 2 then Err (Short 2 (length buf))
      else and_then (get_u8 buf) (\<lambda>(tag, b).
        if drop_bit 2 tag \<noteq> ATTACH_USER_CONFIRM then Err (Protocol ''not an Attach User Confirm'')
        else and_then (get_u8 b) (\<lambda>(res, b).
          if res \<noteq> 0
          then Err (NegotiationFailure ''Attach User Confirm result not successful'')
          else if tag AND 0x02 = 0 \<or> length b < 2
          then Err (Protocol ''Attach User Confirm missing initiator'')
          else and_then (get_u16 b) (\<lambda>(v, _). add_u16 oc v MCS_BASE))))"

definition channel_join_request :: "bool \<Rightarrow> u16 \<Rightarrow> u16 \<Rightarrow> bytes result" where
  "channel_join_request oc user_id channel_id =
     and_then (sub_u16 oc user_id MCS_BASE) (\<lambda>initiator.
       Ok (put_u8 (choice CHANNEL_JOIN_REQUEST) @ put_u16 initiator @ put_u16 channel_id))"

definition parse_channel_join_confirm :: "bytes \<Rightarrow> u16 result" where
  "parse_channel_join_confirm buf =
     (if length buf < 2 then Err (Short 2 (length buf))
      else and_then (get_u8 buf) (\<lambda>(tag, b).
        if drop_bit 2 tag \<noteq> CHANNEL_JOIN_CONFIRM then Err (Protocol ''not a Channel Join Confirm'')
        else and_then (get_u8 b) (\<lambda>(res, b).
          if res \<noteq> 0
          then Err (NegotiationFailure ''Channel Join Confirm result not successful'')
          else if length b < 4 then Err (Short 4 (length b))
          else and_then (get_u16 b) (\<lambda>(_, b).
            and_then (get_u16 b) (\<lambda>(requested, b).
              if tag AND 0x02 \<noteq> 0 then
                (if length b < 2 then Err (Short 2 (length b))
                 else and_then (get_u16 b) (\<lambda>(ch, _). Ok ch))
              else Ok requested)))))"

definition send_data_request :: "bool \<Rightarrow> u16 \<Rightarrow> u16 \<Rightarrow> bytes \<Rightarrow> bytes result" where
  "send_data_request oc user_id channel_id payload =
     and_then (sub_u16 oc user_id MCS_BASE) (\<lambda>initiator.
       Ok (put_u8 (choice SEND_DATA_REQUEST) @ put_u16 initiator @ put_u16 channel_id
            @ put_u8 0x70 @ per_write_length (length payload) @ payload))"

definition parse_send_data_indication :: "bytes \<Rightarrow> (u16 \<times> bytes) result" where
  "parse_send_data_indication buf =
     (if buf = [] then Err (Short 1 0)
      else and_then (get_u8 buf) (\<lambda>(tag, b).
        if drop_bit 2 tag \<noteq> SEND_DATA_INDICATION then Err (Protocol ''not a Send Data Indication'')
        else if length b < 5 then Err (Short 5 (length b))
        else and_then (get_u16 b) (\<lambda>(_, b).
          and_then (get_u16 b) (\<lambda>(channel_id, b).
            and_then (get_u8 b) (\<lambda>(_, b).
              and_then (per_read_length b) (\<lambda>(len, b).
                if length b < len then Err (Short len (length b))
                else
                  (let consumed = length buf - length b
                   in and_then (slice buf consumed (consumed + len)) (\<lambda>p.
                        Ok (channel_id, p)))))))))"

section \<open>Facts about the pieces\<close>

text \<open>The three PDUs a server answers with, as the parsers expect them.\<close>

definition attach_user_confirm_pdu :: "u16 \<Rightarrow> bytes" where
  "attach_user_confirm_pdu initiator = [0x2E, 0] @ put_u16 initiator"

definition channel_join_confirm_pdu :: "u16 \<Rightarrow> u16 \<Rightarrow> u16 \<Rightarrow> bytes" where
  "channel_join_confirm_pdu initiator requested channel_id =
     [0x3E, 0] @ put_u16 initiator @ put_u16 requested @ put_u16 channel_id"

definition send_data_indication_pdu :: "u16 \<Rightarrow> u16 \<Rightarrow> u8 \<Rightarrow> bytes \<Rightarrow> bytes" where
  "send_data_indication_pdu initiator channel_id priority payload =
     [0x68] @ put_u16 initiator @ put_u16 channel_id @ put_u8 priority
       @ per_write_length (length payload) @ payload"

lemma parse_attach_user_confirm_pdu:
  "parse_attach_user_confirm oc (attach_user_confirm_pdu v) = add_u16 oc v MCS_BASE"
  by (simp add: parse_attach_user_confirm_def attach_user_confirm_pdu_def domain_consts)

lemma parse_channel_join_confirm_pdu:
  "parse_channel_join_confirm (channel_join_confirm_pdu v r c) = Ok c"
  by (simp add: parse_channel_join_confirm_def channel_join_confirm_pdu_def domain_consts)

lemma parse_send_data_frame:
  assumes "drop_bit 2 tag = SEND_DATA_INDICATION" and "length payload < 0x4000"
  shows "parse_send_data_indication
    (put_u8 tag @ put_u16 v @ put_u16 ch @ put_u8 prio @ per_write_length (length payload) @ payload @ rest)
    = Ok (ch, payload)"
proof -
  have len: "0 < length (per_write_length (length payload))"
    by (simp add: per_write_length_def put_u8_def put_u16_def)
  show ?thesis
    using assms len by (simp add: parse_send_data_indication_def Let_def)
qed

lemma sub_add_u16:
  assumes "1001 \<le> unat u"
  shows "sub_u16 oc u MCS_BASE = Ok (u - 1001)" and "add_u16 oc (u - 1001) MCS_BASE = Ok u"
proof -
  have le: "(1001 :: u16) \<le> u" using assms by (simp add: word_le_nat_alt)
  show "sub_u16 oc u MCS_BASE = Ok (u - 1001)"
    using assms by (simp add: sub_u16_def domain_consts)
  have "unat (u - 1001) = unat u - 1001" using le by (simp add: unat_sub)
  then show "add_u16 oc (u - 1001) MCS_BASE = Ok u"
    using assms by (simp add: add_u16_def domain_consts)
qed

lemma parse_channel_join_confirm_no_panic [no_panic]: "parse_channel_join_confirm buf \<noteq> Panic"
  by (auto simp: parse_channel_join_confirm_def get_eq_Ok)

lemma parse_send_data_indication_no_panic [no_panic]: "parse_send_data_indication buf \<noteq> Panic"
  by (auto simp: parse_send_data_indication_def get_eq_Ok Let_def no_panic
      dest!: per_read_length_shrinks)

end
