(* ===== verification/Rust_String.thy ===== *)
theory Rust_String
  imports Prelude
begin

text \<open>
  Rust strings: sequences of Unicode scalar values, here as numbers, with the three
  conversions of the standard library the crate uses: the UTF-8 bytes of a string
  (\<open>into_bytes\<close>), \<open>String::from_utf8_lossy\<close>, and \<open>encode_utf16\<close> (through \<open>unicode\<close> of
  \<open>src/nla/crypto.rs\<close>).
\<close>

type_synonym rstring = "nat list"

definition scalar :: "nat \<Rightarrow> bool" where
  "scalar c \<longleftrightarrow> c < 0xD800 \<or> (0xE000 \<le> c \<and> c < 0x110000)"

definition rstr :: "string \<Rightarrow> rstring" where
  "rstr s = map of_char s"

section \<open>UTF-8\<close>

definition utf8_char :: "nat \<Rightarrow> nat list" where
  "utf8_char c =
     (if c < 0x80 then [c]
      else if c < 0x800 then [0xC0 + c div 64, 0x80 + c mod 64]
      else if c < 0x10000 then [0xE0 + c div 4096, 0x80 + c div 64 mod 64, 0x80 + c mod 64]
      else [0xF0 + c div 262144, 0x80 + c div 4096 mod 64, 0x80 + c div 64 mod 64, 0x80 + c mod 64])"

definition into_bytes :: "rstring \<Rightarrow> bytes" where
  "into_bytes s = map of_nat (concat (map utf8_char s))"

definition cont :: "nat \<Rightarrow> bool" where
  "cont b \<longleftrightarrow> 0x80 \<le> b \<and> b \<le> 0xBF"

text \<open>The admissible second byte after a three- or four-byte lead.\<close>

definition second3 :: "nat \<Rightarrow> nat \<Rightarrow> bool" where
  "second3 b c \<longleftrightarrow>
     (if b = 0xE0 then 0xA0 \<le> c \<and> c \<le> 0xBF
      else if b = 0xED then 0x80 \<le> c \<and> c \<le> 0x9F
      else cont c)"

definition second4 :: "nat \<Rightarrow> nat \<Rightarrow> bool" where
  "second4 b c \<longleftrightarrow>
     (if b = 0xF0 then 0x90 \<le> c \<and> c \<le> 0xBF
      else if b = 0xF4 then 0x80 \<le> c \<and> c \<le> 0x8F
      else cont c)"

text \<open>
  \<open>from_utf8_lossy\<close>: each maximal ill-formed prefix becomes one U+FFFD.
\<close>

fun lossy :: "nat list \<Rightarrow> rstring" where
  "lossy [] = []"
| "lossy (b # bs) =
     (if b < 0x80 then b # lossy bs
      else if 0xC2 \<le> b \<and> b \<le> 0xDF then
        (case bs of
           [] \<Rightarrow> [0xFFFD]
         | c # cs \<Rightarrow>
             if cont c then ((b - 0xC0) * 64 + (c - 0x80)) # lossy cs else 0xFFFD # lossy bs)
      else if 0xE0 \<le> b \<and> b \<le> 0xEF then
        (case bs of
           [] \<Rightarrow> [0xFFFD]
         | c # cs \<Rightarrow>
             if second3 b c then
               (case cs of
                  [] \<Rightarrow> [0xFFFD]
                | d # ds \<Rightarrow>
                    if cont d then ((b - 0xE0) * 4096 + (c - 0x80) * 64 + (d - 0x80)) # lossy ds
                    else 0xFFFD # lossy cs)
             else 0xFFFD # lossy bs)
      else if 0xF0 \<le> b \<and> b \<le> 0xF4 then
        (case bs of
           [] \<Rightarrow> [0xFFFD]
         | c # cs \<Rightarrow>
             if second4 b c then
               (case cs of
                  [] \<Rightarrow> [0xFFFD]
                | d # ds \<Rightarrow>
                    if cont d then
                      (case ds of
                         [] \<Rightarrow> [0xFFFD]
                       | e # es \<Rightarrow>
                           if cont e then
                             ((b - 0xF0) * 262144 + (c - 0x80) * 4096 + (d - 0x80) * 64 + (e - 0x80))
                               # lossy es
                           else 0xFFFD # lossy ds)
                    else 0xFFFD # lossy cs)
             else 0xFFFD # lossy bs)
      else 0xFFFD # lossy bs)"

definition from_utf8_lossy :: "bytes \<Rightarrow> rstring" where
  "from_utf8_lossy b = lossy (map unat b)"

lemma lossy_ascii: "b < 0x80 \<Longrightarrow> lossy (b # r) = b # lossy r"
  by simp

lemma lossy_two:
  "0xC2 \<le> b \<Longrightarrow> b \<le> 0xDF \<Longrightarrow> cont c \<Longrightarrow> lossy (b # c # r) = ((b - 0xC0) * 64 + (c - 0x80)) # lossy r"
  by simp

lemma lossy_three:
  "0xE0 \<le> b \<Longrightarrow> b \<le> 0xEF \<Longrightarrow> second3 b c \<Longrightarrow> cont d \<Longrightarrow>
   lossy (b # c # d # r) = ((b - 0xE0) * 4096 + (c - 0x80) * 64 + (d - 0x80)) # lossy r"
  by simp

lemma lossy_four:
  "0xF0 \<le> b \<Longrightarrow> b \<le> 0xF4 \<Longrightarrow> second4 b c \<Longrightarrow> cont d \<Longrightarrow> cont e \<Longrightarrow>
   lossy (b # c # d # e # r) =
     ((b - 0xF0) * 262144 + (c - 0x80) * 4096 + (d - 0x80) * 64 + (e - 0x80)) # lossy r"
  by simp

declare lossy.simps(2) [simp del]

lemma cont_mod [simp]: "cont (0x80 + x mod 64)"
  using mod_less_divisor [of 64 x] by (simp add: cont_def)

lemma base64_2: "c div 4096 * 4096 + c div 64 mod 64 * 64 + c mod 64 = (c :: nat)"
proof -
  have "c div 4096 = c div 64 div 64" by (simp add: div_mult2_eq [symmetric])
  moreover have "c div 64 div 64 * 64 + c div 64 mod 64 = c div 64" "c div 64 * 64 + c mod 64 = c"
    by (rule div_mult_mod_eq)+
  ultimately show ?thesis by linarith
qed

lemma base64_3:
  "c div 262144 * 262144 + c div 4096 mod 64 * 4096 + c div 64 mod 64 * 64 + c mod 64 = (c :: nat)"
proof -
  have "c div 262144 = c div 4096 div 64" by (simp add: div_mult2_eq [symmetric])
  moreover have "c div 4096 div 64 * 64 + c div 4096 mod 64 = c div 4096" by (rule div_mult_mod_eq)
  ultimately show ?thesis using base64_2 [of c] by linarith
qed

lemma second3_split:
  "b < 64 \<Longrightarrow> 32 \<le> 64 * a + b \<Longrightarrow> 64 * a + b < 0x360 \<or> 0x380 \<le> 64 * a + b \<Longrightarrow>
   second3 (0xE0 + a) (0x80 + b)"
  by (auto simp: second3_def cont_def)

lemma second4_split:
  "b < 64 \<Longrightarrow> 16 \<le> 64 * a + b \<Longrightarrow> 64 * a + b < 272 \<Longrightarrow> second4 (0xF0 + a) (0x80 + b)"
  by (auto simp: second4_def cont_def)

lemma lossy_utf8_char: "scalar c \<Longrightarrow> lossy (utf8_char c @ r) = c # lossy r"
proof -
  assume s: "scalar c"
  consider (1) "c < 0x80" | (2) "0x80 \<le> c" "c < 0x800" | (3) "0x800 \<le> c" "c < 0x10000"
    | (4) "0x10000 \<le> c"
    by linarith
  then show ?thesis
  proof cases
    case 1
    then show ?thesis by (simp add: utf8_char_def lossy_ascii)
  next
    case 2
    have "c div 64 * 64 + c mod 64 = c" by simp
    moreover have "2 \<le> c div 64" "c div 64 \<le> 31" using 2 by simp_all
    ultimately show ?thesis using 2 by (simp add: utf8_char_def lossy_two)
  next
    case 3
    note sum = base64_2 [of c]
    define q where "q = c div 64"
    have "32 \<le> q" "q < 1024" "q < 0x360 \<or> 0x380 \<le> q" using 3 s by (auto simp: q_def scalar_def)
    then have "second3 (0xE0 + q div 64) (0x80 + q mod 64)" by (intro second3_split) simp_all
    then have "second3 (0xE0 + c div 4096) (0x80 + c div 64 mod 64)"
      by (simp add: q_def div_mult2_eq [symmetric])
    moreover have "c div 4096 \<le> 15" using 3 by simp
    ultimately show ?thesis using 3 sum by (simp add: utf8_char_def lossy_three)
  next
    case 4
    note sum = base64_3 [of c]
    define q where "q = c div 4096"
    have "16 \<le> q" "q < 272" using 4 s by (simp_all add: q_def scalar_def)
    then have "second4 (0xF0 + q div 64) (0x80 + q mod 64)" by (intro second4_split) simp_all
    then have "second4 (0xF0 + c div 262144) (0x80 + c div 4096 mod 64)"
      by (simp add: q_def div_mult2_eq [symmetric])
    moreover have "c div 262144 \<le> 4" using 4 s by (simp add: scalar_def)
    ultimately show ?thesis using 4 sum by (simp add: utf8_char_def lossy_four)
  qed
qed

lemma utf8_char_byte: "scalar c \<Longrightarrow> b \<in> set (utf8_char c) \<Longrightarrow> b < 256"
proof -
  assume "scalar c"
  then have "c < 0x110000" by (auto simp: scalar_def)
  then have "c div 262144 \<le> 4" by simp
  moreover have "c div 64 mod 64 < 64" "c div 4096 mod 64 < 64" "c mod 64 < 64" by simp_all
  moreover have "c < 0x800 \<Longrightarrow> c div 64 < 32" "c < 0x10000 \<Longrightarrow> c div 4096 < 16" by simp_all
  moreover assume "b \<in> set (utf8_char c)"
  ultimately show ?thesis by (auto simp: utf8_char_def split: if_splits)
qed

theorem from_utf8_lossy_into_bytes:
  assumes "list_all scalar s"
  shows "from_utf8_lossy (into_bytes s) = s"
proof -
  have "map (unat \<circ> (of_nat :: nat \<Rightarrow> u8)) (concat (map utf8_char s)) = concat (map utf8_char s)"
    using assms utf8_char_byte by (intro map_idI) (auto simp: list_all_iff)
  moreover have "lossy (concat (map utf8_char s)) = s"
    using assms by (induction s) (simp_all add: lossy_utf8_char)
  ultimately show ?thesis by (simp add: from_utf8_lossy_def into_bytes_def)
qed

section \<open>UTF-16\<close>

definition utf16_units :: "nat \<Rightarrow> u16 list" where
  "utf16_units c =
     (if c < 0x10000 then [of_nat c]
      else [of_nat (0xD800 + (c - 0x10000) div 1024), of_nat (0xDC00 + (c - 0x10000) mod 1024)])"

text \<open>\<open>unicode\<close> of \<open>src/nla/crypto.rs\<close>: the UTF-16LE bytes of a string.\<close>

definition unicode :: "rstring \<Rightarrow> bytes" where
  "unicode s = concat (map put_u16_le (concat (map utf16_units s)))"

lemma unicode_append: "unicode (s @ t) = unicode s @ unicode t"
  by (simp add: unicode_def)

lemma unicode_length: "length (unicode s) = 2 * length (concat (map utf16_units s))"
  by (simp add: unicode_def c16le.put_list_length)

lemma unicode_even [simp]: "even (length (unicode s))"
  by (simp add: unicode_length)

lemma unicode_Nil [simp]: "unicode [] = []"
  by (simp add: unicode_def)

end
