(* ===== verification/Gcc.thy ===== *)
theory Gcc
  imports Per Rust_String
begin

text \<open>
  GCC user-data blocks (\<open>src/gcc.rs\<close>): the client's data blocks, the PER wrapper of the
  ConferenceCreate PDUs, and the walk over the server's data blocks.
\<close>

definition CS_CORE :: u16 where "CS_CORE = 0xC001"
definition CS_SECURITY :: u16 where "CS_SECURITY = 0xC002"
definition CS_NET :: u16 where "CS_NET = 0xC003"
definition CS_CLUSTER :: u16 where "CS_CLUSTER = 0xC004"
definition SC_CORE :: u16 where "SC_CORE = 0x0C01"
definition SC_SECURITY :: u16 where "SC_SECURITY = 0x0C02"
definition SC_NET :: u16 where "SC_NET = 0x0C03"
definition CS_MULTITRANSPORT :: u16 where "CS_MULTITRANSPORT = 0xC00A"
definition CS_MCS_MSGCHANNEL :: u16 where "CS_MCS_MSGCHANNEL = 0xC006"
definition SC_MCS_MSGCHANNEL :: u16 where "SC_MCS_MSGCHANNEL = 0x0C04"

lemmas gcc_types =
  CS_CORE_def CS_SECURITY_def CS_NET_def CS_CLUSTER_def SC_CORE_def SC_SECURITY_def SC_NET_def
  CS_MULTITRANSPORT_def CS_MCS_MSGCHANNEL_def SC_MCS_MSGCHANNEL_def

section \<open>The client's blocks\<close>

definition ud_block :: "u16 \<Rightarrow> bytes \<Rightarrow> bytes" where
  "ud_block block_type body =
     put_u16_le block_type @ put_u16_le (of_nat (length body + 4)) @ body"

text \<open>\<open>Vec::resize(n, 0)\<close>: truncate or pad with zeros.\<close>

definition resize :: "nat \<Rightarrow> bytes \<Rightarrow> bytes" where
  "resize n v = take n v @ replicate (n - length v) 0"

definition utf16_fixed :: "rstring \<Rightarrow> nat \<Rightarrow> bytes" where
  "utf16_fixed s n = resize n (unicode s)"

record client_core_data =
  cd_desktop_width :: u16
  cd_desktop_height :: u16
  cd_client_name :: rstring
  cd_keyboard_layout :: u32
  cd_client_build :: u32
  cd_server_selected_protocol :: u32
  cd_early_capability_flags :: u16

definition client_core_data_default :: client_core_data where
  "client_core_data_default =
     \<lparr>cd_desktop_width = 1024, cd_desktop_height = 768, cd_client_name = rstr ''FERROPIPE'',
      cd_keyboard_layout = 0x409, cd_client_build = 2600, cd_server_selected_protocol = 0,
      cd_early_capability_flags = 0x0001 OR 0x0002 OR 0x0004 OR 0x0100\<rparr>"

definition VERSION_RDP5 :: u32 where "VERSION_RDP5 = 0x00080004"
definition COLOR_16BPP_565 :: u16 where "COLOR_16BPP_565 = 0xCA03"
definition COLOR_8BPP :: u16 where "COLOR_8BPP = 0xCA01"
definition SAS_DEL :: u16 where "SAS_DEL = 0xAA03"
definition HIGH_COLOR_24BPP :: u16 where "HIGH_COLOR_24BPP = 0x0018"
definition SUPPORT_ALL_COLOR_DEPTHS :: u16 where "SUPPORT_ALL_COLOR_DEPTHS = 0x000F"

definition client_core_data_encode :: "client_core_data \<Rightarrow> bytes" where
  "client_core_data_encode d =
     ud_block CS_CORE
       (put_u32_le VERSION_RDP5
        @ put_u16_le (cd_desktop_width d)
        @ put_u16_le (cd_desktop_height d)
        @ put_u16_le COLOR_8BPP
        @ put_u16_le SAS_DEL
        @ put_u32_le (cd_keyboard_layout d)
        @ put_u32_le (cd_client_build d)
        @ utf16_fixed (cd_client_name d) 32
        @ put_u32_le 4
        @ put_u32_le 0
        @ put_u32_le 12
        @ replicate 64 0
        @ put_u16_le COLOR_8BPP
        @ put_u16_le 1
        @ put_u32_le 0
        @ put_u16_le HIGH_COLOR_24BPP
        @ put_u16_le SUPPORT_ALL_COLOR_DEPTHS
        @ put_u16_le (cd_early_capability_flags d)
        @ replicate 64 0
        @ put_u8 0
        @ put_u8 0
        @ put_u32_le (cd_server_selected_protocol d))"

definition client_security_data :: bytes where
  "client_security_data = ud_block CS_SECURITY (put_u32_le 0 @ put_u32_le 0)"

record channel_def =
  ch_name :: rstring
  ch_options :: u32

definition client_network_data :: "channel_def list \<Rightarrow> bytes" where
  "client_network_data channels =
     ud_block CS_NET
       (put_u32_le (of_nat (length channels))
        @ concat (map (\<lambda>ch. take 8 (resize 8 (into_bytes (ch_name ch))) @ put_u32_le (ch_options ch))
            channels))"

definition client_multitransport_data :: "u32 \<Rightarrow> bytes" where
  "client_multitransport_data flags = ud_block CS_MULTITRANSPORT (put_u32_le flags)"

definition client_cluster_data :: bytes where
  "client_cluster_data = ud_block CS_CLUSTER (put_u32_le 0x0000000D @ put_u32_le 0)"

definition client_msgchannel_data :: bytes where
  "client_msgchannel_data = ud_block CS_MCS_MSGCHANNEL (put_u32_le 0)"

section \<open>The ConferenceCreate wrappers\<close>

definition GCC_CONNECT_DATA_PREFIX :: bytes where
  "GCC_CONNECT_DATA_PREFIX = [0x00, 0x05, 0x00, 0x14, 0x7c, 0x00, 0x01]"

definition H221_CLIENT_KEY :: bytes where
  "H221_CLIENT_KEY = [0x44, 0x75, 0x63, 0x61]"

definition H221_SERVER_KEY :: bytes where
  "H221_SERVER_KEY = [0x4D, 0x63, 0x44, 0x6E]"

definition conference_create_request :: "bytes \<Rightarrow> bytes" where
  "conference_create_request data_blocks =
     (let gcc = [0x00, 0x08, 0x00, 0x10, 0x00, 0x01, 0xc0, 0x00] @ H221_CLIENT_KEY
                @ per_write_length (length data_blocks) @ data_blocks
      in GCC_CONNECT_DATA_PREFIX @ per_write_length (length gcc) @ gcc)"

text \<open>\<open>gcc.windows(4).position(|w| w == key)\<close>.\<close>

fun find_window :: "bytes \<Rightarrow> bytes \<Rightarrow> nat option" where
  "find_window key [] = None"
| "find_window key (b # bs) =
     (if length (b # bs) < length key then None
      else if take (length key) (b # bs) = key then Some 0
      else map_option Suc (find_window key bs))"

definition parse_conference_create_response :: "bytes \<Rightarrow> bytes result" where
  "parse_conference_create_response gcc =
     (case find_window H221_SERVER_KEY gcc of
        None \<Rightarrow> Err (Protocol ''GCC response missing McDn key'')
      | Some pos \<Rightarrow>
          and_then (slice_from gcc (pos + 4)) (\<lambda>rest.
            and_then (per_read_length rest) (\<lambda>(len, rest).
              if length rest < len then Err (Short len (length rest))
              else slice_to rest len)))"

section \<open>The server's blocks\<close>

record server_network_data =
  sn_io_channel_id :: u16
  sn_channel_ids :: "u16 list"
  sn_message_channel_id :: "u16 option"

definition server_network_data_default :: server_network_data where
  "server_network_data_default =
     \<lparr>sn_io_channel_id = 0, sn_channel_ids = [], sn_message_channel_id = None\<rparr>"

fun read_channel_ids :: "nat \<Rightarrow> bytes \<Rightarrow> u16 list result" where
  "read_channel_ids 0 b = Ok []"
| "read_channel_ids (Suc n) b =
     (if length b < 2 then Err (Short 2 (length b))
      else and_then (get_u16_le b) (\<lambda>(v, b).
        and_then (read_channel_ids n b) (\<lambda>vs. Ok (v # vs))))"

text \<open>The \<open>match block_type\<close> of the loop, on \<open>out\<close> and \<open>found_net\<close>.\<close>

definition sc_block ::
    "u16 \<Rightarrow> bytes \<Rightarrow> server_network_data \<times> bool \<Rightarrow> (server_network_data \<times> bool) result" where
  "sc_block block_type body st =
     (case st of (out, found_net) \<Rightarrow>
        if block_type = SC_NET then
          (if length body < 4 then Err (Short 4 (length body))
           else and_then (get_u16_le body) (\<lambda>(io, b).
             and_then (get_u16_le b) (\<lambda>(count, b).
               and_then (read_channel_ids (unat count) b) (\<lambda>ids.
                 Ok (out\<lparr>sn_io_channel_id := io, sn_channel_ids := sn_channel_ids out @ ids\<rparr>,
                     True)))))
        else if block_type = SC_MCS_MSGCHANNEL \<and> 2 \<le> length body then
          and_then (index body 0) (\<lambda>a. and_then (index body 1) (\<lambda>b.
            Ok (out\<lparr>sn_message_channel_id := Some (u16_from_le_bytes a b)\<rparr>, found_net)))
        else Ok (out, found_net))"

function sc_blocks ::
    "bytes \<Rightarrow> server_network_data \<times> bool \<Rightarrow> (server_network_data \<times> bool) result" where
  "sc_blocks buf st =
     (if length buf < 4 then Ok st
      else and_then (get_u16_le buf) (\<lambda>(block_type, rest).
        and_then (get_u16_le rest) (\<lambda>(len, _).
          if unat len < 4 \<or> length buf < unat len then Err (Protocol ''bad SC data block length'')
          else and_then (slice buf 4 (unat len)) (\<lambda>body.
            and_then (sc_block block_type body st) (\<lambda>st.
              sc_blocks (drop (unat len) buf) st)))))"
  by pat_completeness auto
termination
  by (relation "measure (\<lambda>(buf, st). length buf)") auto

declare sc_blocks.simps [simp del]

definition parse_server_network_data :: "bytes \<Rightarrow> server_network_data result" where
  "parse_server_network_data server_user_data =
     and_then (sc_blocks server_user_data (server_network_data_default, False)) (\<lambda>(out, found_net).
       if found_net then Ok out else Err (Protocol ''SC_NET block not found''))"

section \<open>The walk over well-formed blocks\<close>

lemma ud_block_length [simp]: "length (ud_block ty body) = length body + 4"
  by (simp add: ud_block_def)

lemma sc_blocks_Nil [simp]: "sc_blocks [] st = Ok st"
  by (simp add: sc_blocks.simps)

lemma sc_blocks_step:
  assumes "length body + 4 < 65536"
  shows "sc_blocks (ud_block ty body @ rest) st = and_then (sc_block ty body st) (sc_blocks rest)"
proof -
  have n: "unat (of_nat (length body + 4) :: u16) = length body + 4"
    using assms by (rule unat_of_nat_u16)
  show ?thesis
    by (subst sc_blocks.simps) (simp add: ud_block_def n eta_contract_eq del: of_nat_add)
qed

lemma read_channel_ids_put [simp]:
  "read_channel_ids (length ids) (concat (map put_u16_le ids) @ rest) = Ok ids"
  by (induction ids) simp_all

lemma read_channel_ids_no_panic [no_panic]: "read_channel_ids n b \<noteq> Panic"
  by (induction n arbitrary: b) auto

lemma sc_block_no_panic [no_panic]: "sc_block ty body st \<noteq> Panic"
  by (auto simp: sc_block_def no_panic get_eq_Ok split: prod.splits)

lemma sc_blocks_no_panic: "sc_blocks buf st \<noteq> Panic"
proof (induction buf st rule: sc_blocks.induct)
  case (1 buf st)
  show ?case
  proof (cases "length buf < 4")
    case True
    then show ?thesis by (simp add: sc_blocks.simps)
  next
    case False
    then obtain ty rest where g1: "get_u16_le buf = Ok (ty, rest)" "length buf = 2 + length rest"
      using c16le.get_long [of buf] by fastforce
    with False obtain len rest' where g2: "get_u16_le rest = Ok (len, rest')"
      using c16le.get_long [of rest] by fastforce
    show ?thesis
    proof (cases "unat len < 4 \<or> length buf < unat len")
      case True
      then show ?thesis using False g1 g2 by (subst sc_blocks.simps) simp
    next
      case ok: False
      have "sc_blocks (drop (unat len) buf) st' \<noteq> Panic"
        if "sc_block ty (take (unat len - 4) (drop 4 buf)) st = Ok st'" for st'
        by (rule 1) (use False g1 g2 ok that in \<open>auto\<close>)
      then show ?thesis using False g1 g2 ok by (subst sc_blocks.simps) (simp add: no_panic)
    qed
  qed
qed

lemma parse_server_network_data_no_panic [no_panic]: "parse_server_network_data b \<noteq> Panic"
  using sc_blocks_no_panic [of b] by (auto simp: parse_server_network_data_def)

text \<open>Blocks of other types leave the state alone.\<close>

definition other_block :: "u16 \<times> bytes \<Rightarrow> bool" where
  "other_block blk \<longleftrightarrow>
     fst blk \<noteq> SC_NET \<and> fst blk \<noteq> SC_MCS_MSGCHANNEL \<and> length (snd blk) + 4 < 65536"

definition ud_blocks :: "(u16 \<times> bytes) list \<Rightarrow> bytes" where
  "ud_blocks blks = concat (map (\<lambda>(ty, body). ud_block ty body) blks)"

lemma sc_blocks_others:
  "list_all other_block blks \<Longrightarrow> sc_blocks (ud_blocks blks @ rest) st = sc_blocks rest st"
proof (induction blks)
  case (Cons blk blks)
  then show ?case
    by (cases blk, cases st) (simp add: ud_blocks_def other_block_def sc_blocks_step sc_block_def)
qed (simp add: ud_blocks_def)

definition sc_net_body :: "u16 \<Rightarrow> u16 list \<Rightarrow> bytes" where
  "sc_net_body io ids = put_u16_le io @ put_u16_le (of_nat (length ids)) @ concat (map put_u16_le ids)"

lemma sc_net_body_length [simp]: "length (sc_net_body io ids) = 4 + 2 * length ids"
  by (simp add: sc_net_body_def c16le.put_list_length)

lemma sc_block_net:
  assumes "length ids < 65536"
  shows "sc_block SC_NET (sc_net_body io ids) (out, found) =
    Ok (out\<lparr>sn_io_channel_id := io, sn_channel_ids := sn_channel_ids out @ ids\<rparr>, True)"
  using assms read_channel_ids_put [of ids "[]"]
  by (simp add: sc_block_def sc_net_body_def)

lemma sc_block_msgchannel:
  "sc_block SC_MCS_MSGCHANNEL (put_u16_le ch @ rest) (out, found) =
    Ok (out\<lparr>sn_message_channel_id := Some ch\<rparr>, found)"
  by (simp add: sc_block_def gcc_types put_u16_le_def)

section \<open>Locating the server's key\<close>

lemma find_window_bound: "find_window key bs = Some i \<Longrightarrow> i + length key \<le> length bs"
  by (induction bs arbitrary: i) (auto split: if_splits)

lemma find_window_prefix:
  assumes "\<And>i. i < length pre \<Longrightarrow> take (length key) (drop i (pre @ key @ rest)) \<noteq> key" and "key \<noteq> []"
  shows "find_window key (pre @ key @ rest) = Some (length pre)"
  using assms(1)
proof (induction pre)
  case Nil
  then show ?case using assms(2) by (cases key) auto
next
  case (Cons a pre)
  have "take (length key) (drop i (pre @ key @ rest)) \<noteq> key" if "i < length pre" for i
    using Cons.prems [of "Suc i"] that by simp
  from Cons.IH [OF this] show ?case using Cons.prems [of 0] by auto
qed

lemma parse_conference_create_response_no_panic [no_panic]:
  "parse_conference_create_response gcc \<noteq> Panic"
  by (auto simp: parse_conference_create_response_def no_panic H221_SERVER_KEY_def not_less
      split: option.splits dest!: find_window_bound)

end
