(* ===== verification/Pdu.thy ===== *)
theory Pdu
  imports Prelude
begin

text \<open>
  Share PDU headers and the finalization bodies (\<open>src/pdu.rs\<close>), little-endian.
\<close>

definition PDUTYPE_DEMANDACTIVE :: u16 where "PDUTYPE_DEMANDACTIVE = 1"
definition PDUTYPE_CONFIRMACTIVE :: u16 where "PDUTYPE_CONFIRMACTIVE = 3"
definition PDUTYPE_DEACTIVATEALL :: u16 where "PDUTYPE_DEACTIVATEALL = 6"
definition PDUTYPE_DATA :: u16 where "PDUTYPE_DATA = 7"
definition PROTOCOL_VERSION :: u16 where "PROTOCOL_VERSION = 0x10"

definition PDUTYPE2_UPDATE :: u8 where "PDUTYPE2_UPDATE = 2"
definition PDUTYPE2_SET_ERROR_INFO :: u8 where "PDUTYPE2_SET_ERROR_INFO = 47"
definition PDUTYPE2_CONTROL :: u8 where "PDUTYPE2_CONTROL = 20"
definition PDUTYPE2_SYNCHRONIZE :: u8 where "PDUTYPE2_SYNCHRONIZE = 31"
definition PDUTYPE2_FONTLIST :: u8 where "PDUTYPE2_FONTLIST = 39"
definition PDUTYPE2_FONTMAP :: u8 where "PDUTYPE2_FONTMAP = 40"
definition STREAM_LOW :: u8 where "STREAM_LOW = 1"

definition CTRLACTION_GRANTED_CONTROL :: u16 where "CTRLACTION_GRANTED_CONTROL = 2"
definition CTRLACTION_DETACH :: u16 where "CTRLACTION_DETACH = 3"
definition CTRLACTION_REQUEST_CONTROL :: u16 where "CTRLACTION_REQUEST_CONTROL = 1"
definition CTRLACTION_COOPERATE :: u16 where "CTRLACTION_COOPERATE = 4"

lemmas pdu_consts =
  PDUTYPE_DEMANDACTIVE_def PDUTYPE_CONFIRMACTIVE_def PDUTYPE_DEACTIVATEALL_def PDUTYPE_DATA_def
  PROTOCOL_VERSION_def PDUTYPE2_CONTROL_def PDUTYPE2_SYNCHRONIZE_def PDUTYPE2_FONTLIST_def
  PDUTYPE2_FONTMAP_def STREAM_LOW_def CTRLACTION_REQUEST_CONTROL_def CTRLACTION_COOPERATE_def

record share_control_header =
  sch_pdu_type :: u16
  sch_pdu_source :: u16

definition share_control :: "u16 \<Rightarrow> u16 \<Rightarrow> bytes \<Rightarrow> bytes" where
  "share_control pdu_type pdu_source body =
     (let total = length body + 6
      in put_u16_le (of_nat total) @ put_u16_le (pdu_type OR PROTOCOL_VERSION)
           @ put_u16_le pdu_source @ body)"

definition parse_share_control :: "bytes \<Rightarrow> (share_control_header \<times> bytes) result" where
  "parse_share_control buf =
     (if length buf < 6 then Err (Short 6 (length buf))
      else and_then (get_u16_le buf) (\<lambda>(total, b).
        and_then (get_u16_le b) (\<lambda>(type_field, b).
          and_then (get_u16_le b) (\<lambda>(pdu_source, _).
            if unat total < 6 \<or> length buf < unat total
            then Err (Protocol ''bad share control totalLength'')
            else and_then (slice buf 6 (unat total)) (\<lambda>body.
              Ok (\<lparr>sch_pdu_type = type_field AND 0x0f, sch_pdu_source = pdu_source\<rparr>, body))))))"

definition share_data :: "u16 \<Rightarrow> u32 \<Rightarrow> u8 \<Rightarrow> bytes \<Rightarrow> bytes" where
  "share_data pdu_source share_id pdu_type2 body =
     share_control PDUTYPE_DATA pdu_source
       (put_u32_le share_id @ put_u8 0 @ put_u8 STREAM_LOW
        @ put_u16_le (of_nat (length body + 4)) @ put_u8 pdu_type2 @ put_u8 0 @ put_u16_le 0 @ body)"

definition parse_share_data :: "bytes \<Rightarrow> (u8 \<times> bytes) result" where
  "parse_share_data b =
     (if length b < 12 then Err (Short 12 (length b))
      else and_then (index b 8) (\<lambda>pdu_type2.
        and_then (slice_from b 12) (\<lambda>body. Ok (pdu_type2, body))))"

definition synchronize :: "u16 \<Rightarrow> bytes" where
  "synchronize target_user = put_u16_le 1 @ put_u16_le target_user"

definition control :: "u16 \<Rightarrow> u16 \<Rightarrow> u32 \<Rightarrow> bytes" where
  "control action grant_id control_id =
     put_u16_le action @ put_u16_le grant_id @ put_u32_le control_id"

definition font_list :: bytes where
  "font_list = put_u16_le 0 @ put_u16_le 0 @ put_u16_le 0x0003 @ put_u16_le 0x0032"

section \<open>Facts about the pieces\<close>

lemma pdu_type_nibble:
  assumes "unat (ty :: u16) < 16"
  shows "(ty OR PROTOCOL_VERSION) AND 0x0f = ty"
proof -
  have "list_all (\<lambda>n. ((of_nat n :: u16) OR 0x10) AND 0x0f = of_nat n) [0..<16]" by code_simp
  moreover have "unat ty \<in> set [0..<16]" using assms by simp
  ultimately have "((of_nat (unat ty) :: u16) OR 0x10) AND 0x0f = of_nat (unat ty)"
    unfolding list_all_iff by blast
  then show ?thesis by (simp add: pdu_consts)
qed

lemma parse_share_control_roundtrip:
  assumes "length body + 6 < 65536" and "unat ty < 16"
  shows "parse_share_control (share_control ty src body @ rest)
    = Ok (\<lparr>sch_pdu_type = ty, sch_pdu_source = src\<rparr>, body)"
proof -
  have n: "unat (of_nat (length body + 6) :: u16) = length body + 6"
    using assms(1) by (rule unat_of_nat_u16)
  show ?thesis
    using assms(2) by (simp add: parse_share_control_def share_control_def n pdu_type_nibble
        del: of_nat_add)
qed

lemma parse_share_data_body:
  "parse_share_data (put_u32_le sid @ put_u8 0 @ put_u8 s @ put_u16_le n @ put_u8 ty @ put_u8 c
     @ put_u16_le m @ body) = Ok (ty, body)"
  by (simp add: parse_share_data_def put_u32_le_def put_u8_def put_u16_le_def)

lemma parse_share_control_no_panic [no_panic]: "parse_share_control buf \<noteq> Panic"
  by (auto simp: parse_share_control_def get_eq_Ok)

lemma parse_share_data_no_panic [no_panic]: "parse_share_data b \<noteq> Panic"
  by (auto simp: parse_share_data_def)

end
