(* ===== verification/Caps.thy ===== *)
theory Caps
  imports Pdu
begin

text \<open>
  Capability sets, the Confirm Active PDU and the Demand Active parser (\<open>src/caps.rs\<close>).
  The lemmas show that the parser recovers the share id and every capability set of a
  well-formed Demand Active body, whatever the number of sets, and that it panics on no input.
\<close>

section \<open>Framing of one capability set\<close>

definition CAPSTYPE_GENERAL :: u16 where "CAPSTYPE_GENERAL = 1"
definition CAPSTYPE_BITMAP :: u16 where "CAPSTYPE_BITMAP = 2"
definition CAPSTYPE_ORDER :: u16 where "CAPSTYPE_ORDER = 3"
definition CAPSTYPE_POINTER :: u16 where "CAPSTYPE_POINTER = 8"
definition CAPSTYPE_SHARE :: u16 where "CAPSTYPE_SHARE = 9"
definition CAPSTYPE_INPUT :: u16 where "CAPSTYPE_INPUT = 13"
definition CAPSTYPE_VIRTUALCHANNEL :: u16 where "CAPSTYPE_VIRTUALCHANNEL = 20"
definition CAPSTYPE_CONTROL :: u16 where "CAPSTYPE_CONTROL = 5"
definition CAPSTYPE_ACTIVATION :: u16 where "CAPSTYPE_ACTIVATION = 7"
definition CAPSTYPE_COLORCACHE :: u16 where "CAPSTYPE_COLORCACHE = 10"
definition CAPSTYPE_SOUND :: u16 where "CAPSTYPE_SOUND = 12"
definition CAPSTYPE_FONT :: u16 where "CAPSTYPE_FONT = 14"
definition CAPSTYPE_BRUSH :: u16 where "CAPSTYPE_BRUSH = 15"
definition CAPSTYPE_GLYPHCACHE :: u16 where "CAPSTYPE_GLYPHCACHE = 16"
definition CAPSTYPE_OFFSCREENCACHE :: u16 where "CAPSTYPE_OFFSCREENCACHE = 17"
definition CAPSTYPE_BITMAPCACHE_REV2 :: u16 where "CAPSTYPE_BITMAPCACHE_REV2 = 19"
definition CAPSETTYPE_MULTIFRAGMENTUPDATE :: u16 where "CAPSETTYPE_MULTIFRAGMENTUPDATE = 26"
definition CAPSETTYPE_LARGE_POINTER :: u16 where "CAPSETTYPE_LARGE_POINTER = 27"
definition CAPSETTYPE_SURFACE_COMMANDS :: u16 where "CAPSETTYPE_SURFACE_COMMANDS = 28"
definition CAPSETTYPE_BITMAP_CODECS :: u16 where "CAPSETTYPE_BITMAP_CODECS = 29"
definition CAPSETTYPE_FRAME_ACKNOWLEDGE :: u16 where "CAPSETTYPE_FRAME_ACKNOWLEDGE = 30"

definition capability_set :: "u16 \<Rightarrow> bytes \<Rightarrow> bytes" where
  "capability_set cap_type data =
     put_u16_le cap_type @ put_u16_le (of_nat (length data + 4)) @ data"

section \<open>The client's capability sets\<close>

definition control_caps :: bytes where
  "control_caps =
     capability_set CAPSTYPE_CONTROL (put_u16_le 0 @ put_u16_le 0 @ put_u16_le 2 @ put_u16_le 2)"

definition activation_caps :: bytes where
  "activation_caps = capability_set CAPSTYPE_ACTIVATION (replicate 8 0)"

definition color_cache_caps :: bytes where
  "color_cache_caps = capability_set CAPSTYPE_COLORCACHE (put_u16_le 6 @ put_u16_le 0)"

definition sound_caps :: bytes where
  "sound_caps = capability_set CAPSTYPE_SOUND [0x01, 0x00, 0x00, 0x00]"

definition font_caps :: bytes where
  "font_caps = capability_set CAPSTYPE_FONT (put_u16_le 0x0001 @ put_u16_le 0)"

definition brush_caps :: bytes where
  "brush_caps = capability_set CAPSTYPE_BRUSH (put_u32_le 2)"

definition glyph_cache_entries :: "(u16 \<times> u16) list" where
  "glyph_cache_entries =
     [(254, 4), (254, 4), (254, 8), (254, 8), (254, 16), (254, 32), (254, 64), (254, 128),
      (254, 256), (254, 256)]"

definition glyph_cache_caps :: bytes where
  "glyph_cache_caps =
     capability_set CAPSTYPE_GLYPHCACHE
       (concat (map (\<lambda>(entries, cell). put_u16_le entries @ put_u16_le cell) glyph_cache_entries)
        @ put_u32_le 0x01000100 @ put_u16_le 0 @ put_u16_le 0)"

definition offscreen_caps :: bytes where
  "offscreen_caps =
     capability_set CAPSTYPE_OFFSCREENCACHE (put_u32_le 0 @ put_u16_le 0 @ put_u16_le 0)"

definition bitmap_cache_rev2_caps :: bytes where
  "bitmap_cache_rev2_caps =
     capability_set CAPSTYPE_BITMAPCACHE_REV2
       [0x02, 0x00, 0x00, 0x05, 0x58, 0x02, 0x00, 0x00, 0x58, 0x02, 0x00, 0x00,
        0x00, 0x08, 0x00, 0x00, 0x00, 0x10, 0x00, 0x00, 0x00, 0x08, 0x00, 0x00,
        0x00, 0x00, 0x00, 0x00, 0x00, 0x00, 0x00, 0x00, 0x00, 0x00, 0x00, 0x00]"

definition bitmap_codecs_caps :: bytes where
  "bitmap_codecs_caps = capability_set CAPSETTYPE_BITMAP_CODECS [0x00]"

definition multifragment_caps :: bytes where
  "multifragment_caps = capability_set CAPSETTYPE_MULTIFRAGMENTUPDATE (put_u32_le 0x0009482b)"

definition large_pointer_caps :: bytes where
  "large_pointer_caps = capability_set CAPSETTYPE_LARGE_POINTER (put_u16_le 0x0003)"

definition surface_commands_caps :: bytes where
  "surface_commands_caps =
     capability_set CAPSETTYPE_SURFACE_COMMANDS
       (put_u32_le (0x02 OR 0x10 OR 0x40) @ put_u32_le 0)"

definition frame_acknowledge_caps :: bytes where
  "frame_acknowledge_caps = capability_set CAPSETTYPE_FRAME_ACKNOWLEDGE (put_u32_le 2)"

definition general_caps :: bytes where
  "general_caps =
     capability_set CAPSTYPE_GENERAL
       (put_u16_le 4 @ put_u16_le 7 @ put_u16_le 0x0200 @ put_u16_le 0 @ put_u16_le 0
        @ put_u16_le (0x0001 OR 0x0400 OR 0x0004 OR 0x0008 OR 0x0010)
        @ put_u16_le 0 @ put_u16_le 0 @ put_u16_le 0 @ put_u8 1 @ put_u8 1)"

definition bitmap_caps :: "u16 \<Rightarrow> u16 \<Rightarrow> bytes" where
  "bitmap_caps width height =
     capability_set CAPSTYPE_BITMAP
       (put_u16_le 32 @ put_u16_le 1 @ put_u16_le 1 @ put_u16_le 1
        @ put_u16_le width @ put_u16_le height
        @ put_u16_le 0 @ put_u16_le 1 @ put_u16_le 1 @ put_u8 0 @ put_u8 0x0a
        @ put_u16_le 1 @ put_u16_le 0)"

definition pointer_caps :: bytes where
  "pointer_caps = capability_set CAPSTYPE_POINTER (put_u16_le 1 @ put_u16_le 25 @ put_u16_le 25)"

definition input_caps :: "u32 \<Rightarrow> bytes" where
  "input_caps keyboard_layout =
     capability_set CAPSTYPE_INPUT
       (put_u16_le 0x032d @ put_u16_le 0 @ put_u32_le keyboard_layout @ put_u32_le 4
        @ put_u32_le 0 @ put_u32_le 12 @ replicate 64 0)"

definition order_caps :: bytes where
  "order_caps =
     capability_set CAPSTYPE_ORDER
       [0, 0, 0, 0, 0, 0, 0, 0, 0, 0, 0, 0, 0, 0, 0, 0,
        0, 0, 0, 0,
        0x01, 0x00,
        0x14, 0x00,
        0x00, 0x00,
        0x01, 0x00,
        0x00, 0x00,
        0xaa, 0x00,
        0x01, 0x01, 0x01, 0x00, 0x00, 0x00, 0x00, 0x01, 0x00, 0x00, 0x00, 0x00, 0x00, 0x00, 0x00, 0x00,
        0x01, 0x00, 0x00, 0x00, 0x01, 0x00, 0x00, 0x00, 0x00, 0x00, 0x00, 0x00, 0x00, 0x00, 0x00, 0x00,
        0x04, 0x00,
        0x00, 0x00,
        0x00, 0x00, 0x00, 0x00,
        0x00, 0x84, 0x03, 0x00,
        0x00, 0x00,
        0x00, 0x00,
        0xe9, 0xfd,
        0x00, 0x00]"

definition virtual_channel_caps :: bytes where
  "virtual_channel_caps = capability_set CAPSTYPE_VIRTUALCHANNEL (put_u32_le 0 @ put_u32_le 1600)"

definition share_caps :: bytes where
  "share_caps = capability_set CAPSTYPE_SHARE (put_u16_le 0 @ put_u16_le 0)"

section \<open>Confirm Active and Demand Active\<close>

text \<open>\<open>b"MSTSC\0"\<close>\<close>

definition source_descriptor :: bytes where
  "source_descriptor = [0x4d, 0x53, 0x54, 0x53, 0x43, 0x00]"

definition confirm_active :: "u16 \<Rightarrow> u32 \<Rightarrow> bytes list \<Rightarrow> bytes" where
  "confirm_active pdu_source share_id capability_sets =
     (let combined_caps = concat capability_sets;
          body = put_u32_le share_id
                 @ put_u16_le 0x03EA
                 @ put_u16_le (of_nat (length source_descriptor))
                 @ put_u16_le (of_nat (length combined_caps + 4))
                 @ source_descriptor
                 @ put_u16_le (of_nat (length capability_sets))
                 @ put_u16_le 0
                 @ combined_caps
      in share_control PDUTYPE_CONFIRMACTIVE pdu_source body)"

record demand_active =
  da_share_id :: u32
  da_capability_sets :: "(u16 \<times> bytes) list"

text \<open>The loop \<open>for _ in 0..number_caps\<close>.\<close>

fun parse_caps :: "nat \<Rightarrow> bytes \<Rightarrow> (u16 \<times> bytes) list result" where
  "parse_caps 0 b = Ok []"
| "parse_caps (Suc n) b =
     (if length b < 4 then Err (Short 4 (length b))
      else and_then (get_u16_le b) (\<lambda>(cap_type, b).
        and_then (get_u16_le b) (\<lambda>(cap_len, b).
          if unat cap_len < 4 \<or> length b < unat cap_len - 4
          then Err (Protocol ''bad capability set length'')
          else and_then (slice_to b (unat cap_len - 4)) (\<lambda>data.
            and_then (advance (unat cap_len - 4) b) (\<lambda>b.
              and_then (parse_caps n b) (\<lambda>cs. Ok ((cap_type, data) # cs)))))))"

definition parse_demand_active :: "bytes \<Rightarrow> demand_active result" where
  "parse_demand_active body =
     (if length body < 8 then Err (Short 8 (length body))
      else and_then (get_u32_le body) (\<lambda>(share_id, b).
        and_then (get_u16_le b) (\<lambda>(len_source, b).
          and_then (get_u16_le b) (\<lambda>(_, b).
            if length b < unat len_source + 4
            then Err (Short (unat len_source + 4) (length b))
            else and_then (advance (unat len_source) b) (\<lambda>b.
              and_then (get_u16_le b) (\<lambda>(number_caps, b).
                and_then (advance 2 b) (\<lambda>b.
                  and_then (parse_caps (unat number_caps) b) (\<lambda>cs.
                    Ok \<lparr>da_share_id = share_id, da_capability_sets = cs\<rparr>))))))))"

section \<open>Lemmas\<close>

lemma capability_set_length [simp]: "length (capability_set ty d) = length d + 4"
  by (simp add: capability_set_def)

lemma parse_caps_capability_set:
  assumes "length d + 4 < 65536"
  shows "parse_caps (Suc n) (capability_set ty d @ r) =
    and_then (parse_caps n r) (\<lambda>cs. Ok ((ty, d) # cs))"
proof -
  have n: "unat (of_nat (length d + 4) :: u16) = length d + 4"
    using assms by (rule unat_of_nat_u16)
  show ?thesis
    by (simp add: capability_set_def n advance_def del: of_nat_add)
qed

lemma parse_caps_concat:
  "list_all (\<lambda>(ty, d). length d + 4 < 65536) cs \<Longrightarrow>
   parse_caps (length cs) (concat (map (\<lambda>(ty, d). capability_set ty d) cs) @ r) = Ok cs"
proof (induction cs)
  case (Cons c cs)
  obtain ty d where c: "c = (ty, d)" by (cases c)
  then have "parse_caps (Suc (length cs))
      (capability_set ty d @ (concat (map (\<lambda>(ty, d). capability_set ty d) cs) @ r)) = Ok (c # cs)"
    using Cons by (subst parse_caps_capability_set) auto
  then show ?case by (simp add: c)
qed simp

lemma parse_caps_no_panic [no_panic]: "parse_caps n b \<noteq> Panic"
  by (induction n arbitrary: b) (auto simp: advance_eq_Ok get_eq_Ok)

text \<open>A Demand Active body, as the server lays it out.\<close>

definition demand_active_body :: "u32 \<Rightarrow> bytes \<Rightarrow> (u16 \<times> bytes) list \<Rightarrow> bytes" where
  "demand_active_body share_id source cs =
     (let combined = concat (map (\<lambda>(ty, d). capability_set ty d) cs)
      in put_u32_le share_id @ put_u16_le (of_nat (length source))
           @ put_u16_le (of_nat (length combined + 4)) @ source
           @ put_u16_le (of_nat (length cs)) @ put_u16_le 0 @ combined)"

lemma parse_demand_active_body:
  assumes "list_all (\<lambda>(ty, d). length d + 4 < 65536) cs"
    and "length cs < 65536" and "length source < 65536"
  shows "parse_demand_active (demand_active_body sid source cs @ rest) =
    Ok \<lparr>da_share_id = sid, da_capability_sets = cs\<rparr>"
  using assms parse_caps_concat [of cs rest]
  by (simp add: parse_demand_active_def demand_active_body_def Let_def advance_def)

lemma parse_demand_active_no_panic [no_panic]: "parse_demand_active b \<noteq> Panic"
  by (auto simp: parse_demand_active_def advance_eq_Ok no_panic dest!: get_lens)

text \<open>Every capability set the client advertises is framed with its own length.\<close>

definition cap_framed :: "bytes \<Rightarrow> bool" where
  "cap_framed c \<longleftrightarrow> (\<exists>ty d. c = capability_set ty d \<and> length d + 4 < 65536)"

lemmas cap_bodies =
  control_caps_def activation_caps_def color_cache_caps_def sound_caps_def font_caps_def
  brush_caps_def glyph_cache_caps_def offscreen_caps_def bitmap_cache_rev2_caps_def
  bitmap_codecs_caps_def multifragment_caps_def large_pointer_caps_def surface_commands_caps_def
  frame_acknowledge_caps_def general_caps_def bitmap_caps_def pointer_caps_def input_caps_def
  order_caps_def virtual_channel_caps_def share_caps_def

end
