(* ===== verification/Info.thy ===== *)
theory Info
  imports Rust_String
begin

text \<open>
  The Client Info PDU (\<open>src/info.rs\<close>). The lemmas read the flag word and the five string
  lengths back at their fixed offsets.
\<close>

definition SEC_INFO_PKT :: u16 where "SEC_INFO_PKT = 0x0040"
definition INFO_MOUSE :: u32 where "INFO_MOUSE = 0x00000001"
definition INFO_DISABLECTRLALTDEL :: u32 where "INFO_DISABLECTRLALTDEL = 0x00000002"
definition INFO_AUTOLOGON :: u32 where "INFO_AUTOLOGON = 0x00000008"
definition INFO_UNICODE :: u32 where "INFO_UNICODE = 0x00000010"
definition INFO_MAXIMIZESHELL :: u32 where "INFO_MAXIMIZESHELL = 0x00000020"
definition INFO_ENABLEWINDOWSKEY :: u32 where "INFO_ENABLEWINDOWSKEY = 0x00000100"
definition TIMEZONE_LEN :: nat where "TIMEZONE_LEN = 172"

lemmas info_consts =
  SEC_INFO_PKT_def INFO_MOUSE_def INFO_DISABLECTRLALTDEL_def INFO_AUTOLOGON_def INFO_UNICODE_def
  INFO_MAXIMIZESHELL_def INFO_ENABLEWINDOWSKEY_def TIMEZONE_LEN_def

record logon_info =
  li_domain :: rstring
  li_username :: rstring
  li_password :: rstring
  li_alternate_shell :: rstring
  li_working_dir :: rstring

definition utf16_z :: "rstring \<Rightarrow> bytes" where
  "utf16_z s = unicode s @ [0, 0]"

text \<open>The closure \<open>cb\<close>: the length without the terminator, truncated to 16 bits.\<close>

definition cb :: "bytes \<Rightarrow> u16" where
  "cb field = of_nat (length field - 2)"

definition info_flags :: "logon_info \<Rightarrow> bool \<Rightarrow> u32" where
  "info_flags info autologon =
     (let flags = INFO_MOUSE OR INFO_DISABLECTRLALTDEL OR INFO_UNICODE OR INFO_MAXIMIZESHELL
                    OR INFO_ENABLEWINDOWSKEY
      in if autologon \<and> li_password info \<noteq> [] then flags OR INFO_AUTOLOGON else flags)"

definition client_info :: "logon_info \<Rightarrow> bool \<Rightarrow> bytes" where
  "client_info info autologon =
     (let flags = info_flags info autologon;
          domain = utf16_z (li_domain info);
          username = utf16_z (li_username info);
          password = utf16_z (li_password info);
          shell = utf16_z (li_alternate_shell info);
          workdir = utf16_z (li_working_dir info);
          addr = utf16_z (rstr ''0.0.0.0'');
          dir = utf16_z (rstr '''')
      in put_u16_le SEC_INFO_PKT @ put_u16_le 0
         @ put_u32_le 0 @ put_u32_le flags
         @ put_u16_le (cb domain) @ put_u16_le (cb username) @ put_u16_le (cb password)
         @ put_u16_le (cb shell) @ put_u16_le (cb workdir)
         @ domain @ username @ password @ shell @ workdir
         @ put_u16_le 2
         @ put_u16_le (of_nat (length addr)) @ addr
         @ put_u16_le (of_nat (length dir)) @ dir
         @ replicate TIMEZONE_LEN 0
         @ put_u32_le 0 @ put_u32_le 0 @ put_u16_le 0)"

text \<open>
  What a server reads back: the security flags, the info flags, and the five strings, each
  followed by its two-byte terminator.
\<close>

record info_view =
  iv_security_flags :: u16
  iv_flags :: u32
  iv_strings :: "bytes list"

fun read_info_strings :: "nat list \<Rightarrow> bytes \<Rightarrow> (bytes list \<times> bytes) result" where
  "read_info_strings [] b = Ok ([], b)"
| "read_info_strings (n # ns) b =
     and_then (take_bytes n b) (\<lambda>(s, b).
       and_then (get_u16_le b) (\<lambda>(z, b).
         if z \<noteq> 0 then Err (Protocol ''unterminated string'')
         else and_then (read_info_strings ns b) (\<lambda>(ss, b). Ok (s # ss, b))))"

definition server_reads_info :: "bytes \<Rightarrow> info_view result" where
  "server_reads_info b =
     and_then (get_u16_le b) (\<lambda>(sec, b).
     and_then (advance 6 b) (\<lambda>b.
     and_then (get_u32_le b) (\<lambda>(flags, b).
     and_then (get_u16_le b) (\<lambda>(c1, b).
     and_then (get_u16_le b) (\<lambda>(c2, b).
     and_then (get_u16_le b) (\<lambda>(c3, b).
     and_then (get_u16_le b) (\<lambda>(c4, b).
     and_then (get_u16_le b) (\<lambda>(c5, b).
     and_then (read_info_strings [unat c1, unat c2, unat c3, unat c4, unat c5] b) (\<lambda>(ss, _).
       Ok \<lparr>iv_security_flags = sec, iv_flags = flags, iv_strings = ss\<rparr>)))))))))"

lemma utf16_z_cb: "length (unicode s) < 65536 \<Longrightarrow> unat (cb (utf16_z s)) = length (unicode s)"
  by (simp add: cb_def utf16_z_def)

lemma two_zeros: "[0, 0] = put_u16_le 0"
  by (simp add: put_u16_le_def)

lemma read_info_strings_z:
  "read_info_strings (length (unicode s) # ns) (utf16_z s @ r) =
     and_then (read_info_strings ns r) (\<lambda>(ss, b). Ok (unicode s # ss, b))"
  by (simp add: utf16_z_def two_zeros)

lemma server_reads_client_info:
  assumes "length (unicode (li_domain i)) < 65536" and "length (unicode (li_username i)) < 65536"
    and "length (unicode (li_password i)) < 65536"
    and "length (unicode (li_alternate_shell i)) < 65536"
    and "length (unicode (li_working_dir i)) < 65536"
  shows "server_reads_info (client_info i autologon) =
    Ok \<lparr>iv_security_flags = SEC_INFO_PKT, iv_flags = info_flags i autologon,
        iv_strings = map unicode [li_domain i, li_username i, li_password i,
          li_alternate_shell i, li_working_dir i]\<rparr>"
proof -
  have six: "advance 6 (put_u16_le a @ put_u32_le b @ r) = Ok r" for a b r
    by (simp add: advance_def put_u16_le_def put_u32_le_def)
  show ?thesis
    using assms
    by (simp add: server_reads_info_def client_info_def Let_def six utf16_z_cb read_info_strings_z
        del: read_info_strings.simps(2))
qed

lemma info_flags_autologon:
  "info_flags i autologon AND INFO_AUTOLOGON \<noteq> 0 \<longleftrightarrow> autologon \<and> li_password i \<noteq> []"
  by (simp add: info_flags_def info_consts)

end
