(* ===== verification/Multitransport.thy ===== *)
theory Multitransport
  imports Prelude
begin

text \<open>
  The multitransport bootstrap (\<open>src/multitransport.rs\<close>): the server's offer of a UDP
  sideband, its detection inside a message-channel PDU, and the reply. SHA-256 and the
  opening of the UDP transport belong to other crates and are parameters.
\<close>

definition PROTOCOL_UDPFECR :: u16 where "PROTOCOL_UDPFECR = 0x01"
definition PROTOCOL_UDPFECL :: u16 where "PROTOCOL_UDPFECL = 0x02"
definition TRANSPORTTYPE_UDPFECR :: u32 where "TRANSPORTTYPE_UDPFECR = 0x01"
definition TRANSPORTTYPE_UDPFECL :: u32 where "TRANSPORTTYPE_UDPFECL = 0x04"
definition TRANSPORTTYPE_SOFTSYNC :: u32 where "TRANSPORTTYPE_SOFTSYNC = 0x200"
definition TRANSPORTTYPE_UDP_PREFERRED :: u32 where "TRANSPORTTYPE_UDP_PREFERRED = 0x100"

record initiate_request =
  ir_request_id :: u32
  ir_requested_protocol :: u16
  ir_security_cookie :: bytes

definition initiate_request_parse :: "bytes \<Rightarrow> initiate_request result" where
  "initiate_request_parse buf =
     (if length buf < 24 then Err (Short 24 (length buf))
      else and_then (get_u32_le buf) (\<lambda>(request_id, b).
        and_then (get_u16_le b) (\<lambda>(requested_protocol, b).
          and_then (get_u16_le b) (\<lambda>(_, b).
            and_then (slice_to b 16) (\<lambda>security_cookie.
              Ok \<lparr>ir_request_id = request_id, ir_requested_protocol = requested_protocol,
                  ir_security_cookie = security_cookie\<rparr>)))))"

text \<open>\<open>Result::ok\<close>, and the scan over the two candidate offsets.\<close>

definition result_ok :: "'a result \<Rightarrow> 'a option result" where
  "result_ok m = (case m of Ok x \<Rightarrow> Ok (Some x) | Err e \<Rightarrow> Ok None | Panic \<Rightarrow> Panic)"

fun detect_at :: "nat list \<Rightarrow> bytes \<Rightarrow> initiate_request option result" where
  "detect_at [] pdu = Ok None"
| "detect_at (off # offs) pdu =
     (if off + 24 \<le> length pdu then
        and_then (index pdu (off + 4)) (\<lambda>a. and_then (index pdu (off + 5)) (\<lambda>b.
          (let proto = u16_from_le_bytes a b
           in if proto = PROTOCOL_UDPFECR \<or> proto = PROTOCOL_UDPFECL
              then and_then (slice_from pdu off) (\<lambda>rest. result_ok (initiate_request_parse rest))
              else detect_at offs pdu)))
      else detect_at offs pdu)"

definition detect :: "bytes \<Rightarrow> initiate_request option result" where
  "detect pdu = detect_at [0, 4] pdu"

definition cookie_hash :: "(bytes \<Rightarrow> bytes) \<Rightarrow> initiate_request \<Rightarrow> bytes" where
  "cookie_hash sha256 req = sha256 (ir_security_cookie req)"

definition initiate_response :: "u32 \<Rightarrow> u32 \<Rightarrow> bytes" where
  "initiate_response request_id hr_response = put_u32_le request_id @ put_u32_le hr_response"

text \<open>
  \<open>open_udp\<close>: the configuration handed to \<open>rdpeudp::UdpTransport::connect\<close>, which is the
  parameter \<open>connect\<close>.
\<close>

record udp_config =
  uc_reliable :: bool
  uc_cookie_hash :: "bytes option"

definition open_udp ::
    "(bytes \<Rightarrow> bytes) \<Rightarrow> ('addr \<Rightarrow> 'addr \<Rightarrow> udp_config \<Rightarrow> u32 \<Rightarrow> 't) \<Rightarrow>
     initiate_request \<Rightarrow> 'addr \<Rightarrow> 'addr \<Rightarrow> u32 \<Rightarrow> 't" where
  "open_udp sha256 connect request local_addr peer isn =
     (let reliable = (ir_requested_protocol request = PROTOCOL_UDPFECR);
          config = \<lparr>uc_reliable = reliable, uc_cookie_hash = Some (cookie_hash sha256 request)\<rparr>
      in connect local_addr peer config isn)"

section \<open>Lemmas\<close>

text \<open>The server's request, as it lays it out.\<close>

definition initiate_request_body :: "initiate_request \<Rightarrow> u16 \<Rightarrow> bytes" where
  "initiate_request_body r reserved =
     put_u32_le (ir_request_id r) @ put_u16_le (ir_requested_protocol r) @ put_u16_le reserved
       @ ir_security_cookie r"

lemma initiate_request_parse_body:
  "length (ir_security_cookie r) = 16 \<Longrightarrow>
   initiate_request_parse (initiate_request_body r reserved @ rest) = Ok r"
  by (simp add: initiate_request_parse_def initiate_request_body_def)

lemma initiate_request_parse_no_panic [no_panic]: "initiate_request_parse b \<noteq> Panic"
  by (auto simp: initiate_request_parse_def dest!: get_lens)

lemma result_ok_eq_Panic [simp]: "result_ok m = Panic \<longleftrightarrow> m = Panic"
  by (cases m) (auto simp: result_ok_def)

lemma detect_no_panic [no_panic]: "detect pdu \<noteq> Panic"
  by (simp add: detect_def Let_def no_panic)

definition udp_protocol :: "u16 \<Rightarrow> bool" where
  "udp_protocol p \<longleftrightarrow> p = PROTOCOL_UDPFECR \<or> p = PROTOCOL_UDPFECL"

lemma detect_at_body:
  assumes "length (ir_security_cookie r) = 16" and "udp_protocol (ir_requested_protocol r)"
  shows "detect_at (length pre # offs) (pre @ initiate_request_body r reserved @ rest) = Ok (Some r)"
proof -
  let ?id = "put_u32_le (ir_request_id r)" and ?p = "ir_requested_protocol r"
  have i: "index (pre @ initiate_request_body r reserved @ rest) (length pre + 4) = Ok (ucast ?p)"
    "index (pre @ initiate_request_body r reserved @ rest) (length pre + 5) =
       Ok (ucast (drop_bit 8 ?p))"
    by (simp_all add: initiate_request_body_def put_u32_le_def put_u16_le_def nth_append)
  have len: "length (initiate_request_body r reserved) = 24"
    using assms(1) by (simp add: initiate_request_body_def)
  show ?thesis
    using assms i len initiate_request_parse_body [OF assms(1), of reserved rest]
    by (auto simp: Let_def udp_protocol_def result_ok_def)
qed

lemma detect_body:
  assumes "length (ir_security_cookie r) = 16" and "udp_protocol (ir_requested_protocol r)"
  shows "detect (initiate_request_body r reserved @ rest) = Ok (Some r)"
  using detect_at_body [OF assms, of "[]" "[4]"] by (simp add: detect_def)

lemma detect_wrapped:
  assumes "length (ir_security_cookie r) = 16" and "udp_protocol (ir_requested_protocol r)"
    and "\<not> udp_protocol (u16_from_le_bytes (ucast (ir_request_id r)) (ucast (drop_bit 8 (ir_request_id r))))"
  shows "detect (put_u32_le w @ initiate_request_body r reserved @ rest) = Ok (Some r)"
proof -
  have i: "index (put_u32_le w @ initiate_request_body r reserved @ rest) 4 = Ok (ucast (ir_request_id r))"
    "index (put_u32_le w @ initiate_request_body r reserved @ rest) 5 = Ok (ucast (drop_bit 8 (ir_request_id r)))"
    by (simp_all add: initiate_request_body_def put_u32_le_def)
  have "detect (put_u32_le w @ initiate_request_body r reserved @ rest) =
      detect_at [4] (put_u32_le w @ initiate_request_body r reserved @ rest)"
    using assms(1,3) i
    by (simp add: detect_def Let_def udp_protocol_def initiate_request_body_def del: index_eq_Ok)
  then show ?thesis using detect_at_body [OF assms(1,2), of "put_u32_le w" "[]"] by simp
qed

end
