(* ===== verification/Connection.thy ===== *)
theory Connection
  imports Transport Connect Domain Gcc Caps Info Multitransport
begin

text \<open>
  The connection-sequence orchestrator (\<open>src/connection.rs\<close>). Each step is the Rust
  function over a transport given by its \<open>send\<close> and \<open>recv\<close>; the flag \<open>oc\<close> says whether the
  build checks arithmetic overflow (see \<open>Domain\<close>). The lemmas, proved once for every
  transport that keeps the contract of \<open>pdu_transport\<close>, say which messages each step sends
  and what it returns, given what the server answers.
\<close>

record session_config =
  sc_width :: u16
  sc_height :: u16
  sc_domain :: rstring
  sc_username :: rstring
  sc_selected_protocol :: u32
  sc_channels :: "channel_def list"

record session =
  se_user_id :: u16
  se_io_channel :: u16
  se_channel_ids :: "u16 list"
  se_share_id :: u32
  se_multitransport_request :: "initiate_request option"

definition MAX_SKIP :: nat where "MAX_SKIP = 16"

section \<open>Basic settings exchange\<close>

definition client_blocks :: "session_config \<Rightarrow> bytes" where
  "client_blocks cfg =
     client_core_data_encode
       (client_core_data_default\<lparr>cd_desktop_width := sc_width cfg, cd_desktop_height := sc_height cfg,
          cd_server_selected_protocol := sc_selected_protocol cfg\<rparr>)
     @ client_security_data
     @ client_network_data (sc_channels cfg)
     @ client_cluster_data
     @ client_msgchannel_data
     @ client_multitransport_data (TRANSPORTTYPE_UDPFECR OR TRANSPORTTYPE_UDP_PREFERRED)"

definition parse_settings :: "bytes \<Rightarrow> server_network_data result" where
  "parse_settings response =
     and_then (parse_connect_response response) (\<lambda>gcc_response.
       and_then (parse_conference_create_response gcc_response) parse_server_network_data)"

definition basic_settings_exchange ::
    "(bytes \<Rightarrow> ('s, unit) io) \<Rightarrow> ('s, bytes) io \<Rightarrow> session_config \<Rightarrow>
     ('s, server_network_data) io" where
  "basic_settings_exchange send recv cfg =
     (let ccr = conference_create_request (client_blocks cfg)
      in io_bind (send (connect_initial ccr)) (\<lambda>_.
           io_bind recv (\<lambda>response. io_lift (parse_settings response))))"

section \<open>Channel connection\<close>

definition channels_to_join :: "u16 \<Rightarrow> server_network_data \<Rightarrow> u16 list" where
  "channels_to_join user_id server_net =
     [user_id, IO_CHANNEL] @ sn_channel_ids server_net
       @ (case sn_message_channel_id server_net of None \<Rightarrow> [] | Some msg \<Rightarrow> [msg])"

fun join_loop ::
    "bool \<Rightarrow> (bytes \<Rightarrow> ('s, unit) io) \<Rightarrow> ('s, bytes) io \<Rightarrow> u16 \<Rightarrow> u16 list \<Rightarrow> u16 list \<Rightarrow>
     ('s, u16 list) io" where
  "join_loop oc send recv user_id [] joined = io_ok joined"
| "join_loop oc send recv user_id (channel # channels) joined =
     io_bind (io_lift (channel_join_request oc user_id channel)) (\<lambda>req.
       io_bind (send req) (\<lambda>_.
         io_bind recv (\<lambda>reply.
           io_bind (io_lift (parse_channel_join_confirm reply)) (\<lambda>confirmed.
             join_loop oc send recv user_id channels
               (if channel \<noteq> user_id \<and> channel \<noteq> IO_CHANNEL then joined @ [confirmed]
                else joined)))))"

definition channel_connection ::
    "bool \<Rightarrow> (bytes \<Rightarrow> ('s, unit) io) \<Rightarrow> ('s, bytes) io \<Rightarrow> server_network_data \<Rightarrow>
     ('s, u16 \<times> u16 list) io" where
  "channel_connection oc send recv server_net =
     io_bind (send erect_domain_request) (\<lambda>_.
       io_bind (send attach_user_request) (\<lambda>_.
         io_bind recv (\<lambda>reply.
           io_bind (io_lift (parse_attach_user_confirm oc reply)) (\<lambda>user_id.
             io_bind (join_loop oc send recv user_id (channels_to_join user_id server_net) [])
               (\<lambda>joined. io_ok (user_id, joined))))))"

section \<open>The I/O channel\<close>

definition send_on_io ::
    "bool \<Rightarrow> (bytes \<Rightarrow> ('s, unit) io) \<Rightarrow> u16 \<Rightarrow> bytes \<Rightarrow> ('s, unit) io" where
  "send_on_io oc send user_id pdu =
     io_bind (io_lift (send_data_request oc user_id IO_CHANNEL pdu)) send"

definition io_payload :: "bytes \<Rightarrow> bytes result" where
  "io_payload mcs = and_then (parse_send_data_indication mcs) (\<lambda>(_, data). Ok data)"

definition recv_on_io :: "('s, bytes) io \<Rightarrow> ('s, bytes) io" where
  "recv_on_io recv = io_bind recv (\<lambda>mcs. io_lift (io_payload mcs))"

definition send_client_info ::
    "bool \<Rightarrow> (bytes \<Rightarrow> ('s, unit) io) \<Rightarrow> u16 \<Rightarrow> session_config \<Rightarrow> ('s, unit) io" where
  "send_client_info oc send user_id cfg =
     send_on_io oc send user_id
       (client_info \<lparr>li_domain = sc_domain cfg, li_username = sc_username cfg, li_password = [],
                     li_alternate_shell = [], li_working_dir = []\<rparr> False)"

section \<open>Waiting for the Demand Active\<close>

text \<open>
  One turn of the loop: \<open>Inl\<close> the PDU is the Demand Active and this is its parse,
  \<open>Inr\<close> the PDU is skipped and \<open>multitransport\<close> is now this.
\<close>

definition classify ::
    "initiate_request option \<Rightarrow> bytes \<Rightarrow> (demand_active result + initiate_request option) result" where
  "classify multitransport pdu =
     (case parse_share_control pdu of
        Ok (hdr, body) \<Rightarrow>
          if sch_pdu_type hdr = PDUTYPE_DEMANDACTIVE then Ok (Inl (parse_demand_active body))
          else Ok (Inr multitransport)
      | Err e \<Rightarrow>
          if multitransport = None then
            and_then (detect pdu) (\<lambda>req. Ok (Inr (case req of Some r \<Rightarrow> Some r | None \<Rightarrow> multitransport)))
          else Ok (Inr multitransport)
      | Panic \<Rightarrow> Panic)"

fun wait_loop ::
    "('s, bytes) io \<Rightarrow> nat \<Rightarrow> initiate_request option \<Rightarrow> 's \<Rightarrow>
     (demand_active result \<times> initiate_request option) \<times> 's" where
  "wait_loop recv 0 mt s = ((Err (Protocol ''no Demand Active PDU received''), mt), s)"
| "wait_loop recv (Suc n) mt s =
     (case recv_on_io recv s of
        (Ok pdu, s) \<Rightarrow>
          (case classify mt pdu of
             Ok (Inl demand) \<Rightarrow> ((demand, mt), s)
           | Ok (Inr mt) \<Rightarrow> wait_loop recv n mt s
           | Err e \<Rightarrow> ((Err e, mt), s)
           | Panic \<Rightarrow> ((Panic, mt), s))
      | (Err e, s) \<Rightarrow> ((Err e, mt), s)
      | (Panic, s) \<Rightarrow> ((Panic, mt), s))"

text \<open>
  \<open>multitransport\<close> is an \<open>&mut Option\<close> argument: its final value is part of the result also
  when the wait fails.
\<close>

definition wait_for_demand_active ::
    "('s, bytes) io \<Rightarrow> initiate_request option \<Rightarrow> 's \<Rightarrow>
     (demand_active result \<times> initiate_request option) \<times> 's" where
  "wait_for_demand_active recv mt s = wait_loop recv MAX_SKIP mt s"

definition wait_for_demand_active_io ::
    "('s, bytes) io \<Rightarrow> ('s, demand_active \<times> initiate_request option) io" where
  "wait_for_demand_active_io recv s =
     (case wait_for_demand_active recv None s of
        ((demand, mt), t) \<Rightarrow> (and_then demand (\<lambda>d. Ok (d, mt)), t))"

section \<open>Confirm Active and finalization\<close>

definition client_caps :: "session_config \<Rightarrow> bytes list" where
  "client_caps cfg =
     [general_caps, bitmap_caps (sc_width cfg) (sc_height cfg), order_caps, bitmap_cache_rev2_caps,
      color_cache_caps, activation_caps, control_caps, pointer_caps, share_caps,
      input_caps 0x00000409, sound_caps, font_caps, brush_caps, glyph_cache_caps, offscreen_caps,
      multifragment_caps, large_pointer_caps, surface_commands_caps, bitmap_codecs_caps,
      frame_acknowledge_caps]
     @ (if sc_channels cfg \<noteq> [] then [virtual_channel_caps] else [])"

definition send_confirm_active ::
    "bool \<Rightarrow> (bytes \<Rightarrow> ('s, unit) io) \<Rightarrow> u16 \<Rightarrow> u32 \<Rightarrow> session_config \<Rightarrow> ('s, unit) io" where
  "send_confirm_active oc send user_id share_id cfg =
     send_on_io oc send user_id (confirm_active user_id share_id (client_caps cfg))"

fun drain_loop :: "('s, bytes) io \<Rightarrow> nat \<Rightarrow> nat \<Rightarrow> ('s, unit) io" where
  "drain_loop recv 0 seen = io_ok ()"
| "drain_loop recv (Suc n) seen =
     (if 4 \<le> seen then io_ok ()
      else io_bind (recv_on_io recv) (\<lambda>pdu.
        case parse_share_control pdu of
          Ok (_, body) \<Rightarrow>
            (case parse_share_data body of
               Ok _ \<Rightarrow> drain_loop recv n (seen + 1)
             | Err _ \<Rightarrow> drain_loop recv n seen
             | Panic \<Rightarrow> io_lift Panic)
        | Err _ \<Rightarrow> drain_loop recv n seen
        | Panic \<Rightarrow> io_lift Panic))"

definition finalization_pdus :: "u16 \<Rightarrow> u32 \<Rightarrow> bytes list" where
  "finalization_pdus user_id share_id =
     (let data = share_data user_id share_id
      in [data PDUTYPE2_SYNCHRONIZE (synchronize IO_CHANNEL),
          data PDUTYPE2_CONTROL (control CTRLACTION_COOPERATE 0 0),
          data PDUTYPE2_CONTROL (control CTRLACTION_REQUEST_CONTROL 0 0),
          data PDUTYPE2_FONTLIST font_list])"

fun send_all_on_io ::
    "bool \<Rightarrow> (bytes \<Rightarrow> ('s, unit) io) \<Rightarrow> u16 \<Rightarrow> bytes list \<Rightarrow> ('s, unit) io" where
  "send_all_on_io oc send user_id [] = io_ok ()"
| "send_all_on_io oc send user_id (pdu # pdus) =
     io_bind (send_on_io oc send user_id pdu) (\<lambda>_. send_all_on_io oc send user_id pdus)"

definition finalization ::
    "bool \<Rightarrow> (bytes \<Rightarrow> ('s, unit) io) \<Rightarrow> ('s, bytes) io \<Rightarrow> u16 \<Rightarrow> u32 \<Rightarrow> ('s, unit) io" where
  "finalization oc send recv user_id share_id =
     io_bind (send_all_on_io oc send user_id (finalization_pdus user_id share_id)) (\<lambda>_.
       drain_loop recv MAX_SKIP 0)"

section \<open>The whole sequence\<close>

definition establish ::
    "bool \<Rightarrow> (bytes \<Rightarrow> ('s, unit) io) \<Rightarrow> ('s, bytes) io \<Rightarrow> session_config \<Rightarrow> ('s, session) io" where
  "establish oc send recv cfg =
     io_bind (basic_settings_exchange send recv cfg) (\<lambda>server_net.
     io_bind (channel_connection oc send recv server_net) (\<lambda>(user_id, channel_ids).
     io_bind (send_client_info oc send user_id cfg) (\<lambda>_.
     io_bind (wait_for_demand_active_io recv) (\<lambda>(demand, multitransport_request).
     io_bind (send_confirm_active oc send user_id (da_share_id demand) cfg) (\<lambda>_.
     io_bind (finalization oc send recv user_id (da_share_id demand)) (\<lambda>_.
       io_ok \<lparr>se_user_id = user_id, se_io_channel = IO_CHANNEL, se_channel_ids = channel_ids,
              se_share_id = da_share_id demand,
              se_multitransport_request = multitransport_request\<rparr>))))))"

section \<open>What an honest server sends, and what the client answers\<close>

text \<open>
  \<open>skip_all\<close> follows \<open>wait_for_demand_active\<close> over messages it skips; \<open>None\<close> when one of
  them would stop the wait.
\<close>

fun skip_all :: "initiate_request option \<Rightarrow> bytes list \<Rightarrow> initiate_request option option" where
  "skip_all mt [] = Some mt"
| "skip_all mt (m # ms) =
     (case and_then (io_payload m) (classify mt) of
        Ok (Inr mt) \<Rightarrow> skip_all mt ms
      | _ \<Rightarrow> None)"

text \<open>A finalization message: \<open>None\<close> when it is not even a Send Data Indication.\<close>

definition is_data_pdu :: "bytes \<Rightarrow> bool" where
  "is_data_pdu pdu =
     (case and_then (parse_share_control pdu) (\<lambda>(_, body). parse_share_data body) of
        Ok _ \<Rightarrow> True | _ \<Rightarrow> False)"

record server_run =
  sv_connect :: bytes
  sv_net :: server_network_data
  sv_attach :: bytes
  sv_user :: u16
  sv_confirms :: "bytes list"
  sv_confirmed :: "u16 list"
  sv_strays :: "bytes list"
  sv_offer :: "initiate_request option"
  sv_demand :: bytes
  sv_demand_parsed :: demand_active
  sv_finals :: "bytes list"
  sv_final_pdus :: "bytes list"

definition honest_server :: "bool \<Rightarrow> server_run \<Rightarrow> bool" where
  "honest_server oc v \<longleftrightarrow>
     parse_settings (sv_connect v) = Ok (sv_net v) \<and>
     parse_attach_user_confirm oc (sv_attach v) = Ok (sv_user v) \<and> 1001 \<le> unat (sv_user v) \<and>
     map parse_channel_join_confirm (sv_confirms v) = map Ok (sv_confirmed v) \<and>
     length (sv_confirmed v) = length (channels_to_join (sv_user v) (sv_net v)) \<and>
     skip_all None (sv_strays v) = Some (sv_offer v) \<and> length (sv_strays v) < MAX_SKIP \<and>
     and_then (io_payload (sv_demand v)) (classify (sv_offer v)) = Ok (Inl (Ok (sv_demand_parsed v))) \<and>
     map io_payload (sv_finals v) = map Ok (sv_final_pdus v) \<and>
     length (sv_finals v) \<le> MAX_SKIP \<and> length (filter is_data_pdu (sv_final_pdus v)) = 4 \<and>
     is_data_pdu (last (sv_final_pdus v))"

definition server_messages :: "server_run \<Rightarrow> bytes list" where
  "server_messages v =
     [sv_connect v, sv_attach v] @ sv_confirms v @ sv_strays v @ [sv_demand v] @ sv_finals v"

definition channel_join_bytes :: "u16 \<Rightarrow> u16 \<Rightarrow> bytes" where
  "channel_join_bytes user_id channel =
     put_u8 (choice CHANNEL_JOIN_REQUEST) @ put_u16 (user_id - 1001) @ put_u16 channel"

definition send_data_bytes :: "u16 \<Rightarrow> bytes \<Rightarrow> bytes" where
  "send_data_bytes user_id pdu =
     put_u8 (choice SEND_DATA_REQUEST) @ put_u16 (user_id - 1001) @ put_u16 IO_CHANNEL
       @ put_u8 0x70 @ per_write_length (length pdu) @ pdu"

definition client_messages :: "session_config \<Rightarrow> server_run \<Rightarrow> bytes list" where
  "client_messages cfg v =
     (let u = sv_user v; sid = da_share_id (sv_demand_parsed v);
          info = \<lparr>li_domain = sc_domain cfg, li_username = sc_username cfg, li_password = [],
                  li_alternate_shell = [], li_working_dir = []\<rparr>
      in [connect_initial (conference_create_request (client_blocks cfg)),
          erect_domain_request, attach_user_request]
         @ map (channel_join_bytes u) (channels_to_join u (sv_net v))
         @ [send_data_bytes u (client_info info False),
            send_data_bytes u (confirm_active u sid (client_caps cfg))]
         @ map (send_data_bytes u) (finalization_pdus u sid))"

definition server_session :: "server_run \<Rightarrow> session" where
  "server_session v =
     (let u = sv_user v
      in \<lparr>se_user_id = u, se_io_channel = IO_CHANNEL,
          se_channel_ids =
            [c. (ch, c) \<leftarrow> zip (channels_to_join u (sv_net v)) (sv_confirmed v),
                ch \<noteq> u \<and> ch \<noteq> IO_CHANNEL],
          se_share_id = da_share_id (sv_demand_parsed v),
          se_multitransport_request = sv_offer v\<rparr>)"

section \<open>Lemmas about the steps, for every transport\<close>

lemma send_data_request_Ok:
  "1001 \<le> unat u \<Longrightarrow> send_data_request oc u IO_CHANNEL pdu = Ok (send_data_bytes u pdu)"
  by (simp add: send_data_request_def sub_add_u16 send_data_bytes_def)

lemma channel_join_request_Ok:
  "1001 \<le> unat u \<Longrightarrow> channel_join_request oc u ch = Ok (channel_join_bytes u ch)"
  by (simp add: channel_join_request_def sub_add_u16 channel_join_bytes_def)

lemma is_data_pdu_cases:
  "is_data_pdu p \<Longrightarrow> \<exists>h body x. parse_share_control p = Ok (h, body) \<and> parse_share_data body = Ok x"
  by (auto simp: is_data_pdu_def and_then_eq_Ok split: result.splits)

lemma not_data_pdu_cases:
  assumes "\<not> is_data_pdu p"
  obtains e where "parse_share_control p = Err e"
  | h body e where "parse_share_control p = Ok (h, body)" "parse_share_data body = Err e"
  using assms parse_share_control_no_panic [of p] parse_share_data_no_panic
  by (cases "parse_share_control p") (auto simp: is_data_pdu_def split: result.splits)

context pdu_transport
begin

lemma send_on_io_runs:
  assumes "1001 \<le> unat u" and "fits (send_data_bytes u pdu)"
  shows "runs ready (send_on_io oc send u pdu) [] (Ok ()) [send_data_bytes u pdu]"
  unfolding send_on_io_def
  by (rule runs_bind_lift [OF send_data_request_Ok]) (use assms send_runs in auto)

lemma recv_on_io_runs: "runs ready (recv_on_io recv) [m] (io_payload m) []"
  unfolding recv_on_io_def by (rule recv_bind) (rule runs_lift)

lemma recv_on_io_step:
  "ready s (m # rest) sent \<Longrightarrow> \<exists>t. recv_on_io recv s = (io_payload m, t) \<and> ready t rest sent"
  using recv_on_io_runs [of m] unfolding runs_def by (metis append_Cons append_Nil append_Nil2)

lemma wait_loop_skips:
  assumes "skip_all mt ms = Some mt'" and "ready s (ms @ rest) sent"
  shows "\<exists>t. wait_loop recv (length ms + n) mt s = wait_loop recv n mt' t \<and> ready t rest sent"
  using assms
proof (induction ms arbitrary: mt s)
  case (Cons m ms)
  obtain t where t: "recv_on_io recv s = (io_payload m, t)" "ready t (ms @ rest) sent"
    using recv_on_io_step [of s m "ms @ rest"] Cons.prems(2) by auto
  obtain p mt1 where p: "io_payload m = Ok p" "classify mt p = Ok (Inr mt1)"
      "skip_all mt1 ms = Some mt'"
    using Cons.prems(1) by (auto simp: and_then_eq_Ok split: result.splits sum.splits)
  show ?case using Cons.IH [OF p(3) t(2)] t(1) p by simp
qed auto

lemma wait_for_demand_active_runs:
  assumes "skip_all None ms = Some mt" and "length ms < MAX_SKIP"
    and "and_then (io_payload dm) (classify mt) = Ok (Inl (Ok d))"
  shows "runs ready (wait_for_demand_active_io recv) (ms @ [dm]) (Ok (d, mt)) []"
  unfolding runs_def
proof (intro allI impI)
  fix s rest sent
  assume "ready s ((ms @ [dm]) @ rest) sent"
  then have s: "ready s (ms @ (dm # rest)) sent" by simp
  obtain k where k: "MAX_SKIP = length ms + Suc k" using assms(2) less_imp_Suc_add by fastforce
  obtain t where t: "wait_loop recv MAX_SKIP None s = wait_loop recv (Suc k) mt t"
      "ready t (dm # rest) sent"
    using wait_loop_skips [OF assms(1) s, of "Suc k"] unfolding k by blast
  obtain u where "recv_on_io recv t = (io_payload dm, u)" "ready u rest sent"
    using recv_on_io_step [OF t(2)] by blast
  then show "\<exists>u. wait_for_demand_active_io recv s = (Ok (d, mt), u) \<and> ready u rest (sent @ [])"
    using t(1) assms(3)
    by (auto simp: wait_for_demand_active_io_def wait_for_demand_active_def and_then_eq_Ok)
qed

lemma wait_for_demand_active_gives_up:
  assumes "skip_all None ms = Some mt" and "length ms = MAX_SKIP"
  shows "runs ready (wait_for_demand_active_io recv) ms
    (Err (Protocol ''no Demand Active PDU received'')) []"
  unfolding runs_def
proof (intro allI impI)
  fix s rest sent
  assume s: "ready s (ms @ rest) sent"
  show "\<exists>u. wait_for_demand_active_io recv s = (Err (Protocol ''no Demand Active PDU received''), u)
      \<and> ready u rest (sent @ [])"
    using wait_loop_skips [OF assms(1) s, of 0] assms(2)
    by (auto simp: wait_for_demand_active_io_def wait_for_demand_active_def)
qed

lemma join_loop_runs:
  assumes "1001 \<le> unat u" and "map parse_channel_join_confirm ms = map Ok cs"
    and "length cs = length chs" and "list_all fits (map (channel_join_bytes u) chs)"
  shows "runs ready (join_loop oc send recv u chs joined) ms
    (Ok (joined @ [c. (ch, c) \<leftarrow> zip chs cs, ch \<noteq> u \<and> ch \<noteq> IO_CHANNEL]))
    (map (channel_join_bytes u) chs)"
  using assms(2-)
proof (induction chs arbitrary: ms cs joined)
  case Nil
  then show ?case by auto
next
  case (Cons ch chs)
  then obtain c cs' m ms' where eq: "cs = c # cs'" "ms = m # ms'"
      "parse_channel_join_confirm m = Ok c" "map parse_channel_join_confirm ms' = map Ok cs'"
    by (cases cs; cases ms) auto
  let ?j = "if ch \<noteq> u \<and> ch \<noteq> IO_CHANNEL then joined @ [c] else joined"
  have "runs ready (join_loop oc send recv u chs ?j) ms'
      (Ok (?j @ [c. (ch, c) \<leftarrow> zip chs cs', ch \<noteq> u \<and> ch \<noteq> IO_CHANNEL])) (map (channel_join_bytes u) chs)"
    using Cons.prems eq by (intro Cons.IH) auto
  then have "runs ready (join_loop oc send recv u (ch # chs) joined) (m # ms')
      (Ok (?j @ [c. (ch, c) \<leftarrow> zip chs cs', ch \<noteq> u \<and> ch \<noteq> IO_CHANNEL]))
      (channel_join_bytes u ch # map (channel_join_bytes u) chs)"
    unfolding join_loop.simps
    using Cons.prems(3) channel_join_request_Ok [OF assms(1)] eq(3)
    by (intro runs_bind_lift [where x = "channel_join_bytes u ch"] send_bind recv_bind
        runs_bind_lift [where x = c]) auto
  moreover have "?j @ [c. (ch, c) \<leftarrow> zip chs cs', ch \<noteq> u \<and> ch \<noteq> IO_CHANNEL] =
      joined @ [c. (ch, c) \<leftarrow> zip (ch # chs) cs, ch \<noteq> u \<and> ch \<noteq> IO_CHANNEL]"
    by (simp add: eq)
  ultimately show ?case using eq(2) by simp
qed

lemma channel_connection_runs:
  assumes "parse_attach_user_confirm oc a = Ok u" and "1001 \<le> unat u"
    and "map parse_channel_join_confirm ms = map Ok cs"
    and "length cs = length (channels_to_join u net)"
    and "fits erect_domain_request" and "fits attach_user_request"
    and "list_all fits (map (channel_join_bytes u) (channels_to_join u net))"
  shows "runs ready (channel_connection oc send recv net) (a # ms)
    (Ok (u, [c. (ch, c) \<leftarrow> zip (channels_to_join u net) cs, ch \<noteq> u \<and> ch \<noteq> IO_CHANNEL]))
    (erect_domain_request # attach_user_request
       # map (channel_join_bytes u) (channels_to_join u net))"
proof -
  note join = join_loop_runs [OF assms(2-4) assms(7), of oc "[]"]
  show ?thesis
    unfolding channel_connection_def
    using assms(1,5,6) runs_bind [OF join runs_ok]
    by (intro send_bind recv_bind runs_bind_lift [where x = u]) simp_all
qed

lemma send_all_on_io_runs:
  assumes "1001 \<le> unat u" and "list_all fits (map (send_data_bytes u) pdus)"
  shows "runs ready (send_all_on_io oc send u pdus) [] (Ok ()) (map (send_data_bytes u) pdus)"
  using assms(2)
proof (induction pdus)
  case (Cons p ps)
  have "runs ready (send_on_io oc send u p) [] (Ok ()) [send_data_bytes u p]"
    using Cons.prems assms(1) by (intro send_on_io_runs) auto
  from runs_bind [OF this, of "\<lambda>_. send_all_on_io oc send u ps"] Cons show ?case by simp
qed auto

lemma drain_loop_runs:
  assumes "map io_payload ms = map Ok ps" and "length ps \<le> n"
    and "seen + length (filter is_data_pdu ps) = 4" and "ps \<noteq> [] \<Longrightarrow> is_data_pdu (last ps)"
  shows "runs ready (drain_loop recv n seen) ms (Ok ()) []"
  using assms
proof (induction ps arbitrary: ms n seen)
  case Nil
  then show ?case by (cases n) auto
next
  case (Cons p ps)
  then obtain m ms' where ms: "ms = m # ms'" "io_payload m = Ok p" "map io_payload ms' = map Ok ps"
    by (cases ms) auto
  obtain k where n: "n = Suc k" "length ps \<le> k" using Cons.prems(2) by (cases n) auto
  have "0 < length (filter is_data_pdu (p # ps))"
    using Cons.prems(4) last_in_set [of "p # ps"] by (auto simp: filter_empty_conv simp del: last.simps)
  then have seen: "\<not> 4 \<le> seen" using Cons.prems(3) by linarith
  have last: "is_data_pdu (last ps)" if "ps \<noteq> []" using Cons.prems(4) that by simp
  have rest: "runs ready (case parse_share_control p of
        Ok (_, body) \<Rightarrow> (case parse_share_data body of
            Ok _ \<Rightarrow> drain_loop recv k (seen + 1)
          | Err _ \<Rightarrow> drain_loop recv k seen | Panic \<Rightarrow> io_lift Panic)
      | Err _ \<Rightarrow> drain_loop recv k seen | Panic \<Rightarrow> io_lift Panic) ms' (Ok ()) []"
  proof (cases "is_data_pdu p")
    case True
    have "runs ready (drain_loop recv k (seen + 1)) ms' (Ok ()) []"
      using Cons.prems True ms n last by (intro Cons.IH) auto
    then show ?thesis using is_data_pdu_cases [OF True] by auto
  next
    case False
    have "runs ready (drain_loop recv k seen) ms' (Ok ()) []"
      using Cons.prems False ms n last by (intro Cons.IH) auto
    then show ?thesis using False by (auto elim!: not_data_pdu_cases)
  qed
  have "runs ready (drain_loop recv (Suc k) seen) (m # ms') (Ok ()) []"
    unfolding drain_loop.simps if_not_P [OF seen]
    by (rule runs_bindI [OF recv_on_io_runs [of m, unfolded ms(2)]], rule rest) simp_all
  then show ?case by (simp add: n(1) ms(1))
qed

lemma finalization_runs:
  assumes "1001 \<le> unat u" and "list_all fits (map (send_data_bytes u) (finalization_pdus u sid))"
    and "map io_payload ms = map Ok ps" and "length ms \<le> MAX_SKIP"
    and "length (filter is_data_pdu ps) = 4" and "is_data_pdu (last ps)"
  shows "runs ready (finalization oc send recv u sid) ms (Ok ())
    (map (send_data_bytes u) (finalization_pdus u sid))"
proof -
  have "length ps = length ms" using assms(3) by (metis length_map)
  then have "runs ready (drain_loop recv MAX_SKIP 0) ms (Ok ()) []"
    using assms by (intro drain_loop_runs [of ms ps]) auto
  from runs_bind [OF send_all_on_io_runs [OF assms(1,2)] this] show ?thesis
    by (simp add: finalization_def)
qed

lemma basic_settings_exchange_runs:
  assumes "fits (connect_initial (conference_create_request (client_blocks cfg)))"
  shows "runs ready (basic_settings_exchange send recv cfg) [m] (parse_settings m)
    [connect_initial (conference_create_request (client_blocks cfg))]"
  unfolding basic_settings_exchange_def Let_def
  by (intro send_bind recv_bind runs_lift assms)

lemma establish_runs:
  assumes "honest_server oc v" and "list_all fits (client_messages cfg v)"
  shows "runs ready (establish oc send recv cfg) (server_messages v) (Ok (server_session v))
    (client_messages cfg v)"
proof -
  let ?u = "sv_user v" and ?sid = "da_share_id (sv_demand_parsed v)"
  note h = assms(1) [unfolded honest_server_def]
  have u: "1001 \<le> unat ?u" using h by blast
  note fit = assms(2) [unfolded client_messages_def Let_def list_all_append list.pred_inject]
  have s1: "runs ready (basic_settings_exchange send recv cfg) [sv_connect v] (Ok (sv_net v))
      [connect_initial (conference_create_request (client_blocks cfg))]"
    using basic_settings_exchange_runs [of cfg "sv_connect v"] h fit by simp
  have s2: "runs ready (channel_connection oc send recv (sv_net v)) (sv_attach v # sv_confirms v)
      (Ok (?u, se_channel_ids (server_session v)))
      (erect_domain_request # attach_user_request
        # map (channel_join_bytes ?u) (channels_to_join ?u (sv_net v)))"
    using channel_connection_runs [of oc "sv_attach v" ?u "sv_confirms v" "sv_confirmed v" "sv_net v"]
      h fit by (simp add: server_session_def Let_def)
  let ?info = "\<lparr>li_domain = sc_domain cfg, li_username = sc_username cfg, li_password = [],
      li_alternate_shell = [], li_working_dir = []\<rparr>"
  have s3: "runs ready (send_client_info oc send ?u cfg) [] (Ok ())
      [send_data_bytes ?u (client_info ?info False)]"
    unfolding send_client_info_def using send_on_io_runs [OF u] fit by simp
  have s4: "runs ready (wait_for_demand_active_io recv) (sv_strays v @ [sv_demand v])
      (Ok (sv_demand_parsed v, sv_offer v)) []"
    using h by (intro wait_for_demand_active_runs) auto
  have s5: "runs ready (send_confirm_active oc send ?u ?sid cfg) [] (Ok ())
      [send_data_bytes ?u (confirm_active ?u ?sid (client_caps cfg))]"
    unfolding send_confirm_active_def using send_on_io_runs [OF u] fit by simp
  have s6: "runs ready (finalization oc send recv ?u ?sid) (sv_finals v) (Ok ())
      (map (send_data_bytes ?u) (finalization_pdus ?u ?sid))"
    using h fit u by (intro finalization_runs [where ps = "sv_final_pdus v"]) auto
  let ?k6 = "\<lambda>user_id channel_ids demand mt. io_bind (finalization oc send recv user_id (da_share_id demand))
      (\<lambda>_. io_ok \<lparr>se_user_id = user_id, se_io_channel = IO_CHANNEL, se_channel_ids = channel_ids,
              se_share_id = da_share_id demand, se_multitransport_request = mt\<rparr>)"
  have t6: "runs ready (?k6 ?u (se_channel_ids (server_session v)) (sv_demand_parsed v) (sv_offer v))
      (sv_finals v) (Ok (server_session v)) (map (send_data_bytes ?u) (finalization_pdus ?u ?sid))"
    by (rule runs_bindI [OF s6]) (auto simp: server_session_def Let_def io_ok_def runs_def)
  have t4: "runs ready (io_bind (wait_for_demand_active_io recv) (\<lambda>(demand, mt).
        io_bind (send_confirm_active oc send ?u (da_share_id demand) cfg) (\<lambda>_.
          ?k6 ?u (se_channel_ids (server_session v)) demand mt)))
      (sv_strays v @ [sv_demand v] @ sv_finals v) (Ok (server_session v))
      (send_data_bytes ?u (confirm_active ?u ?sid (client_caps cfg))
        # map (send_data_bytes ?u) (finalization_pdus ?u ?sid))"
    by (rule runs_bindI [OF s4]) (auto intro!: runs_bindI [OF s5] t6)
  have t2: "runs ready (io_bind (channel_connection oc send recv (sv_net v)) (\<lambda>(user_id, channel_ids).
        io_bind (send_client_info oc send user_id cfg) (\<lambda>_.
          io_bind (wait_for_demand_active_io recv) (\<lambda>(demand, mt).
            io_bind (send_confirm_active oc send user_id (da_share_id demand) cfg) (\<lambda>_.
              ?k6 user_id channel_ids demand mt)))))
      (sv_attach v # sv_confirms v @ sv_strays v @ [sv_demand v] @ sv_finals v) (Ok (server_session v))
      (tl (client_messages cfg v))"
    by (rule runs_bindI [OF s2])
      (auto simp: client_messages_def Let_def intro!: runs_bindI [OF s3] t4 [simplified])
  show ?thesis
    unfolding establish_def
    by (rule runs_bindI [OF s1], rule t2) (simp_all add: server_messages_def client_messages_def Let_def)
qed

end

end
