(* ===== verification/Tpkt.thy ===== *)
theory Tpkt
  imports Prelude
begin

text \<open>
  TPKT framing (\<open>src/tpkt.rs\<close>): a four-byte header, version 3, a reserved byte and the
  big-endian total length, in front of every slow-path PDU.
\<close>

definition TPKT_VERSION :: u8 where
  "TPKT_VERSION = 3"

definition TPKT_HEADER_LEN :: nat where
  "TPKT_HEADER_LEN = 4"

definition MAX_TPKT_PAYLOAD :: nat where
  "MAX_TPKT_PAYLOAD = 65535 - TPKT_HEADER_LEN"

definition tpkt_encode :: "bytes \<Rightarrow> bytes result" where
  "tpkt_encode payload =
     (if length payload > MAX_TPKT_PAYLOAD
      then Err (Protocol ''TPKT payload exceeds u16 length'')
      else
        (let total = (of_nat (length payload + TPKT_HEADER_LEN) :: u16)
         in Ok (put_u8 TPKT_VERSION @ put_u8 0 @ put_u16 total @ payload)))"

definition peek_total_len :: "bytes \<Rightarrow> nat result" where
  "peek_total_len buf =
     (if length buf < TPKT_HEADER_LEN then Err (Short TPKT_HEADER_LEN (length buf))
      else and_then (index buf 0) (\<lambda>version.
        if version \<noteq> TPKT_VERSION then Err (Protocol ''bad TPKT version'')
        else and_then (index buf 2) (\<lambda>hi. and_then (index buf 3) (\<lambda>lo.
          let total = unat (u16_from_be_bytes hi lo)
          in if total < TPKT_HEADER_LEN
             then Err (Protocol ''TPKT length shorter than header'')
             else Ok total))))"

definition tpkt_decode :: "bytes \<Rightarrow> bytes result" where
  "tpkt_decode buf =
     and_then (peek_total_len buf) (\<lambda>total.
       if length buf < total then Err (Short total (length buf))
       else and_then (slice_to buf TPKT_HEADER_LEN) (\<lambda>header.
         and_then (advance 2 header) (\<lambda>header.
           and_then (get_u16 header) (\<lambda>_. slice buf TPKT_HEADER_LEN total))))"

lemmas tpkt_consts = TPKT_VERSION_def TPKT_HEADER_LEN_def MAX_TPKT_PAYLOAD_def

lemma tpkt_encode_Ok:
  "length p \<le> MAX_TPKT_PAYLOAD \<Longrightarrow>
   tpkt_encode p = Ok (3 # 0 # put_u16 (of_nat (length p + 4)) @ p)"
  by (simp add: tpkt_encode_def tpkt_consts put_u8_def)

lemma peek_total_len_header:
  "4 \<le> unat n \<Longrightarrow> peek_total_len (3 # 0 # put_u16 n @ r) = Ok (unat n)"
  by (simp add: peek_total_len_def tpkt_consts put_u16_def u16_from_be_bytes_def)

lemma peek_total_len_range: "peek_total_len buf = Ok n \<Longrightarrow> 4 \<le> n \<and> n < 65536 \<and> 4 \<le> length buf"
  by (auto simp: peek_total_len_def tpkt_consts Let_def and_then_eq_Ok split: if_splits)

lemma peek_total_len_no_panic [no_panic]: "peek_total_len buf \<noteq> Panic"
  by (auto simp: peek_total_len_def tpkt_consts Let_def)

lemma tpkt_decode_frame:
  assumes "unat n = length p + 4"
  shows "tpkt_decode (3 # 0 # put_u16 n @ p @ rest) = Ok p"
  using assms peek_total_len_header [of n "p @ rest"]
  by (simp add: tpkt_decode_def tpkt_consts advance_def put_u16_def)

lemma tpkt_decode_encoded:
  assumes "length p \<le> MAX_TPKT_PAYLOAD" and "tpkt_encode p = Ok pkt"
  shows "tpkt_decode (pkt @ rest) = Ok p"
proof -
  have "unat (of_nat (length p + 4) :: u16) = length p + 4"
    using assms(1) by (intro unat_of_nat_u16) (simp add: tpkt_consts)
  then have "tpkt_decode (3 # 0 # put_u16 (of_nat (length p + 4)) @ p @ rest) = Ok p"
    by (rule tpkt_decode_frame)
  with assms show ?thesis by (auto simp: tpkt_encode_Ok simp del: of_nat_add)
qed

lemma tpkt_decode_no_panic [no_panic]: "tpkt_decode buf \<noteq> Panic"
  using peek_total_len_range [of buf]
  by (auto simp: tpkt_decode_def no_panic tpkt_consts advance_eq_Ok)

end
