(* ===== verification/Nego.thy ===== *)
theory Nego
  imports Prelude
begin

text \<open>
  Security-protocol negotiation (\<open>src/nego.rs\<close>): the eight-byte little-endian structures
  carried in the X.224 Connection Request and Connection Confirm.
\<close>

text \<open>\<open>SecurityProtocol\<close>, a bit mask over \<open>u32\<close>.\<close>

type_synonym security_protocol = u32

definition PROTO_RDP :: u32 where "PROTO_RDP = 0"
definition PROTO_SSL :: u32 where "PROTO_SSL = 1"
definition PROTO_HYBRID :: u32 where "PROTO_HYBRID = 2"
definition PROTO_RDSTLS :: u32 where "PROTO_RDSTLS = 4"
definition PROTO_HYBRID_EX :: u32 where "PROTO_HYBRID_EX = 8"

definition sp_has :: "security_protocol \<Rightarrow> u32 \<Rightarrow> bool" where
  "sp_has p b = (b = 0 \<or> p AND b \<noteq> 0)"

definition sp_with :: "security_protocol \<Rightarrow> u32 \<Rightarrow> security_protocol" where
  "sp_with p b = p OR b"

definition TYPE_RDP_NEG_REQ :: u8 where "TYPE_RDP_NEG_REQ = 1"
definition TYPE_RDP_NEG_RSP :: u8 where "TYPE_RDP_NEG_RSP = 2"
definition TYPE_RDP_NEG_FAILURE :: u8 where "TYPE_RDP_NEG_FAILURE = 3"
definition NEG_LEN :: u16 where "NEG_LEN = 8"
definition NEG_SIZE :: nat where "NEG_SIZE = 8"

lemmas nego_consts =
  PROTO_RDP_def PROTO_SSL_def PROTO_HYBRID_def PROTO_RDSTLS_def PROTO_HYBRID_EX_def
  TYPE_RDP_NEG_REQ_def TYPE_RDP_NEG_RSP_def TYPE_RDP_NEG_FAILURE_def NEG_LEN_def NEG_SIZE_def

record negotiation_request =
  nr_flags :: u8
  nr_requested :: security_protocol

definition neg_request_write :: "negotiation_request \<Rightarrow> bytes" where
  "neg_request_write r =
     put_u8 TYPE_RDP_NEG_REQ @ put_u8 (nr_flags r) @ put_u16_le NEG_LEN
       @ put_u32_le (nr_requested r)"

definition neg_request_read :: "bytes \<Rightarrow> (negotiation_request \<times> bytes) result" where
  "neg_request_read buf =
     (if length buf < NEG_SIZE then Err (Short NEG_SIZE (length buf))
      else and_then (get_u8 buf) (\<lambda>(ty, buf).
        if ty \<noteq> TYPE_RDP_NEG_REQ then Err (Protocol ''not an RDP_NEG_REQ'')
        else and_then (get_u8 buf) (\<lambda>(flags, buf).
          and_then (get_u16_le buf) (\<lambda>(_, buf).
            and_then (get_u32_le buf) (\<lambda>(requested, buf).
              Ok (\<lparr>nr_flags = flags, nr_requested = requested\<rparr>, buf))))))"

datatype negotiation_response =
    Selected u8 security_protocol
  | Failure u32

fun neg_response_write :: "negotiation_response \<Rightarrow> bytes" where
  "neg_response_write (Selected flags protocol) =
     put_u8 TYPE_RDP_NEG_RSP @ put_u8 flags @ put_u16_le NEG_LEN @ put_u32_le protocol"
| "neg_response_write (Failure code) =
     put_u8 TYPE_RDP_NEG_FAILURE @ put_u8 0 @ put_u16_le NEG_LEN @ put_u32_le code"

definition neg_response_read :: "bytes \<Rightarrow> (negotiation_response \<times> bytes) result" where
  "neg_response_read buf =
     (if length buf < NEG_SIZE then Err (Short NEG_SIZE (length buf))
      else and_then (get_u8 buf) (\<lambda>(ty, buf).
        and_then (get_u8 buf) (\<lambda>(flags, buf).
          and_then (get_u16_le buf) (\<lambda>(_, buf).
            and_then (get_u32_le buf) (\<lambda>(v, buf).
              if ty = TYPE_RDP_NEG_RSP then Ok (Selected flags v, buf)
              else if ty = TYPE_RDP_NEG_FAILURE then Ok (Failure v, buf)
              else Err (Protocol ''not an RDP_NEG_RSP/FAILURE''))))))"

definition failure_reason :: "u32 \<Rightarrow> string" where
  "failure_reason code =
     (if code = 1 then ''SSL_REQUIRED_BY_SERVER''
      else if code = 2 then ''SSL_NOT_ALLOWED_BY_SERVER''
      else if code = 3 then ''SSL_CERT_NOT_ON_SERVER''
      else if code = 4 then ''INCONSISTENT_FLAGS''
      else if code = 5 then ''HYBRID_REQUIRED_BY_SERVER''
      else if code = 6 then ''SSL_WITH_USER_AUTH_REQUIRED_BY_SERVER''
      else ''unknown negotiation failure'')"

section \<open>Both structures are fixed-width codecs\<close>

lemma neg_request_length [simp]: "length (neg_request_write r) = 8"
  by (simp add: neg_request_write_def)

lemma neg_request_read_write [simp, parse_simps]:
  "neg_request_read (neg_request_write r @ rest) = Ok (r, rest)"
  by (simp add: neg_request_read_def neg_request_write_def nego_consts)

lemma neg_response_length [simp]: "length (neg_response_write r) = 8"
  by (cases r) simp_all

lemma neg_response_read_write [simp, parse_simps]:
  "neg_response_read (neg_response_write r @ rest) = Ok (r, rest)"
  by (cases r) (simp_all add: neg_response_read_def nego_consts)

lemma neg_request_read_no_panic [no_panic]: "neg_request_read buf \<noteq> Panic"
  by (auto simp: neg_request_read_def nego_consts get_eq_Ok)

lemma neg_response_read_no_panic [no_panic]: "neg_response_read buf \<noteq> Panic"
  by (auto simp: neg_response_read_def nego_consts get_eq_Ok)

end
