(* ===== verification/X224.thy ===== *)
theory X224
  imports Rust_String Nego
begin

text \<open>
  X.224 TPDUs (\<open>src/x224.rs\<close>): Connection Request, Connection Confirm and the Data header
  that prefixes every slow-path PDU. The routing cookie is a line of text inside the
  Connection Request, delimited by CR LF.
\<close>

definition TPDU_CR :: u8 where "TPDU_CR = 0xE0"
definition TPDU_CC :: u8 where "TPDU_CC = 0xD0"
definition TPDU_DT :: u8 where "TPDU_DT = 0xF0"
definition EOT :: u8 where "EOT = 0x80"
definition CR_CC_FIXED :: nat where "CR_CC_FIXED = 6"

definition DATA_HEADER :: bytes where
  "DATA_HEADER = [2, TPDU_DT, EOT]"

lemmas x224_consts = TPDU_CR_def TPDU_CC_def TPDU_DT_def EOT_def CR_CC_FIXED_def DATA_HEADER_def

record connection_request =
  cr_cookie :: "rstring option"
  cr_nego :: "negotiation_request option"

record connection_confirm =
  cc_nego :: "negotiation_response option"

section \<open>The cookie line\<close>

definition cookie_prefix :: bytes where
  "cookie_prefix = into_bytes (rstr ''Cookie: mstshash='')"

definition cookie_line :: "rstring \<Rightarrow> bytes" where
  "cookie_line ident = cookie_prefix @ into_bytes ident @ [13, 10]"

fun find_crlf :: "bytes \<Rightarrow> nat option" where
  "find_crlf (a # b # r) =
     (if a = 13 \<and> b = 10 then Some 0 else map_option Suc (find_crlf (b # r)))"
| "find_crlf _ = None"

definition starts_with :: "bytes \<Rightarrow> bytes \<Rightarrow> bool" where
  "starts_with b p \<longleftrightarrow> take (length p) b = p"

definition take_cookie :: "bytes \<Rightarrow> (rstring option \<times> bytes) result" where
  "take_cookie body =
     (if starts_with body cookie_prefix then
        (case find_crlf body of
           Some end_ix \<Rightarrow>
             and_then (slice body (length cookie_prefix) end_ix) (\<lambda>ident.
               and_then (slice_from body (end_ix + 2)) (\<lambda>rest.
                 Ok (Some (from_utf8_lossy ident), rest)))
         | None \<Rightarrow> Ok (None, body))
      else Ok (None, body))"

section \<open>Connection Request and Connection Confirm\<close>

definition connection_request_encode :: "connection_request \<Rightarrow> bytes" where
  "connection_request_encode cr =
     (let cookie_bytes = (case cr_cookie cr of None \<Rightarrow> [] | Some c \<Rightarrow> cookie_line c);
          neg_len = (case cr_nego cr of None \<Rightarrow> 0 | Some _ \<Rightarrow> NEG_SIZE);
          li = CR_CC_FIXED + length cookie_bytes + neg_len
      in put_u8 (of_nat li) @ put_u8 TPDU_CR @ put_u16 0 @ put_u16 0 @ put_u8 0
           @ cookie_bytes
           @ (case cr_nego cr of None \<Rightarrow> [] | Some neg \<Rightarrow> neg_request_write neg))"

definition split_cr_cc :: "bytes \<Rightarrow> (bytes \<times> u8) result" where
  "split_cr_cc buf =
     (if length buf < CR_CC_FIXED + 1 then Err (Short (CR_CC_FIXED + 1) (length buf))
      else and_then (index buf 0) (\<lambda>b0.
        let li = unat b0
        in if length buf < li + 1 then Err (Short (li + 1) (length buf))
           else and_then (index buf 1) (\<lambda>code.
             and_then (slice_from buf 1) (\<lambda>fixed.
               and_then (advance 1 fixed) (\<lambda>fixed.
                 and_then (get_u16 fixed) (\<lambda>(_, fixed).
                   and_then (get_u16 fixed) (\<lambda>(_, fixed).
                     and_then (get_u8 fixed) (\<lambda>(_, fixed).
                       and_then (slice buf (1 + CR_CC_FIXED) (1 + li)) (\<lambda>body.
                         Ok (body, code))))))))))"

definition connection_request_decode :: "bytes \<Rightarrow> connection_request result" where
  "connection_request_decode buf =
     and_then (split_cr_cc buf) (\<lambda>(body, code).
       if code \<noteq> TPDU_CR then Err (Protocol ''not an X.224 Connection Request'')
       else and_then (take_cookie body) (\<lambda>(cookie, body).
         if body \<noteq> [] then
           and_then (neg_request_read body) (\<lambda>(neg, _).
             Ok \<lparr>cr_cookie = cookie, cr_nego = Some neg\<rparr>)
         else Ok \<lparr>cr_cookie = cookie, cr_nego = None\<rparr>))"

definition connection_confirm_encode :: "connection_confirm \<Rightarrow> bytes" where
  "connection_confirm_encode cc =
     (let neg_len = (case cc_nego cc of None \<Rightarrow> 0 | Some _ \<Rightarrow> NEG_SIZE);
          li = CR_CC_FIXED + neg_len
      in put_u8 (of_nat li) @ put_u8 TPDU_CC @ put_u16 0 @ put_u16 0 @ put_u8 0
           @ (case cc_nego cc of None \<Rightarrow> [] | Some neg \<Rightarrow> neg_response_write neg))"

definition connection_confirm_decode :: "bytes \<Rightarrow> connection_confirm result" where
  "connection_confirm_decode buf =
     and_then (split_cr_cc buf) (\<lambda>(body, code).
       if code \<noteq> TPDU_CC then Err (Protocol ''not an X.224 Connection Confirm'')
       else if body \<noteq> [] then
         and_then (neg_response_read body) (\<lambda>(neg, _). Ok \<lparr>cc_nego = Some neg\<rparr>)
       else Ok \<lparr>cc_nego = None\<rparr>)"

section \<open>The Data TPDU\<close>

definition wrap_data :: "bytes \<Rightarrow> bytes" where
  "wrap_data payload = DATA_HEADER @ payload"

definition unwrap_data :: "bytes \<Rightarrow> bytes result" where
  "unwrap_data buf =
     (if length buf < length DATA_HEADER then Err (Short (length DATA_HEADER) (length buf))
      else and_then (index buf 1) (\<lambda>code.
        if code \<noteq> TPDU_DT then Err (Protocol ''not an X.224 Data TPDU'')
        else and_then (index buf 0) (\<lambda>li. slice_from buf (unat li + 1))))"

section \<open>Facts about the pieces\<close>

lemma cookie_prefix_bytes:
  "cookie_prefix = [67, 111, 111, 107, 105, 101, 58, 32, 109, 115, 116, 115, 104, 97, 115, 104, 61]"
  by (simp add: cookie_prefix_def into_bytes_def rstr_def utf8_char_def)

lemma length_cookie_prefix [simp]: "length cookie_prefix = 17"
  by (simp add: cookie_prefix_bytes)

lemma length_cookie_line: "length (cookie_line c) = 19 + length (into_bytes c)"
  by (simp add: cookie_line_def)

lemma find_crlf_terminated:
  "find_crlf xs = None \<Longrightarrow> find_crlf (xs @ 13 # 10 # r) = Some (length xs)"
  by (induction xs rule: find_crlf.induct) (auto split: if_splits)

lemma find_crlf_bound: "find_crlf b = Some i \<Longrightarrow> i + 2 \<le> length b"
  by (induction b arbitrary: i rule: find_crlf.induct) (auto split: if_splits)

lemma find_crlf_at: "find_crlf b = Some i \<Longrightarrow> b ! i = 13 \<and> b ! (i + 1) = 10"
  by (induction b arbitrary: i rule: find_crlf.induct) (auto split: if_splits)

lemma find_crlf_after_prefix:
  assumes "starts_with b cookie_prefix" and "find_crlf b = Some i"
  shows "17 \<le> i"
proof -
  obtain t where b: "b = cookie_prefix @ t"
    using assms(1) unfolding starts_with_def by (metis append_take_drop_id)
  show ?thesis
    using assms(2) unfolding b cookie_prefix_bytes by (cases t) auto
qed

lemma find_crlf_prefix: "find_crlf xs = None \<Longrightarrow> find_crlf (cookie_prefix @ xs) = None"
  by (cases xs) (simp_all add: cookie_prefix_bytes)

lemma take_cookie_line:
  assumes "list_all scalar c" and "find_crlf (into_bytes c) = None"
  shows "take_cookie (cookie_line c @ r) = Ok (Some c, r)"
proof -
  have "find_crlf (cookie_line c @ r) = Some (17 + length (into_bytes c))"
    using find_crlf_terminated [OF find_crlf_prefix [OF assms(2)], of r]
    by (simp add: cookie_line_def)
  moreover have "starts_with (cookie_line c @ r) cookie_prefix"
    by (simp add: starts_with_def cookie_line_def)
  ultimately show ?thesis
    using assms(1)
    by (simp add: take_cookie_def cookie_line_def from_utf8_lossy_into_bytes)
qed

lemma take_cookie_nego: "take_cookie (neg_request_write n @ r) = Ok (None, neg_request_write n @ r)"
  by (simp add: take_cookie_def starts_with_def cookie_prefix_bytes neg_request_write_def
      put_u8_def nego_consts)

lemma take_cookie_Nil [simp]: "take_cookie [] = Ok (None, [])"
  by (simp add: take_cookie_def starts_with_def cookie_prefix_bytes)

lemma take_cookie_no_panic [no_panic]: "take_cookie b \<noteq> Panic"
proof (cases "starts_with b cookie_prefix")
  case True
  then show ?thesis
    by (auto simp: take_cookie_def not_less split: option.splits
        dest: find_crlf_bound find_crlf_after_prefix)
qed (simp add: take_cookie_def)

lemma split_cr_cc_frame:
  assumes "unat li = 6 + length body"
  shows "split_cr_cc (put_u8 li @ put_u8 code @ put_u16 0 @ put_u16 0 @ put_u8 0 @ body)
    = Ok (body, code)"
  using assms by (simp add: split_cr_cc_def CR_CC_FIXED_def put_u8_def put_u16_def advance_def)

lemma seven_bytes: "7 \<le> length (b :: bytes) \<Longrightarrow> \<exists>t u v w x y z r. b = t # u # v # w # x # y # z # r"
  by (auto simp: numeral_eq_Suc Suc_le_length_iff)

lemma split_cr_cc_Panic_iff:
  "split_cr_cc buf = Panic \<longleftrightarrow> 7 \<le> length buf \<and> unat (hd buf) < 6"
proof (cases "length buf < 7")
  case True
  then show ?thesis by (simp add: split_cr_cc_def CR_CC_FIXED_def)
next
  case False
  then obtain a b c d e f g r where "buf = a # b # c # d # e # f # g # r"
    using seven_bytes [of buf] by auto
  then show ?thesis
    by (auto simp: split_cr_cc_def CR_CC_FIXED_def advance_def Let_def)
qed

lemma connection_confirm_roundtrip:
  "connection_confirm_decode (connection_confirm_encode cc) = Ok cc"
proof (cases "cc_nego cc")
  case None
  then show ?thesis
    using split_cr_cc_frame [of 6 "[]" TPDU_CC]
    by (simp add: connection_confirm_decode_def connection_confirm_encode_def x224_consts)
next
  case (Some n)
  have "connection_confirm_encode cc =
      put_u8 14 @ put_u8 TPDU_CC @ put_u16 0 @ put_u16 0 @ put_u8 0 @ neg_response_write n"
    using Some by (simp add: connection_confirm_encode_def x224_consts nego_consts)
  moreover have "neg_response_write n \<noteq> []" using neg_response_length [of n] by force
  ultimately show ?thesis
    using Some split_cr_cc_frame [of 14 "neg_response_write n" TPDU_CC]
      neg_response_read_write [of n "[]"]
    by (cases cc) (auto simp: connection_confirm_decode_def)
qed

lemma connection_request_roundtrip:
  assumes "case cr_cookie cr of None \<Rightarrow> True | Some c \<Rightarrow>
      list_all scalar c \<and> find_crlf (into_bytes c) = None \<and> length (into_bytes c) < 220"
  shows "connection_request_decode (connection_request_encode cr) = Ok cr"
proof -
  let ?cookie = "case cr_cookie cr of None \<Rightarrow> [] | Some c \<Rightarrow> cookie_line c"
  let ?neg = "case cr_nego cr of None \<Rightarrow> [] | Some n \<Rightarrow> neg_request_write n"
  let ?li = "6 + length (?cookie @ ?neg)"
  have "?li < 256"
    using assms by (auto simp: length_cookie_line split: option.splits)
  then have "unat (of_nat ?li :: u8) = ?li" by (rule unat_of_nat_u8)
  moreover have "connection_request_encode cr =
      put_u8 (of_nat ?li) @ put_u8 TPDU_CR @ put_u16 0 @ put_u16 0 @ put_u8 0 @ (?cookie @ ?neg)"
    by (simp add: connection_request_encode_def Let_def CR_CC_FIXED_def NEG_SIZE_def split: option.splits)
  ultimately have frame: "split_cr_cc (connection_request_encode cr) = Ok (?cookie @ ?neg, TPDU_CR)"
    by (simp only: split_cr_cc_frame)
  have "neg_request_write n \<noteq> []" for n using neg_request_length [of n] by force
  moreover have "take_cookie (?cookie @ ?neg) = Ok (cr_cookie cr, ?neg)"
    using assms take_cookie_line take_cookie_line [where r = "[]"] take_cookie_nego [of _ "[]"]
    by (cases "cr_cookie cr"; cases "cr_nego cr") auto
  moreover have "neg_request_read (neg_request_write n) = Ok (n, [])" for n
    using neg_request_read_write [of n "[]"] by simp
  ultimately show ?thesis
    unfolding connection_request_decode_def frame
    by (cases "cr_nego cr") (simp_all add: connection_request.equality)
qed

lemma length_connection_confirm: "length (connection_confirm_encode cc) \<le> 15"
  by (cases "cc_nego cc")
    (auto simp: connection_confirm_encode_def Let_def)

end
