(* ===== verification/Der.thy ===== *)
theory Der
  imports Ber
begin

text \<open>
  The DER subset of CredSSP (\<open>src/nla/der.rs\<close>). A \<open>Reader\<close> is the unread part of its
  slice. The encoders use the digit loop of \<open>Ber\<close>; the decoder bounds the length of a length
  to four octets, so a value of \<open>2 ^ 32\<close> bytes or more is written but never read back.
\<close>

definition TAG_INTEGER :: u8 where "TAG_INTEGER = 0x02"
definition TAG_OCTET_STRING :: u8 where "TAG_OCTET_STRING = 0x04"
definition TAG_SEQUENCE :: u8 where "TAG_SEQUENCE = 0x30"

lemmas der_tags = TAG_INTEGER_def TAG_OCTET_STRING_def TAG_SEQUENCE_def

definition context_tag :: "u8 \<Rightarrow> u8" where
  "context_tag n = 0xA0 + n"

definition encode_len :: "nat \<Rightarrow> bytes" where
  "encode_len len =
     (if len < 0x80 then [of_nat len]
      else
        (let bs = be_insert_loop len []
         in (0x80 OR of_nat (length bs)) # bs))"

definition tlv :: "u8 \<Rightarrow> bytes \<Rightarrow> bytes" where
  "tlv tag v = tag # encode_len (length v) @ v"

definition der_integer :: "u64 \<Rightarrow> bytes" where
  "der_integer v =
     (if v = 0 then tlv TAG_INTEGER [0]
      else
        (let bs = be_insert_loop (unat v) [];
             bs = (if hd bs AND 0x80 \<noteq> 0 then 0x00 # bs else bs)
         in tlv TAG_INTEGER bs))"

definition der_octet_string :: "bytes \<Rightarrow> bytes" where
  "der_octet_string bs = tlv TAG_OCTET_STRING bs"

definition der_sequence :: "bytes \<Rightarrow> bytes" where
  "der_sequence contents = tlv TAG_SEQUENCE contents"

definition der_context :: "u8 \<Rightarrow> bytes \<Rightarrow> bytes" where
  "der_context n contents = tlv (context_tag n) contents"

definition decode_len :: "bytes \<Rightarrow> (nat \<times> nat) result" where
  "decode_len buf =
     (if buf = [] then Err (Short 1 0)
      else and_then (index buf 0) (\<lambda>first.
        if unat first < 0x80 then Ok (unat first, 1)
        else
          (let n = unat (first AND 0x7f)
           in if n = 0 \<or> 4 < n \<or> length buf < 1 + n then Err (Protocol ''bad DER length'')
              else and_then (slice buf 1 (1 + n)) (\<lambda>bs. Ok (be_fold 64 bs, 1 + n)))))"

definition read_tlv :: "bytes \<Rightarrow> ((u8 \<times> bytes) \<times> bytes) result" where
  "read_tlv buf =
     (if length buf < 2 then Err (Short 2 (length buf))
      else and_then (index buf 0) (\<lambda>tag.
        and_then (slice_from buf 1) (\<lambda>t.
          and_then (decode_len t) (\<lambda>(len, header).
            let start = 1 + header; end_ix = start + len
            in if length buf < end_ix then Err (Short end_ix (length buf))
               else and_then (slice buf start end_ix) (\<lambda>v.
                 and_then (slice_from buf end_ix) (\<lambda>rest. Ok ((tag, v), rest)))))))"

definition der_expect :: "u8 \<Rightarrow> bytes \<Rightarrow> (bytes \<times> bytes) result" where
  "der_expect tag buf =
     and_then (read_tlv buf) (\<lambda>((t, v), rest).
       if t \<noteq> tag then Err (Protocol ''unexpected DER tag'') else Ok (v, rest))"

definition der_read_integer :: "bytes \<Rightarrow> (u64 \<times> bytes) result" where
  "der_read_integer buf =
     and_then (der_expect TAG_INTEGER buf) (\<lambda>(v, rest). Ok (of_nat (be_fold 64 v), rest))"

section \<open>Round trips\<close>

lemma decode_len_roundtrip:
  assumes "n < 2 ^ 32"
  shows "decode_len (encode_len n @ r) = Ok (n, length (encode_len n))"
proof (cases "n < 128")
  case True
  then show ?thesis by (simp add: decode_len_def encode_len_def)
next
  case False
  let ?bs = "be_insert_loop n []"
  have k: "length ?bs \<le> 4" using assms by (intro be_insert_loop_length) simp
  then have "length ?bs \<le> 8" by simp
  note byte = long_length_byte [OF this]
  have "?bs \<noteq> []" using False by (intro be_insert_loop_nonempty) simp
  moreover have "be_fold 64 ?bs = n" using assms by (intro be_fold_insert_loop) simp
  ultimately show ?thesis
    using False byte k by (simp add: decode_len_def encode_len_def Let_def)
qed

lemma encode_len_nonempty [simp]: "encode_len n \<noteq> []"
  by (simp add: encode_len_def Let_def)

lemma length_encode_len: "n < 2 ^ 32 \<Longrightarrow> length (encode_len n) \<le> 5"
  using be_insert_loop_length [of n 4] by (simp add: encode_len_def Let_def)

lemma length_tlv: "length v < 2 ^ 32 \<Longrightarrow> length (tlv tag v) \<le> length v + 6"
  using length_encode_len [of "length v"] by (simp add: tlv_def)

lemma read_tlv_roundtrip [simp, parse_simps]:
  assumes "length v < 2 ^ 32"
  shows "read_tlv (tlv tag v @ r) = Ok ((tag, v), r)"
proof -
  have "decode_len (encode_len (length v) @ v @ r) = Ok (length v, length (encode_len (length v)))"
    using decode_len_roundtrip [OF assms] by simp
  moreover have "0 < length (encode_len (length v))" by simp
  ultimately show ?thesis by (simp add: read_tlv_def tlv_def Let_def)
qed

lemma der_expect_roundtrip [simp, parse_simps]:
  "length v < 2 ^ 32 \<Longrightarrow> der_expect tag (tlv tag v @ r) = Ok (v, r)"
  by (simp add: der_expect_def)

lemma read_tlv_roundtrip_nil [simp, parse_simps]:
  "length v < 2 ^ 32 \<Longrightarrow> read_tlv (tlv tag v) = Ok ((tag, v), [])"
  using read_tlv_roundtrip [of v tag "[]"] by simp

lemma der_expect_roundtrip_nil [simp, parse_simps]:
  "length v < 2 ^ 32 \<Longrightarrow> der_expect tag (tlv tag v) = Ok (v, [])"
  using der_expect_roundtrip [of v tag "[]"] by simp

lemma u64_bound: "unat (w :: u64) < 2 ^ 64"
  using unsigned_less [of w] by simp

lemma der_integer_contents:
  "\<exists>bs. der_integer v = tlv TAG_INTEGER bs \<and> be_fold 64 bs = unat v \<and> length bs \<le> 9"
proof (cases "v = 0")
  case True
  then show ?thesis by (intro exI [of _ "[0]"]) (simp add: der_integer_def be_fold_value)
next
  case False
  let ?bs = "be_insert_loop (unat v) []"
  have "be_fold 64 ?bs = unat v"
    using u64_bound [of v] by (rule be_fold_insert_loop)
  moreover have "length ?bs \<le> 8"
    using u64_bound [of v] by (intro be_insert_loop_length) simp
  ultimately show ?thesis using False by (auto simp: der_integer_def Let_def be_fold_zero)
qed

lemma der_read_integer_roundtrip [simp, parse_simps]:
  "der_read_integer (der_integer v @ r) = Ok (v, r)"
proof -
  obtain bs where "der_integer v = tlv TAG_INTEGER bs" "be_fold 64 bs = unat v" "length bs \<le> 9"
    using der_integer_contents by blast
  then show ?thesis by (simp add: der_read_integer_def)
qed

lemma der_read_integer_roundtrip_nil [simp, parse_simps]:
  "der_read_integer (der_integer v) = Ok (v, [])"
  using der_read_integer_roundtrip [of v "[]"] by simp

lemma length_der_integer: "length (der_integer v) \<le> 15"
proof -
  obtain bs where bs: "der_integer v = tlv TAG_INTEGER bs" "length bs \<le> 9"
    using der_integer_contents by blast
  then show ?thesis using length_tlv [of bs TAG_INTEGER] by simp
qed

section \<open>The reader never panics and always advances\<close>

lemma decode_len_no_panic [no_panic]: "decode_len buf \<noteq> Panic"
  by (cases buf) (auto simp: decode_len_def Let_def)

lemma decode_len_range: "decode_len buf = Ok (n, h) \<Longrightarrow> 1 \<le> h \<and> h \<le> length buf"
  by (cases buf) (auto simp: decode_len_def Let_def and_then_eq_Ok split: if_splits)

lemma read_tlv_no_panic [no_panic]: "read_tlv buf \<noteq> Panic"
  by (auto simp: read_tlv_def no_panic Let_def not_less)

lemma der_expect_no_panic [no_panic]: "der_expect tag buf \<noteq> Panic"
  by (auto simp: der_expect_def no_panic)

lemma der_read_integer_no_panic [no_panic]: "der_read_integer buf \<noteq> Panic"
  by (auto simp: der_read_integer_def no_panic)

lemma read_tlv_shrinks: "read_tlv buf = Ok (x, rest) \<Longrightarrow> length rest + 2 \<le> length buf"
  by (auto simp: read_tlv_def and_then_eq_Ok Let_def split: if_splits dest!: decode_len_range)

end
