(* ===== verification/Cert.thy ===== *)
theory Cert
  imports Der
begin

text \<open>
  The server's public key out of its X.509 certificate (\<open>src/cert.rs\<close>). The lemmas show that
  the key of a certificate laid out as X.509 prescribes is found with and without the optional
  version field, whatever the other fields hold, and that no input panics.
\<close>

definition TAG_BIT_STRING :: u8 where "TAG_BIT_STRING = 0x03"

text \<open>The loop \<open>for _ in 0..skip { r.read_tlv()?; }\<close>.\<close>

fun skip_tlvs :: "nat \<Rightarrow> bytes \<Rightarrow> bytes result" where
  "skip_tlvs 0 r = Ok r"
| "skip_tlvs (Suc n) r = and_then (read_tlv r) (\<lambda>(_, r). skip_tlvs n r)"

definition subject_public_key :: "bytes \<Rightarrow> bytes result" where
  "subject_public_key cert_der =
     and_then (der_expect TAG_SEQUENCE cert_der) (\<lambda>(certificate, _).
       and_then (der_expect TAG_SEQUENCE certificate) (\<lambda>(tbs, _).
         and_then (read_tlv tbs) (\<lambda>((first_tag, _), r).
           let skip = (if first_tag = context_tag 0 then 5 else 4)
           in and_then (skip_tlvs skip r) (\<lambda>r.
             and_then (der_expect TAG_SEQUENCE r) (\<lambda>(spki, _).
               and_then (der_expect TAG_SEQUENCE spki) (\<lambda>(_, sr).
                 and_then (der_expect TAG_BIT_STRING sr) (\<lambda>(bit_string, _).
                   if bit_string = [] then Err (Protocol ''empty subjectPublicKey'')
                   else slice_from bit_string 1)))))))"

section \<open>X.509 certificates\<close>

text \<open>
  The layout the parser walks: an optional version, five fields with arbitrary tags and
  values (the first one, the serial number, not tagged as a version), the key, and anything
  after it.
\<close>

record x509 =
  x_version :: "bytes option"
  x_fields :: "(u8 \<times> bytes) list"
  x_algorithm :: bytes
  x_unused_bits :: u8
  x_key :: bytes
  x_tbs_rest :: bytes
  x_signature :: bytes

definition tlvs :: "(u8 \<times> bytes) list \<Rightarrow> bytes" where
  "tlvs fs = concat (map (\<lambda>(t, v). tlv t v) fs)"

definition x509_spki :: "x509 \<Rightarrow> bytes" where
  "x509_spki x = tlv TAG_SEQUENCE (x_algorithm x) @ tlv TAG_BIT_STRING (x_unused_bits x # x_key x)"

definition x509_tbs :: "x509 \<Rightarrow> bytes" where
  "x509_tbs x =
     (case x_version x of None \<Rightarrow> [] | Some v \<Rightarrow> tlv (context_tag 0) v)
       @ tlvs (x_fields x) @ tlv TAG_SEQUENCE (x509_spki x) @ x_tbs_rest x"

definition x509_encode :: "x509 \<Rightarrow> bytes" where
  "x509_encode x = tlv TAG_SEQUENCE (tlv TAG_SEQUENCE (x509_tbs x) @ x_signature x)"

definition x509_ok :: "x509 \<Rightarrow> bool" where
  "x509_ok x \<longleftrightarrow>
     length (x_fields x) = 5 \<and> fst (hd (x_fields x)) \<noteq> context_tag 0 \<and>
     length (x509_encode x) < 2 ^ 32"

lemma tlv_length_ge: "length v \<le> length (tlv t v)"
  by (simp add: tlv_def)

lemma tlvs_value_le: "f \<in> set fs \<Longrightarrow> length (snd f) \<le> length (tlvs fs)"
  by (induction fs) (auto simp: tlvs_def tlv_def)

lemma skip_tlvs_app:
  "list_all (\<lambda>(t, v). length v < 2 ^ 32) fs \<Longrightarrow> skip_tlvs (length fs) (tlvs fs @ r) = Ok r"
  by (induction fs) (auto simp: tlvs_def)

lemma x509_sizes:
  assumes "length (x509_encode x) < 2 ^ 32"
  shows "length (tlv TAG_SEQUENCE (x509_tbs x) @ x_signature x) < 2 ^ 32"
    "length (x509_tbs x) < 2 ^ 32" "length (x509_spki x) < 2 ^ 32"
    "length (x_algorithm x) < 2 ^ 32" "length (x_unused_bits x # x_key x) < 2 ^ 32"
    "list_all (\<lambda>(t, v). length v < 2 ^ 32) (x_fields x)"
    "x_version x = Some v \<Longrightarrow> length v < 2 ^ 32"
proof -
  show 1: "length (tlv TAG_SEQUENCE (x509_tbs x) @ x_signature x) < 2 ^ 32"
    using assms by (simp add: x509_encode_def tlv_def)
  then show 2: "length (x509_tbs x) < 2 ^ 32" by (simp add: tlv_def)
  then show 3: "length (x509_spki x) < 2 ^ 32" by (simp add: x509_tbs_def tlv_def)
  then show "length (x_algorithm x) < 2 ^ 32" "length (x_unused_bits x # x_key x) < 2 ^ 32"
    by (simp_all add: x509_spki_def tlv_def)
  have "length (tlvs (x_fields x)) < 2 ^ 32" using 2 by (simp add: x509_tbs_def)
  then show "list_all (\<lambda>(t, v). length v < 2 ^ 32) (x_fields x)"
    unfolding list_all_iff by (force dest: tlvs_value_le)
  show "length v < 2 ^ 32" if "x_version x = Some v"
    using 2 that by (simp add: x509_tbs_def tlv_def)
qed

lemma subject_public_key_encode:
  assumes "x509_ok x"
  shows "subject_public_key (x509_encode x @ rest) = Ok (x_key x)"
proof -
  obtain f fs where fs: "x_fields x = f # fs" "length fs = 4" "fst f \<noteq> context_tag 0"
    using assms by (cases "x_fields x") (auto simp: x509_ok_def)
  note size = x509_sizes [of x]
  have len: "length (x509_encode x) < 2 ^ 32" using assms by (simp add: x509_ok_def)
  let ?rest = "tlv TAG_SEQUENCE (x509_spki x) @ x_tbs_rest x"
  have skip5: "skip_tlvs 5 (tlvs (x_fields x) @ ?rest) = Ok ?rest"
    using skip_tlvs_app [OF size(6) [OF len], of ?rest] fs by simp
  have skip4: "skip_tlvs 4 (tlvs fs @ ?rest) = Ok ?rest"
    using skip_tlvs_app [of fs ?rest] size(6) [OF len] fs by simp
  have key: "and_then (der_expect TAG_SEQUENCE ?rest) (\<lambda>(spki, _).
      and_then (der_expect TAG_SEQUENCE spki) (\<lambda>(_, sr).
        and_then (der_expect TAG_BIT_STRING sr) (\<lambda>(bit_string, _).
          if bit_string = [] then Err (Protocol ''empty subjectPublicKey'')
          else slice_from bit_string 1))) = Ok (x_key x)"
    using size(3-5) [OF len] by (simp add: x509_spki_def)
  show ?thesis
  proof (cases "x_version x")
    case None
    have f: "tlvs (x_fields x) = tlv (fst f) (snd f) @ tlvs fs"
      by (simp add: fs tlvs_def split_beta)
    have "length (snd f) < 2 ^ 32" using size(6) [OF len] fs by (cases f) simp
    then show ?thesis
      using size(1,2) [OF len] None fs(3) skip4 key
      by (cases f) (simp add: subject_public_key_def x509_encode_def x509_tbs_def f)
  next
    case (Some v)
    then show ?thesis
      using size(1,2) [OF len] size(7) [OF len Some] skip5 key
      by (simp add: subject_public_key_def x509_encode_def x509_tbs_def)
  qed
qed

lemma skip_tlvs_no_panic [no_panic]: "skip_tlvs n r \<noteq> Panic"
  by (induction n arbitrary: r) (auto simp: no_panic)

lemma subject_public_key_no_panic [no_panic]: "subject_public_key c \<noteq> Panic"
  by (auto simp: subject_public_key_def no_panic Let_def Suc_le_eq)

end
