(* ===== verification/Tls.thy ===== *)
theory Tls
  imports Connection Tpkt X224 Cert
begin

text \<open>
  The live transport (\<open>src/tls.rs\<close>): TPKT framing over a byte stream, the X.224 security
  negotiation, the slow-path/fast-path frame reader and the DER reader of the CredSSP phase.
  The socket and the TLS record layer are not modelled: the definitions take the stream's
  \<open>read_exact\<close> (\<open>rd\<close>) and \<open>write_all\<close> followed by \<open>flush\<close> (\<open>wr\<close>) as parameters, whose
  documented behaviour is the interface \<open>byte_stream\<close>.
\<close>

section \<open>Framing\<close>

definition write_tpkt :: "(bytes \<Rightarrow> ('s, unit) io) \<Rightarrow> bytes \<Rightarrow> ('s, unit) io" where
  "write_tpkt wr payload = io_bind (io_lift (tpkt_encode payload)) wr"

definition read_tpkt :: "(nat \<Rightarrow> ('s, bytes) io) \<Rightarrow> ('s, bytes) io" where
  "read_tpkt rd =
     io_bind (rd TPKT_HEADER_LEN) (\<lambda>header.
       io_bind (io_lift (peek_total_len header)) (\<lambda>total.
         io_bind (rd (total - TPKT_HEADER_LEN)) (\<lambda>rest.
           io_lift (tpkt_decode (header @ rest)))))"

definition tls_send :: "(bytes \<Rightarrow> ('s, unit) io) \<Rightarrow> bytes \<Rightarrow> ('s, unit) io" where
  "tls_send wr mcs_pdu = write_tpkt wr (wrap_data mcs_pdu)"

definition tls_recv :: "(nat \<Rightarrow> ('s, bytes) io) \<Rightarrow> ('s, bytes) io" where
  "tls_recv rd = io_bind (read_tpkt rd) (\<lambda>payload. io_lift (unwrap_data payload))"

section \<open>Post-connection frames\<close>

datatype frame = SlowPath bytes | FastPath bytes

definition read_slow_path :: "(nat \<Rightarrow> ('s, bytes) io) \<Rightarrow> ('s, frame) io" where
  "read_slow_path rd =
     io_bind (rd 3) (\<lambda>rest.
       io_bind (io_lift (index rest 1)) (\<lambda>hi.
         io_bind (io_lift (index rest 2)) (\<lambda>lo.
           let total = unat (u16_from_be_bytes hi lo)
           in io_bind (rd (total - 4)) (\<lambda>body.
                io_bind (io_lift (unwrap_data body)) (\<lambda>p. io_ok (SlowPath p))))))"

text \<open>The one- or two-byte length of a fast-path PDU: the bytes read, and the total.\<close>

definition read_fast_length :: "(nat \<Rightarrow> ('s, bytes) io) \<Rightarrow> ('s, bytes \<times> nat) io" where
  "read_fast_length rd =
     io_bind (rd 1) (\<lambda>lb.
       io_bind (io_lift (index lb 0)) (\<lambda>l0.
         if l0 AND 0x80 = 0 then io_ok ([l0], unat l0)
         else io_bind (rd 1) (\<lambda>lb2.
           io_bind (io_lift (index lb2 0)) (\<lambda>l1.
             io_ok ([l0, l1], push_bit 8 (unat (l0 AND 0x7f)) OR unat l1)))))"

definition read_fast_path :: "(nat \<Rightarrow> ('s, bytes) io) \<Rightarrow> u8 \<Rightarrow> ('s, frame) io" where
  "read_fast_path rd first =
     io_bind (read_fast_length rd) (\<lambda>(length_bytes, total).
       let header_len = 1 + length length_bytes
       in io_bind (rd (total - header_len)) (\<lambda>body.
            io_ok (FastPath (first # length_bytes @ body))))"

definition read_frame_body :: "(nat \<Rightarrow> ('s, bytes) io) \<Rightarrow> u8 \<Rightarrow> ('s, frame) io" where
  "read_frame_body rd first =
     (if first = TPKT_VERSION then read_slow_path rd else read_fast_path rd first)"

definition read_frame :: "(nat \<Rightarrow> ('s, bytes) io) \<Rightarrow> ('s, frame) io" where
  "read_frame rd =
     io_bind (rd 1) (\<lambda>first. io_bind (io_lift (index first 0)) (read_frame_body rd))"

text \<open>
  \<open>poll_frame\<close>: the single \<open>read\<close> under a timeout is a parameter, with the outcomes the code
  distinguishes.
\<close>

datatype read_outcome = Got u8 | Closed | TimedOut | Failed string

definition poll_frame ::
    "(nat \<Rightarrow> ('s, bytes) io) \<Rightarrow> ('s, read_outcome) io \<Rightarrow> ('s, frame option) io" where
  "poll_frame rd rd1 =
     io_bind rd1 (\<lambda>got.
       case got of
         Closed \<Rightarrow> io_lift (Err (Io ''UnexpectedEof''))
       | Got first \<Rightarrow> io_bind (read_frame_body rd first) (\<lambda>f. io_ok (Some f))
       | TimedOut \<Rightarrow> io_ok None
       | Failed kind \<Rightarrow> io_lift (Err (Io kind)))"

section \<open>DER values off the stream\<close>

text \<open>
  A peer can announce up to 127 length octets, of which the last eight count. \<open>vec![0u8; n]\<close>
  panics when \<open>n\<close> exceeds \<open>isize::MAX\<close>.
\<close>

definition read_der_tlv :: "(nat \<Rightarrow> ('s, bytes) io) \<Rightarrow> ('s, bytes) io" where
  "read_der_tlv rd =
     io_bind (rd 1) (\<lambda>tag.
       io_bind (rd 1) (\<lambda>first.
         io_bind (io_lift (index first 0)) (\<lambda>f0.
           io_bind
             (if f0 AND 0x80 = 0 then io_ok (tag @ first, unat f0)
              else io_bind (rd (unat (f0 AND 0x7f))) (\<lambda>len_bytes.
                io_ok (tag @ first @ len_bytes, be_fold 64 len_bytes)))
             (\<lambda>(out, content_len).
               if 2 ^ 63 \<le> content_len then io_lift Panic
               else io_bind (rd content_len) (\<lambda>content. io_ok (out @ content))))))"

text \<open>What the NLA phase uses of the transport: \<open>write_raw\<close> writes all of its argument and flushes.\<close>

definition read_credssp :: "(nat \<Rightarrow> ('s, bytes) io) \<Rightarrow> ('s, bytes) io" where
  [simp]: "read_credssp rd = read_der_tlv rd"

definition write_raw :: "(bytes \<Rightarrow> ('s, unit) io) \<Rightarrow> bytes \<Rightarrow> ('s, unit) io" where
  [simp]: "write_raw wr data = wr data"

section \<open>Opening the connection\<close>

definition failure_error :: "u32 \<Rightarrow> error" where
  "failure_error code = NegotiationFailure (failure_reason code)"

definition selected_protocol :: "connection_confirm \<Rightarrow> u32 result" where
  "selected_protocol cc =
     (case cc_nego cc of
        Some (Selected _ protocol) \<Rightarrow> Ok protocol
      | Some (Failure code) \<Rightarrow> Err (failure_error code)
      | None \<Rightarrow> Ok PROTO_RDP)"

definition negotiate ::
    "(nat \<Rightarrow> ('s, bytes) io) \<Rightarrow> (bytes \<Rightarrow> ('s, unit) io) \<Rightarrow> u32 \<Rightarrow> rstring option \<Rightarrow> ('s, u32) io"
where
  "negotiate rd wr requested cookie =
     (let cr = \<lparr>cr_cookie = cookie, cr_nego = Some \<lparr>nr_flags = 0, nr_requested = requested\<rparr>\<rparr>
      in io_bind (write_tpkt wr (connection_request_encode cr)) (\<lambda>_.
         io_bind (read_tpkt rd) (\<lambda>cc_bytes.
         io_bind (io_lift (connection_confirm_decode cc_bytes)) (\<lambda>cc.
           io_lift (selected_protocol cc)))))"

text \<open>
  \<open>TlsTransport::connect\<close> after the socket is open: the negotiation, the TLS handshake (the
  parameter \<open>handshake\<close>, which yields the server's first certificate, if it sent one), and the
  key the server is bound to.
\<close>

definition tls_connect ::
    "(nat \<Rightarrow> ('s, bytes) io) \<Rightarrow> (bytes \<Rightarrow> ('s, unit) io) \<Rightarrow> ('s, bytes option) io \<Rightarrow> u32 \<Rightarrow>
     rstring option \<Rightarrow> ('s, u32 \<times> bytes) io" where
  "tls_connect rd wr handshake requested cookie =
     io_bind (negotiate rd wr requested cookie) (\<lambda>selected_protocol.
       io_bind handshake (\<lambda>cert.
         case cert of
           None \<Rightarrow> io_lift (Err (Protocol ''server presented no certificate''))
         | Some c \<Rightarrow>
             io_bind (io_lift (subject_public_key c)) (\<lambda>server_public_key.
               io_ok (selected_protocol, server_public_key))))"

section \<open>The byte stream interface\<close>

text \<open>
  A blocking duplex stream: \<open>pending\<close> is what the peer has sent and the client has not read
  (the peer closes after it), \<open>written\<close> what the client has written.
\<close>

locale byte_stream =
  fixes rd :: "nat \<Rightarrow> ('s, bytes) io"
    and wr :: "bytes \<Rightarrow> ('s, unit) io"
    and pending :: "'s \<Rightarrow> bytes"
    and written :: "'s \<Rightarrow> bytes"
  assumes rd_exact: "pending s = bs @ r \<Longrightarrow>
      \<exists>t. rd (length bs) s = (Ok bs, t) \<and> pending t = r \<and> written t = written s"
    and rd_eof: "length (pending s) < n \<Longrightarrow>
      \<exists>t. rd n s = (Err (Io ''UnexpectedEof''), t) \<and> written t = written s"
    and wr_all: "\<exists>t. wr bs s = (Ok (), t) \<and> pending t = pending s \<and> written t = written s @ bs"

text \<open>
  \<open>reads m ins res\<close>: from a stream whose pending bytes start with \<open>ins\<close>, \<open>m\<close> consumes exactly
  those, writes nothing and returns \<open>res\<close>.
\<close>

definition reads ::
    "('s \<Rightarrow> bytes) \<Rightarrow> ('s \<Rightarrow> bytes) \<Rightarrow> ('s, 'a) io \<Rightarrow> bytes \<Rightarrow> 'a result \<Rightarrow> bool" where
  "reads pending written m ins res \<longleftrightarrow>
     (\<forall>s r. pending s = ins @ r \<longrightarrow>
        (\<exists>t. m s = (res, t) \<and> pending t = r \<and> written t = written s))"

lemma reads_ok [intro]: "reads pending written (io_ok x) [] (Ok x)"
  by (auto simp: reads_def io_ok_def)

lemma reads_lift [intro]: "reads pending written (io_lift r) [] r"
  by (auto simp: reads_def io_lift_def)

lemma reads_bindI:
  assumes m: "reads pending written m i1 (Ok x)" and f: "reads pending written (f x) i2 r"
    and ins: "ins = i1 @ i2"
  shows "reads pending written (io_bind m f) ins r"
  unfolding reads_def
proof (intro allI impI)
  fix s q
  assume "pending s = ins @ q"
  then have "pending s = i1 @ (i2 @ q)" by (simp add: ins)
  then obtain t where t: "m s = (Ok x, t)" "pending t = i2 @ q" "written t = written s"
    using m unfolding reads_def by blast
  obtain u where "f x t = (r, u)" "pending u = q" "written u = written t"
    using f t(2) unfolding reads_def by blast
  with t show "\<exists>t. io_bind m f s = (r, t) \<and> pending t = q \<and> written t = written s" by simp
qed

lemma reads_lift_bind:
  "r = Ok x \<Longrightarrow> reads pending written (f x) ins q \<Longrightarrow>
   reads pending written (io_bind (io_lift r) f) ins q"
  by (rule reads_bindI [of _ _ "io_lift r" "[]"]) auto

definition tls_frame :: "bytes \<Rightarrow> bytes" where
  "tls_frame p = [3, 0] @ put_u16 (of_nat (length p + 7)) @ DATA_HEADER @ p"

definition tls_fits :: "bytes \<Rightarrow> bool" where
  "tls_fits p \<longleftrightarrow> length p + 7 \<le> 65535"

lemma tpkt_encode_wrap:
  "tls_fits p \<Longrightarrow> tpkt_encode (wrap_data p) = Ok (tls_frame p)"
  by (simp add: tls_fits_def wrap_data_def x224_consts tpkt_consts tpkt_encode_Ok tls_frame_def add.commute)

lemma unwrap_wrap: "unwrap_data (wrap_data p) = Ok p"
  by (simp add: unwrap_data_def wrap_data_def x224_consts)

context byte_stream
begin

lemma rd_reads: "length bs = n \<Longrightarrow> reads pending written (rd n) bs (Ok bs)"
  unfolding reads_def using rd_exact by blast

lemma rd_bind:
  "length bs = n \<Longrightarrow> reads pending written (f bs) ins r \<Longrightarrow> reads pending written (io_bind (rd n) f) (bs @ ins) r"
  by (rule reads_bindI [OF rd_reads]) auto

lemma read_tpkt_frame:
  assumes "unat n = length p + 4"
  shows "reads pending written (read_tpkt rd) (3 # 0 # put_u16 n @ p) (Ok p)"
proof -
  let ?h = "3 # 0 # put_u16 n"
  have peek: "peek_total_len ?h = Ok (unat n)"
    using peek_total_len_header [of n "[]"] assms by simp
  have dec: "tpkt_decode (?h @ p) = Ok p"
    using tpkt_decode_frame [OF assms, of "[]"] by simp
  have "reads pending written (read_tpkt rd) (?h @ p @ []) (Ok p)"
    unfolding read_tpkt_def
  proof (rule rd_bind [of ?h])
    show "length ?h = TPKT_HEADER_LEN" by (simp add: tpkt_consts)
    show "reads pending written (io_bind (io_lift (peek_total_len ?h)) (\<lambda>total.
        io_bind (rd (total - TPKT_HEADER_LEN)) (\<lambda>rest. io_lift (tpkt_decode (?h @ rest)))))
      (p @ []) (Ok p)"
    proof (rule reads_lift_bind [OF peek], rule rd_bind [of p])
      show "length p = unat n - TPKT_HEADER_LEN" using assms by (simp add: tpkt_consts)
      show "reads pending written (io_lift (tpkt_decode (?h @ p))) [] (Ok p)"
        unfolding dec by (rule reads_lift)
    qed
  qed
  then show ?thesis by simp
qed

lemma tls_recv_frame:
  assumes "tls_fits p"
  shows "reads pending written (tls_recv rd) (tls_frame p) (Ok p)"
proof -
  have "unat (of_nat (length p + 7) :: u16) = length (wrap_data p) + 4"
    using assms by (simp add: tls_fits_def wrap_data_def x224_consts del: of_nat_add)
  from read_tpkt_frame [OF this] have
    "reads pending written (read_tpkt rd) (tls_frame p) (Ok (wrap_data p))"
    by (simp add: tls_frame_def wrap_data_def x224_consts del: of_nat_add)
  then show ?thesis
    unfolding tls_recv_def
    by (rule reads_bindI) (auto simp: unwrap_wrap intro: reads_lift)
qed

lemma tls_send_frame:
  assumes "tls_fits p"
  shows "\<exists>t. tls_send wr p s = (Ok (), t) \<and> pending t = pending s \<and> written t = written s @ tls_frame p"
  using wr_all [of "tls_frame p" s] tpkt_encode_wrap [OF assms]
  by (simp add: tls_send_def write_tpkt_def)

text \<open>Announced lengths that exceed what the peer sends end in an error, never in a torn frame.\<close>

lemma read_tpkt_eof:
  assumes "length (pending s) < 4"
  shows "\<exists>t. read_tpkt rd s = (Err (Io ''UnexpectedEof''), t) \<and> written t = written s"
  using rd_eof [of s 4] assms by (auto simp: read_tpkt_def tpkt_consts)

end

section \<open>Frames, DER values and the negotiation read back\<close>

lemma u8_high_bit: "unat (w :: u8) < 128 \<Longrightarrow> (w OR 0x80) AND 0x80 \<noteq> 0 \<and> (w OR 0x80) AND 0x7f = w \<and> w AND 0x80 = 0"
proof -
  assume "unat w < 128"
  then obtain v where "w = v AND 0x7f" using u8_below_128 by metis
  then show ?thesis by (simp add: and.assoc bit.conj_disj_distrib2)
qed

text \<open>A fast-path PDU as a server frames it: header byte, one- or two-byte length, body.\<close>

definition fast_length :: "nat \<Rightarrow> bytes" where
  "fast_length n =
     (if n + 2 < 128 then [of_nat (n + 2)]
      else [of_nat ((n + 3) div 256) OR 0x80, of_nat ((n + 3) mod 256)])"

definition fast_frame :: "u8 \<Rightarrow> bytes \<Rightarrow> bytes" where
  "fast_frame first body = first # fast_length (length body) @ body"

definition cr_bytes :: "u32 \<Rightarrow> rstring option \<Rightarrow> bytes" where
  "cr_bytes requested cookie =
     connection_request_encode
       \<lparr>cr_cookie = cookie, cr_nego = Some \<lparr>nr_flags = 0, nr_requested = requested\<rparr>\<rparr>"

definition tpkt_bytes :: "bytes \<Rightarrow> bytes" where
  "tpkt_bytes p = 3 # 0 # put_u16 (of_nat (length p + 4)) @ p"

context byte_stream
begin

lemma read_fast_length_reads:
  assumes "n + 3 < 32768"
  shows "reads pending written (read_fast_length rd) (fast_length n)
    (Ok (fast_length n, n + 1 + length (fast_length n)))"
proof (cases "n + 2 < 128")
  case True
  then have n: "unat (of_nat (n + 2) :: u8) = n + 2" by (intro unat_of_nat_u8) simp
  then have b: "(of_nat (n + 2) :: u8) AND 0x80 = 0" using u8_high_bit True by fastforce
  have "reads pending written (read_fast_length rd) ([of_nat (n + 2)] @ [])
      (Ok ([of_nat (n + 2)], n + 2))"
    unfolding read_fast_length_def
    by (rule rd_bind, simp, rule reads_lift_bind [where x = "of_nat (n + 2)"])
      (use n b reads_ok in \<open>simp_all del: of_nat_add\<close>)
  then show ?thesis using True by (simp add: fast_length_def)
next
  case False
  let ?hi = "of_nat ((n + 3) div 256) :: u8" and ?lo = "of_nat ((n + 3) mod 256) :: u8"
  have hi: "unat ?hi = (n + 3) div 256" using assms by (intro unat_of_nat_u8) simp
  have lo: "unat ?lo = (n + 3) mod 256" by (intro unat_of_nat_u8) simp
  have "unat ?hi < 128" unfolding hi using assms by simp
  note bits = u8_high_bit [OF this]
  have val: "push_bit 8 (unat ?hi) OR unat ?lo = n + 3"
    unfolding hi lo by (subst shl8_or_nat) (simp, rule div_mult_mod_eq)
  have "reads pending written (read_fast_length rd) ([?hi OR 0x80] @ [?lo] @ [])
      (Ok ([?hi OR 0x80, ?lo], n + 3))"
    unfolding read_fast_length_def
  proof (rule rd_bind, simp, rule reads_lift_bind [where x = "?hi OR 0x80"], simp)
    show "reads pending written
      (if (?hi OR 0x80) AND 0x80 = 0 then io_ok ([?hi OR 0x80], unat (?hi OR 0x80))
       else io_bind (rd 1) (\<lambda>lb2. io_bind (io_lift (index lb2 0)) (\<lambda>l1.
         io_ok ([?hi OR 0x80, l1], push_bit 8 (unat ((?hi OR 0x80) AND 0x7f)) OR unat l1))))
      ([?lo] @ []) (Ok ([?hi OR 0x80, ?lo], n + 3))"
      unfolding if_not_P [OF conjunct1 [OF bits]] conjunct1 [OF conjunct2 [OF bits]]
      by (rule rd_bind, simp, rule reads_lift_bind [where x = ?lo], simp) (use val reads_ok in simp)
  qed
  moreover have "fast_length n = [?hi OR 0x80, ?lo]" using False by (simp add: fast_length_def)
  moreover have "n + 1 + length [?hi OR 0x80, ?lo] = n + 3" by simp
  ultimately show ?thesis by (simp only: append.simps)
qed

lemma read_frame_body_fast:
  assumes "length body + 3 < 32768" and "first \<noteq> 3"
  shows "reads pending written (read_frame_body rd first) (fast_length (length body) @ body)
    (Ok (FastPath (fast_frame first body)))"
proof -
  let ?l = "fast_length (length body)"
  have "reads pending written (read_frame_body rd first) (?l @ (body @ [])) (Ok (FastPath (first # ?l @ body)))"
    unfolding read_frame_body_def if_not_P [OF assms(2) [folded TPKT_VERSION_def]] read_fast_path_def
  proof (rule reads_bindI [OF read_fast_length_reads [OF assms(1)]], unfold split Let_def)
    show "reads pending written
      (io_bind (rd (length body + 1 + length ?l - (1 + length ?l)))
        (\<lambda>body. io_ok (FastPath (first # ?l @ body)))) (body @ []) (Ok (FastPath (first # ?l @ body)))"
      by (rule rd_bind) (auto intro: reads_ok)
  qed simp
  then show ?thesis by (simp add: fast_frame_def)
qed

lemma read_frame_fast:
  assumes "length body + 3 < 32768" and "first \<noteq> 3"
  shows "reads pending written (read_frame rd) (fast_frame first body)
    (Ok (FastPath (fast_frame first body)))"
proof -
  have "reads pending written (read_frame rd) ([first] @ (fast_length (length body) @ body))
      (Ok (FastPath (fast_frame first body)))"
    unfolding read_frame_def
    by (rule rd_bind, simp, rule reads_lift_bind [where x = first], simp)
      (rule read_frame_body_fast [OF assms])
  then show ?thesis by (simp add: fast_frame_def)
qed

lemma read_frame_slow:
  assumes "tls_fits p"
  shows "reads pending written (read_frame rd) (tls_frame p) (Ok (SlowPath p))"
proof -
  let ?n = "of_nat (length p + 7) :: u16"
  have n: "unat ?n = length p + 7" using assms by (intro unat_of_nat_u16) (simp add: tls_fits_def)
  have "reads pending written (read_frame rd) ([3] @ ((0 # put_u16 ?n) @ (wrap_data p @ [])))
      (Ok (SlowPath p))"
    unfolding read_frame_def
  proof (rule rd_bind, simp, rule reads_lift_bind [where x = 3], simp)
    show "reads pending written (read_frame_body rd 3) ((0 # put_u16 ?n) @ (wrap_data p @ []))
      (Ok (SlowPath p))"
      unfolding read_frame_body_def read_slow_path_def Let_def
      apply (simp only: tpkt_consts refl if_True)
      apply (rule rd_bind, simp)
      apply (rule reads_lift_bind [where x = "ucast (drop_bit 8 ?n)"], simp add: put_u16_def)
      apply (rule reads_lift_bind [where x = "ucast ?n"], simp add: put_u16_def)
      apply (rule rd_bind, simp add: u16_from_be_bytes_def n wrap_data_def x224_consts del: of_nat_add)
      apply (rule reads_lift_bind [OF unwrap_wrap])
      apply (rule reads_ok)
      done
  qed
  then show ?thesis by (simp add: tls_frame_def wrap_data_def)
qed

lemma read_der_tlv_reads:
  assumes "length v < 2 ^ 63"
  shows "reads pending written (read_der_tlv rd) (tlv tag v) (Ok (tlv tag v))"
proof -
  obtain first len where e: "encode_len (length v) = first # len"
    by (cases "encode_len (length v)") auto
  have len: "reads pending written
      (if first AND 0x80 = 0 then io_ok ([tag, first], unat first)
       else io_bind (rd (unat (first AND 0x7f))) (\<lambda>len_bytes.
         io_ok ([tag] @ [first] @ len_bytes, be_fold 64 len_bytes))) len
      (Ok (tag # first # len, length v))"
  proof (cases "length v < 128")
    case True
    then have "first = of_nat (length v)" "len = []" using e by (auto simp: encode_len_def)
    moreover have "unat (of_nat (length v) :: u8) = length v" using True by simp
    ultimately show ?thesis using u8_high_bit [of first] True reads_ok by auto
  next
    case False
    let ?bs = "be_insert_loop (length v) []"
    have eq: "first = 0x80 OR of_nat (length ?bs)" "len = ?bs"
      using e False by (auto simp: encode_len_def Let_def)
    have k: "length ?bs \<le> 8" using assms by (intro be_insert_loop_length) simp
    then have kk: "unat (of_nat (length ?bs) :: u8) = length ?bs" by simp
    have fold: "be_fold 64 ?bs = length v" using assms by (intro be_fold_insert_loop) simp
    have "first AND 0x80 \<noteq> 0" "unat (first AND 0x7f) = length ?bs"
      using u8_high_bit [of "of_nat (length ?bs)"] k kk by (auto simp: eq or.commute)
    then show ?thesis
      using rd_bind [of ?bs "length ?bs" "\<lambda>len_bytes. io_ok ([tag] @ [first] @ len_bytes, be_fold 64 len_bytes)" "[]"]
        reads_ok fold by (auto simp: eq(2))
  qed
  have "reads pending written (read_der_tlv rd) ([tag] @ ([first] @ (len @ (v @ []))))
      (Ok (tag # first # len @ v))"
    unfolding read_der_tlv_def
    apply (rule rd_bind, simp)
    apply (rule rd_bind, simp)
    apply (rule reads_lift_bind [where x = first], simp)
    apply (rule reads_bindI [where x = "(tag # first # len, length v)"], use len in simp)
    using assms rd_bind [of v "length v" "\<lambda>c. io_ok (tag # first # len @ c)" "[]"] reads_ok
    by auto
  then show ?thesis by (simp add: tlv_def e)
qed

lemma negotiate_reads:
  assumes "length (cr_bytes requested cookie) + 4 \<le> 65535"
    and "pending s = tpkt_bytes (connection_confirm_encode cc) @ r"
  shows "\<exists>t. negotiate rd wr requested cookie s = (selected_protocol cc, t) \<and> pending t = r \<and>
    written t = written s @ tpkt_bytes (cr_bytes requested cookie)"
proof -
  let ?cc = "connection_confirm_encode cc"
  have "unat (of_nat (length ?cc + 4) :: u16) = length ?cc + 4"
    using length_connection_confirm [of cc] by (intro unat_of_nat_u16) simp
  from read_tpkt_frame [OF this] have rt: "reads pending written (read_tpkt rd) (tpkt_bytes ?cc) (Ok ?cc)"
    by (simp add: tpkt_bytes_def)
  obtain t where t: "wr (tpkt_bytes (cr_bytes requested cookie)) s = (Ok (), t)" "pending t = pending s"
      "written t = written s @ tpkt_bytes (cr_bytes requested cookie)"
    using wr_all by blast
  have enc: "tpkt_encode (cr_bytes requested cookie) = Ok (tpkt_bytes (cr_bytes requested cookie))"
    using assms(1) by (simp add: tpkt_encode_Ok tpkt_consts tpkt_bytes_def)
  obtain u where "read_tpkt rd t = (Ok ?cc, u)" "pending u = r" "written u = written t"
    using rt t(2) assms(2) unfolding reads_def by metis
  with t enc show ?thesis
    by (auto simp: negotiate_def write_tpkt_def cr_bytes_def connection_confirm_roundtrip)
qed

end

section \<open>The TLS transport keeps the contract of \<open>PduTransport\<close>\<close>

text \<open>
  \<open>tls_ready w0 tail\<close>: the frames of the messages still to be received are pending, followed
  by \<open>tail\<close>; the frames of the messages sent follow \<open>w0\<close> in what has been written.
\<close>

definition tls_ready ::
    "('s \<Rightarrow> bytes) \<Rightarrow> ('s \<Rightarrow> bytes) \<Rightarrow> bytes \<Rightarrow> bytes \<Rightarrow> 's transport_view" where
  "tls_ready pending written w0 tail s ins outs \<longleftrightarrow>
     pending s = concat (map tls_frame ins) @ tail \<and> list_all tls_fits ins \<and>
     written s = w0 @ concat (map tls_frame outs)"

sublocale byte_stream \<subseteq> tls: pdu_transport "tls_send wr" "tls_recv rd"
  "tls_ready pending written w0 tail" tls_fits for w0 tail
proof unfold_locales
  fix p assume p: "tls_fits p"
  show "runs (tls_ready pending written w0 tail) (tls_send wr p) [] (Ok ()) [p]"
    unfolding runs_def tls_ready_def using tls_send_frame [OF p] by fastforce
next
  fix p
  show "runs (tls_ready pending written w0 tail) (tls_recv rd) [p] (Ok p) []"
    unfolding runs_def tls_ready_def
  proof (intro allI impI)
    fix s rest sent
    assume s: "pending s = concat (map tls_frame ([p] @ rest)) @ tail \<and>
      list_all tls_fits ([p] @ rest) \<and> written s = w0 @ concat (map tls_frame sent)"
    then have "tls_fits p" and "pending s = tls_frame p @ (concat (map tls_frame rest) @ tail)"
      by simp_all
    with tls_recv_frame obtain t where "tls_recv rd s = (Ok p, t)"
        "pending t = concat (map tls_frame rest) @ tail" "written t = written s"
      unfolding reads_def by blast
    with s show "\<exists>t. tls_recv rd s = (Ok p, t) \<and>
      (pending t = concat (map tls_frame rest) @ tail \<and> list_all tls_fits rest \<and>
       written t = w0 @ concat (map tls_frame (sent @ [])))" by auto
  qed
qed

section \<open>An in-memory stream\<close>

text \<open>
  The standard library's \<open>Read for &[u8]\<close> and \<open>Write for Vec<u8>\<close>: a failed \<open>read_exact\<close>
  leaves the reader at its end.
\<close>

record mem_stream =
  ms_in :: bytes
  ms_out :: bytes

definition mem_read :: "nat \<Rightarrow> (mem_stream, bytes) io" where
  "mem_read n s =
     (if n \<le> length (ms_in s) then (Ok (take n (ms_in s)), s\<lparr>ms_in := drop n (ms_in s)\<rparr>)
      else (Err (Io ''UnexpectedEof''), s\<lparr>ms_in := []\<rparr>))"

definition mem_write :: "bytes \<Rightarrow> (mem_stream, unit) io" where
  "mem_write bs s = (Ok (), s\<lparr>ms_out := ms_out s @ bs\<rparr>)"

interpretation mem: byte_stream mem_read mem_write ms_in ms_out
  by unfold_locales (auto simp: mem_read_def mem_write_def)

text \<open>A reader on the in-memory stream.\<close>

lemma mem_reads:
  assumes "reads ms_in ms_out m ins res"
  shows "m \<lparr>ms_in = ins @ r, ms_out = w\<rparr> = (res, \<lparr>ms_in = r, ms_out = w\<rparr>)"
proof -
  obtain t where "m \<lparr>ms_in = ins @ r, ms_out = w\<rparr> = (res, t)" "ms_in t = r" "ms_out t = w"
    using assms [unfolded reads_def, rule_format, of "\<lparr>ms_in = ins @ r, ms_out = w\<rparr>" r] by auto
  moreover have "t = \<lparr>ms_in = ms_in t, ms_out = ms_out t\<rparr>" by simp
  ultimately show ?thesis by simp
qed

end
