(* ===== verification/Framebuffer.thy ===== *)
theory Framebuffer
  imports Prelude
begin

text \<open>
  The RGBA framebuffer (\<open>src/graphics/framebuffer.rs\<close>). \<open>blit_rgba\<close> copies row by row with
  the slice checks of the source; \<open>da\<close> says whether the build has debug assertions. The
  lemmas state the result pixel by pixel: the rectangle, clipped to the framebuffer, and
  nothing else. Allocation failure is not modelled.
\<close>

record framebuffer =
  fb_width :: nat
  fb_height :: nat
  fb_pixels :: bytes

definition framebuffer_new :: "nat \<Rightarrow> nat \<Rightarrow> framebuffer" where
  "framebuffer_new width height =
     \<lparr>fb_width = width, fb_height = height, fb_pixels = replicate (width * height * 4) 0\<rparr>"

fun blit_rows ::
    "nat \<Rightarrow> nat \<Rightarrow> nat \<Rightarrow> bytes \<Rightarrow> nat \<Rightarrow> nat \<Rightarrow> framebuffer \<Rightarrow> framebuffer result" where
  "blit_rows x y rect_w rgba 0 row fb = Ok fb"
| "blit_rows x y rect_w rgba (Suc rows) row fb =
     (let dst_y = y + row
      in if fb_height fb \<le> dst_y then Ok fb
         else
           (let copy_w = min rect_w (fb_width fb - x)
            in if copy_w = 0 then blit_rows x y rect_w rgba rows (row + 1) fb
               else
                 (let src_off = row * rect_w * 4;
                      dst_off = (dst_y * fb_width fb + x) * 4
                  in and_then (slice rgba src_off (src_off + copy_w * 4)) (\<lambda>src.
                       and_then (copy_at (fb_pixels fb) dst_off src) (\<lambda>pixels.
                         blit_rows x y rect_w rgba rows (row + 1) (fb\<lparr>fb_pixels := pixels\<rparr>))))))"

definition blit_rgba ::
    "bool \<Rightarrow> nat \<Rightarrow> nat \<Rightarrow> nat \<Rightarrow> nat \<Rightarrow> bytes \<Rightarrow> framebuffer \<Rightarrow> framebuffer result" where
  "blit_rgba da x y rect_w rect_h rgba fb =
     (if da \<and> length rgba < rect_w * rect_h * 4 then Panic
      else blit_rows x y rect_w rgba rect_h 0 fb)"

section \<open>The invariant\<close>

definition fb_ok :: "framebuffer \<Rightarrow> bool" where
  "fb_ok fb \<longleftrightarrow> length (fb_pixels fb) = fb_width fb * fb_height fb * 4"

lemma framebuffer_new_ok [simp]: "fb_ok (framebuffer_new w h)"
  by (simp add: fb_ok_def framebuffer_new_def)

section \<open>Coordinates\<close>

text \<open>The byte at offset \<open>i\<close> is channel \<open>i mod 4\<close> of the pixel at \<open>(px_x w i, px_y w i)\<close>.\<close>

definition px_x :: "nat \<Rightarrow> nat \<Rightarrow> nat" where "px_x w i = i div 4 mod w"
definition px_y :: "nat \<Rightarrow> nat \<Rightarrow> nat" where "px_y w i = i div 4 div w"

lemma px_y_bound: "i < w * h * 4 \<Longrightarrow> px_y w i < h"
  by (simp add: px_y_def less_mult_imp_div_less mult.commute)

lemma row_interval:
  fixes p dy w x cw :: nat
  assumes "x + cw \<le> w"
  shows "dy * w + x \<le> p \<and> p < dy * w + x + cw \<longleftrightarrow> p div w = dy \<and> x \<le> p mod w \<and> p mod w < x + cw"
proof
  assume a: "dy * w + x \<le> p \<and> p < dy * w + x + cw"
  then have "p = (p - dy * w) + dy * w" and "p - dy * w < w" using assms by linarith+
  then have "p div w = dy" "p mod w = p - dy * w"
    by (metis add.commute div_mult_self3 div_eq_0_iff add_0_right less_nat_zero_code mult_is_0
        mod_mult_self1 mod_less)+
  with a show "p div w = dy \<and> x \<le> p mod w \<and> p mod w < x + cw" by linarith
next
  assume b: "p div w = dy \<and> x \<le> p mod w \<and> p mod w < x + cw"
  have "p = dy * w + p mod w" using b by (metis div_mult_mod_eq)
  with b show "dy * w + x \<le> p \<and> p < dy * w + x + cw" by linarith
qed

lemma byte_interval:
  fixes i a b :: nat
  shows "a * 4 \<le> i \<and> i < b * 4 \<longleftrightarrow> a \<le> i div 4 \<and> i div 4 < b"
  by (auto simp: less_eq_div_iff_mult_less_eq div_less_iff_less_mult)

lemma dst_interval:
  assumes "x + cw \<le> w"
  shows "(dy * w + x) * 4 \<le> i \<and> i < (dy * w + x) * 4 + cw * 4 \<longleftrightarrow>
    px_y w i = dy \<and> x \<le> px_x w i \<and> px_x w i < x + cw"
  using byte_interval [of "dy * w + x" i "dy * w + x + cw"] row_interval [OF assms, of dy "i div 4"]
  by (simp add: px_x_def px_y_def algebra_simps)

text \<open>The byte of the source rectangle that lands at offset \<open>i\<close>.\<close>

definition src_index :: "nat \<Rightarrow> nat \<Rightarrow> nat \<Rightarrow> nat \<Rightarrow> nat \<Rightarrow> nat" where
  "src_index w x y rect_w i = ((px_y w i - y) * rect_w + (px_x w i - x)) * 4 + i mod 4"

lemma dst_offset:
  assumes "px_y w i = dy" and "x \<le> px_x w i"
  shows "i - (dy * w + x) * 4 = (px_x w i - x) * 4 + i mod 4"
proof -
  have "i div 4 = dy * w + px_x w i"
    using assms(1) unfolding px_x_def px_y_def by (metis div_mult_mod_eq)
  then have "i = (dy * w + px_x w i) * 4 + i mod 4" by (metis div_mult_mod_eq)
  with assms(2) show ?thesis by (simp add: algebra_simps)
qed

section \<open>One row, then all\<close>

definition in_rows :: "framebuffer \<Rightarrow> nat \<Rightarrow> nat \<Rightarrow> nat \<Rightarrow> nat \<Rightarrow> nat \<Rightarrow> nat \<Rightarrow> bool" where
  "in_rows fb x y rect_w lo hi i \<longleftrightarrow>
     (let X = px_x (fb_width fb) i; Y = px_y (fb_width fb) i
      in x \<le> X \<and> X < x + rect_w \<and> y + lo \<le> Y \<and> Y < y + hi)"

lemma px_x_bound: "i < w * h * 4 \<Longrightarrow> px_x w i < w"
  by (cases "w = 0") (simp_all add: px_x_def)

lemma blit_rows_spec:
  assumes "fb_ok fb" and "(row + rows) * rect_w * 4 \<le> length rgba"
  shows "\<exists>pixels. blit_rows x y rect_w rgba rows row fb = Ok (fb\<lparr>fb_pixels := pixels\<rparr>) \<and>
    length pixels = length (fb_pixels fb) \<and>
    (\<forall>i < length pixels. pixels ! i =
       (if in_rows fb x y rect_w row (row + rows) i
        then rgba ! src_index (fb_width fb) x y rect_w i else fb_pixels fb ! i))"
  using assms
proof (induction rows arbitrary: row fb)
  case 0
  have "\<not> in_rows fb x y rect_w row row i" for i by (simp add: in_rows_def Let_def)
  then show ?case by (intro exI [of _ "fb_pixels fb"]) simp
next
  case (Suc rows)
  let ?w = "fb_width fb" and ?h = "fb_height fb"
  let ?cw = "min rect_w (?w - x)"
  have len: "length (fb_pixels fb) = ?w * ?h * 4" using Suc.prems(1) by (simp add: fb_ok_def)
  consider "?h \<le> y + row" | "y + row < ?h" "?cw = 0" | "y + row < ?h" "0 < ?cw" by linarith
  then show ?case
  proof cases
    case 1
    have "\<not> in_rows fb x y rect_w row (row + Suc rows) i" if "i < length (fb_pixels fb)" for i
      using px_y_bound [of i ?w ?h] that 1 by (simp add: in_rows_def Let_def len)
    with 1 show ?thesis by (intro exI [of _ "fb_pixels fb"]) simp
  next
    case 2
    have none: "\<not> in_rows fb x y rect_w lo hi i" if "i < length (fb_pixels fb)" for i lo hi
      using px_x_bound [of i ?w ?h] that 2(2) by (auto simp: in_rows_def Let_def len)
    have "(Suc row + rows) * rect_w * 4 \<le> length rgba" using Suc.prems(2) by simp
    from Suc.IH [OF Suc.prems(1) this] obtain p2 where
      "blit_rows x y rect_w rgba rows (Suc row) fb = Ok (fb\<lparr>fb_pixels := p2\<rparr>)"
      "length p2 = length (fb_pixels fb)"
      "\<forall>i < length p2. p2 ! i = (if in_rows fb x y rect_w (Suc row) (Suc row + rows) i
         then rgba ! src_index ?w x y rect_w i else fb_pixels fb ! i)" by blast
    then show ?thesis using 2 none by (intro exI [of _ p2]) auto
  next
    case 3
    let ?src_off = "row * rect_w * 4" and ?dst_off = "((y + row) * ?w + x) * 4"
    let ?src = "take (?cw * 4) (drop ?src_off rgba)"
    have "?src_off + ?cw * 4 \<le> (row + 1) * rect_w * 4" by (simp add: algebra_simps)
    also have "\<dots> \<le> (row + Suc rows) * rect_w * 4" by (intro mult_right_mono) simp_all
    also have "\<dots> \<le> length rgba" by (rule Suc.prems(2))
    finally have src_fits: "?src_off + ?cw * 4 \<le> length rgba" .
    have cwx: "x + ?cw \<le> ?w" using 3(2) by linarith
    have "((y + row) * ?w + (x + ?cw)) * 4 \<le> (Suc (y + row) * ?w) * 4"
      using cwx by (intro mult_right_mono) simp_all
    also have "\<dots> \<le> (?h * ?w) * 4" using 3 by (intro mult_right_mono) simp_all
    finally have dst_fits: "?dst_off + ?cw * 4 \<le> length (fb_pixels fb)"
      unfolding len by (simp add: algebra_simps)
    have src_len: "length ?src = ?cw * 4" using src_fits by simp
    obtain p1 where p1: "copy_at (fb_pixels fb) ?dst_off ?src = Ok p1"
      using dst_fits src_len by (simp add: copy_at_def)
    have p1_len: "length p1 = length (fb_pixels fb)" using p1 by (rule copy_at_length)
    let ?fb = "fb\<lparr>fb_pixels := p1\<rparr>"
    have row1: "p1 ! i = (if in_rows fb x y rect_w row (Suc row) i
        then rgba ! src_index ?w x y rect_w i else fb_pixels fb ! i)"
      if i: "i < length (fb_pixels fb)" for i
    proof -
      have X: "px_x ?w i < ?w" using i px_x_bound unfolding len by blast
      have iff: "?dst_off \<le> i \<and> i < ?dst_off + ?cw * 4 \<longleftrightarrow> in_rows fb x y rect_w row (Suc row) i"
        unfolding dst_interval [OF cwx] in_rows_def Let_def using X by auto
      have "?src ! (i - ?dst_off) = rgba ! src_index ?w x y rect_w i"
        if "?dst_off \<le> i \<and> i < ?dst_off + ?cw * 4"
      proof -
        have yx: "px_y ?w i = y + row" "x \<le> px_x ?w i"
          using that unfolding dst_interval [OF cwx] by simp_all
        have "?src ! (i - ?dst_off) = rgba ! (?src_off + (i - ?dst_off))"
          using that src_fits by (subst nth_take, linarith) simp
        also have "?src_off + (i - ?dst_off) = src_index ?w x y rect_w i"
          unfolding dst_offset [OF yx] src_index_def yx(1) by (simp add: algebra_simps)
        finally show ?thesis .
      qed
      then show ?thesis using copy_at_nth [OF p1 i] iff unfolding src_len by auto
    qed
    have "fb_ok ?fb" using Suc.prems(1) p1_len by (simp add: fb_ok_def)
    moreover have "(Suc row + rows) * rect_w * 4 \<le> length rgba" using Suc.prems(2) by simp
    ultimately obtain p2 where p2:
      "blit_rows x y rect_w rgba rows (Suc row) ?fb = Ok (?fb\<lparr>fb_pixels := p2\<rparr>)"
      "length p2 = length (fb_pixels ?fb)"
      "\<forall>i < length p2. p2 ! i = (if in_rows ?fb x y rect_w (Suc row) (Suc row + rows) i
         then rgba ! src_index (fb_width ?fb) x y rect_w i else fb_pixels ?fb ! i)"
      using Suc.IH [of ?fb "Suc row"] by blast
    have nonzero: "(?cw = 0) = False" using 3(2) by simp
    have "blit_rows x y rect_w rgba (Suc rows) row fb = Ok (fb\<lparr>fb_pixels := p2\<rparr>)"
      using 3(1) src_fits p1 p2(1) by (simp add: Let_def nonzero)
    moreover have "p2 ! i = (if in_rows fb x y rect_w row (row + Suc rows) i
        then rgba ! src_index ?w x y rect_w i else fb_pixels fb ! i)" if "i < length p2" for i
      using p2(2,3) that p1_len row1 [of i] by (auto simp: in_rows_def Let_def)
    ultimately show ?thesis using p2(2) p1_len by auto
  qed
qed

lemma blit_rgba_spec:
  assumes "fb_ok fb" and "rect_w * rect_h * 4 \<le> length rgba"
  shows "\<exists>pixels. blit_rgba da x y rect_w rect_h rgba fb = Ok (fb\<lparr>fb_pixels := pixels\<rparr>) \<and>
    length pixels = length (fb_pixels fb) \<and>
    (\<forall>i < length pixels. pixels ! i =
       (if in_rows fb x y rect_w 0 rect_h i
        then rgba ! src_index (fb_width fb) x y rect_w i else fb_pixels fb ! i))"
  using blit_rows_spec [OF assms(1), of 0 rect_h rect_w rgba x y] assms(2)
  by (simp add: blit_rgba_def mult.commute [of rect_h rect_w] not_less)

lemma blit_rgba_ok:
  assumes "fb_ok fb" and "rect_w * rect_h * 4 \<le> length rgba"
    and "blit_rgba da x y rect_w rect_h rgba fb = Ok fb'"
  shows "fb_ok fb' \<and> fb_width fb' = fb_width fb \<and> fb_height fb' = fb_height fb"
  using blit_rgba_spec [OF assms(1,2), of da x y] assms(1,3) by (auto simp: fb_ok_def)

lemma blit_rgba_no_panic:
  "fb_ok fb \<Longrightarrow> rect_w * rect_h * 4 \<le> length rgba \<Longrightarrow> \<exists>fb'. blit_rgba da x y rect_w rect_h rgba fb = Ok fb'"
  using blit_rgba_spec by blast

end
