(* ===== verification/Rle.thy ===== *)
theory Rle
  imports Prelude
begin

text \<open>
  The interleaved RLE bitmap codec (\<open>src/graphics/rle.rs\<close>). The decoder works in place on a
  zeroed buffer with a source and a destination cursor; the writes past the end of the buffer
  that the source does not guard are \<open>Panic\<close>. \<open>Rle_Spec\<close> relates it to the order stream.
\<close>

definition pixel_size :: "u16 \<Rightarrow> nat result" where
  "pixel_size bpp =
     (if bpp = 8 then Ok 1
      else if bpp = 15 \<or> bpp = 16 then Ok 2
      else if bpp = 24 then Ok 3
      else Err (Protocol ''unsupported RLE bpp''))"

definition white_pixel :: "u16 \<Rightarrow> u32" where
  "white_pixel bpp =
     (if bpp = 15 then 0x7FFF else if bpp = 16 then 0xFFFF else if bpp = 24 then 0xFFFFFF else 0xFF)"

section \<open>Order codes\<close>

definition BG_RUN :: u8 where "BG_RUN = 0x0"
definition FG_RUN :: u8 where "FG_RUN = 0x1"
definition FGBG_IMAGE :: u8 where "FGBG_IMAGE = 0x2"
definition COLOR_RUN :: u8 where "COLOR_RUN = 0x3"
definition COLOR_IMAGE :: u8 where "COLOR_IMAGE = 0x4"
definition LITE_SET_FG_FG_RUN :: u8 where "LITE_SET_FG_FG_RUN = 0xC"
definition LITE_SET_FG_FGBG_IMAGE :: u8 where "LITE_SET_FG_FGBG_IMAGE = 0xD"
definition LITE_DITHERED_RUN :: u8 where "LITE_DITHERED_RUN = 0xE"
definition MEGA_BG_RUN :: u8 where "MEGA_BG_RUN = 0xF0"
definition MEGA_FG_RUN :: u8 where "MEGA_FG_RUN = 0xF1"
definition MEGA_FGBG_IMAGE :: u8 where "MEGA_FGBG_IMAGE = 0xF2"
definition MEGA_COLOR_RUN :: u8 where "MEGA_COLOR_RUN = 0xF3"
definition MEGA_COLOR_IMAGE :: u8 where "MEGA_COLOR_IMAGE = 0xF4"
definition MEGA_SET_FG_RUN :: u8 where "MEGA_SET_FG_RUN = 0xF6"
definition MEGA_SET_FGBG_IMAGE :: u8 where "MEGA_SET_FGBG_IMAGE = 0xF7"
definition MEGA_DITHERED_RUN :: u8 where "MEGA_DITHERED_RUN = 0xF8"
definition SPECIAL_FGBG_1 :: u8 where "SPECIAL_FGBG_1 = 0xF9"
definition SPECIAL_FGBG_2 :: u8 where "SPECIAL_FGBG_2 = 0xFA"
definition WHITE :: u8 where "WHITE = 0xFD"
definition BLACK :: u8 where "BLACK = 0xFE"

lemmas rle_codes =
  BG_RUN_def FG_RUN_def FGBG_IMAGE_def COLOR_RUN_def COLOR_IMAGE_def LITE_SET_FG_FG_RUN_def
  LITE_SET_FG_FGBG_IMAGE_def LITE_DITHERED_RUN_def MEGA_BG_RUN_def MEGA_FG_RUN_def
  MEGA_FGBG_IMAGE_def MEGA_COLOR_RUN_def MEGA_COLOR_IMAGE_def MEGA_SET_FG_RUN_def
  MEGA_SET_FGBG_IMAGE_def MEGA_DITHERED_RUN_def SPECIAL_FGBG_1_def SPECIAL_FGBG_2_def
  WHITE_def BLACK_def

definition code_id :: "u8 \<Rightarrow> u8" where
  "code_id hdr =
     (if hdr AND 0xC0 \<noteq> 0xC0 then drop_bit 5 hdr
      else if hdr AND 0xF0 = 0xF0 then hdr
      else drop_bit 4 hdr)"

text \<open>The closure \<open>get1\<close> of \<open>run_length\<close>.\<close>

definition get1 :: "bytes \<Rightarrow> nat result" where
  "get1 src = (if 1 < length src then Ok (unat (src ! 1)) else Err (Short 2 (length src)))"

definition run_length :: "u8 \<Rightarrow> bytes \<Rightarrow> (nat \<times> nat) result" where
  "run_length code src =
     and_then (index src 0) (\<lambda>b0.
       if code = FGBG_IMAGE then
         (let r = unat (b0 AND 0x1F)
          in if r \<noteq> 0 then Ok (r * 8, 1) else and_then (get1 src) (\<lambda>v. Ok (v + 1, 2)))
       else if code = LITE_SET_FG_FGBG_IMAGE then
         (let r = unat (b0 AND 0x0F)
          in if r \<noteq> 0 then Ok (r * 8, 1) else and_then (get1 src) (\<lambda>v. Ok (v + 1, 2)))
       else if code = BG_RUN \<or> code = FG_RUN \<or> code = COLOR_RUN \<or> code = COLOR_IMAGE then
         (let r = unat (b0 AND 0x1F)
          in if r \<noteq> 0 then Ok (r, 1) else and_then (get1 src) (\<lambda>v. Ok (v + 32, 2)))
       else if code = LITE_SET_FG_FG_RUN \<or> code = LITE_DITHERED_RUN then
         (let r = unat (b0 AND 0x0F)
          in if r \<noteq> 0 then Ok (r, 1) else and_then (get1 src) (\<lambda>v. Ok (v + 16, 2)))
       else if MEGA_BG_RUN \<le> code \<and> code \<le> MEGA_DITHERED_RUN then
         (if length src < 3 then Err (Short 3 (length src))
          else and_then (index src 1) (\<lambda>lo. and_then (index src 2) (\<lambda>hi.
            Ok (unat (u16_from_le_bytes lo hi), 3))))
       else Ok (0, 1))"

section \<open>Pixels in the buffer\<close>

text \<open>
  The closures \<open>read_px\<close> and \<open>write_px\<close>: \<open>ps\<close> bytes, least significant first. A write past
  the end panics after some bytes were stored; the buffer is lost with the thread.
\<close>

fun px_bytes :: "nat \<Rightarrow> u32 \<Rightarrow> bytes" where
  "px_bytes 0 v = []"
| "px_bytes (Suc k) v = ucast v # px_bytes k (drop_bit 8 v)"

fun px_value :: "bytes \<Rightarrow> u32" where
  "px_value [] = 0"
| "px_value (b # bs) = ucast b OR push_bit 8 (px_value bs)"

definition read_px :: "nat \<Rightarrow> bytes \<Rightarrow> nat \<Rightarrow> u32 result" where
  "read_px ps buf idx = and_then (slice buf idx (idx + ps)) (\<lambda>bs. Ok (px_value bs))"

definition write_px :: "nat \<Rightarrow> bytes \<Rightarrow> nat \<Rightarrow> u32 \<Rightarrow> bytes result" where
  "write_px ps buf idx val = copy_at buf idx (px_bytes ps val)"

text \<open>\<open>read_px(&dst, d - row_delta)\<close>: an underflow of \<open>d - row_delta\<close> panics either way.\<close>

definition above_px :: "nat \<Rightarrow> nat \<Rightarrow> bytes \<Rightarrow> nat \<Rightarrow> u32 result" where
  "above_px ps row_delta dst d =
     (if d < row_delta then Panic else read_px ps dst (d - row_delta))"

text \<open>The background and foreground pixel at the cursor.\<close>

definition bg_px :: "nat \<Rightarrow> nat \<Rightarrow> bool \<Rightarrow> bytes \<Rightarrow> nat \<Rightarrow> u32 result" where
  "bg_px ps row_delta first_line dst d =
     (if first_line then Ok 0 else above_px ps row_delta dst d)"

definition fg_px :: "nat \<Rightarrow> nat \<Rightarrow> bool \<Rightarrow> u32 \<Rightarrow> bytes \<Rightarrow> nat \<Rightarrow> u32 result" where
  "fg_px ps row_delta first_line fg_pel dst d =
     (if first_line then Ok fg_pel
      else and_then (above_px ps row_delta dst d) (\<lambda>above. Ok (above XOR fg_pel)))"

text \<open>\<open>for _ in 0..n { write_px(&mut dst, d, px); d += ps; }\<close>\<close>

fun emit_n ::
    "nat \<Rightarrow> (bytes \<Rightarrow> nat \<Rightarrow> u32 result) \<Rightarrow> nat \<Rightarrow> bytes \<times> nat \<Rightarrow> (bytes \<times> nat) result" where
  "emit_n ps px 0 (dst, d) = Ok (dst, d)"
| "emit_n ps px (Suc n) (dst, d) =
     and_then (px dst d) (\<lambda>v. and_then (write_px ps dst d v) (\<lambda>dst. emit_n ps px n (dst, d + ps)))"

fun emit_dithered :: "nat \<Rightarrow> u32 \<Rightarrow> u32 \<Rightarrow> nat \<Rightarrow> bytes \<times> nat \<Rightarrow> (bytes \<times> nat) result" where
  "emit_dithered ps a b 0 (dst, d) = Ok (dst, d)"
| "emit_dithered ps a b (Suc n) (dst, d) =
     and_then (write_px ps dst d a) (\<lambda>dst.
       and_then (write_px ps dst (d + ps) b) (\<lambda>dst. emit_dithered ps a b n (dst, d + ps + ps)))"

text \<open>\<open>write_fgbg\<close>, from bit \<open>k\<close> of the mask on.\<close>

fun fgbg_bits ::
    "nat \<Rightarrow> nat \<Rightarrow> bool \<Rightarrow> u32 \<Rightarrow> u8 \<Rightarrow> nat \<Rightarrow> nat \<Rightarrow> bytes \<times> nat \<Rightarrow> (bytes \<times> nat) result" where
  "fgbg_bits ps row_delta first_line fg_pel bitmask k 0 (dst, d) = Ok (dst, d)"
| "fgbg_bits ps row_delta first_line fg_pel bitmask k (Suc n) (dst, d) =
     and_then
       (if bitmask AND push_bit k 1 \<noteq> 0 then fg_px ps row_delta first_line fg_pel dst d
        else bg_px ps row_delta first_line dst d)
       (\<lambda>px. and_then (write_px ps dst d px) (\<lambda>dst.
          fgbg_bits ps row_delta first_line fg_pel bitmask (k + 1) n (dst, d + ps)))"

definition write_fgbg ::
    "nat \<Rightarrow> nat \<Rightarrow> bool \<Rightarrow> u32 \<Rightarrow> u8 \<Rightarrow> nat \<Rightarrow> bytes \<times> nat \<Rightarrow> (bytes \<times> nat) result" where
  "write_fgbg ps row_delta first_line fg_pel bitmask n cur =
     fgbg_bits ps row_delta first_line fg_pel bitmask 0 n cur"

section \<open>The decoder\<close>

record rle_state =
  r_i :: nat
  r_d :: nat
  r_dst :: bytes
  r_fg_pel :: u32
  r_insert_fg :: bool
  r_first_line :: bool

definition need_src :: "bytes \<Rightarrow> nat \<Rightarrow> nat \<Rightarrow> unit result" where
  "need_src data i n =
     (if length data < i + n then Err (Short (i + n) (length data)) else Ok ())"

definition put_cur :: "rle_state \<Rightarrow> bytes \<times> nat \<Rightarrow> rle_state" where
  "put_cur st cur = st\<lparr>r_dst := fst cur, r_d := snd cur\<rparr>"

abbreviation cur :: "rle_state \<Rightarrow> bytes \<times> nat" where
  "cur st \<equiv> (r_dst st, r_d st)"

definition line_start :: "nat \<Rightarrow> rle_state \<Rightarrow> rle_state" where
  "line_start row_delta st =
     (if r_first_line st \<and> row_delta \<le> r_d st
      then st\<lparr>r_first_line := False, r_insert_fg := False\<rparr> else st)"

definition rle_bg_run :: "nat \<Rightarrow> nat \<Rightarrow> nat \<Rightarrow> rle_state \<Rightarrow> rle_state result" where
  "rle_bg_run ps row_delta len st =
     (let k = (if r_insert_fg st \<and> 0 < len then 1 else 0)
      in and_then (emit_n ps (fg_px ps row_delta (r_first_line st) (r_fg_pel st)) k (cur st)) (\<lambda>c.
           and_then (emit_n ps (bg_px ps row_delta (r_first_line st)) (len - k) c) (\<lambda>c.
             Ok ((put_cur st c)\<lparr>r_insert_fg := True\<rparr>))))"

text \<open>\<open>need_src!(ps); fg_pel = read_px(data, i); i += ps;\<close> for the set-foreground orders.\<close>

definition set_fg :: "nat \<Rightarrow> bytes \<Rightarrow> bool \<Rightarrow> rle_state \<Rightarrow> rle_state result" where
  "set_fg ps data b st =
     (if b then
        and_then (need_src data (r_i st) ps) (\<lambda>_.
          and_then (read_px ps data (r_i st)) (\<lambda>fg.
            Ok (st\<lparr>r_fg_pel := fg, r_i := r_i st + ps\<rparr>)))
      else Ok st)"

definition rle_fg_run :: "nat \<Rightarrow> nat \<Rightarrow> nat \<Rightarrow> rle_state \<Rightarrow> rle_state result" where
  "rle_fg_run ps row_delta len st =
     and_then (emit_n ps (fg_px ps row_delta (r_first_line st) (r_fg_pel st)) len (cur st)) (\<lambda>c.
       Ok (put_cur st c))"

definition rle_dithered :: "nat \<Rightarrow> bytes \<Rightarrow> nat \<Rightarrow> rle_state \<Rightarrow> rle_state result" where
  "rle_dithered ps data len st =
     and_then (need_src data (r_i st) (2 * ps)) (\<lambda>_.
       and_then (read_px ps data (r_i st)) (\<lambda>a.
         and_then (read_px ps data (r_i st + ps)) (\<lambda>b.
           and_then (emit_dithered ps a b len (cur st)) (\<lambda>c.
             Ok ((put_cur st c)\<lparr>r_i := r_i st + 2 * ps\<rparr>)))))"

definition rle_color_run :: "nat \<Rightarrow> bytes \<Rightarrow> nat \<Rightarrow> rle_state \<Rightarrow> rle_state result" where
  "rle_color_run ps data len st =
     and_then (need_src data (r_i st) ps) (\<lambda>_.
       and_then (read_px ps data (r_i st)) (\<lambda>a.
         and_then (emit_n ps (\<lambda>_ _. Ok a) len (cur st)) (\<lambda>c.
           Ok ((put_cur st c)\<lparr>r_i := r_i st + ps\<rparr>))))"

function rle_fgbg_image :: "nat \<Rightarrow> nat \<Rightarrow> bytes \<Rightarrow> nat \<Rightarrow> rle_state \<Rightarrow> rle_state result" where
  "rle_fgbg_image ps row_delta data len st =
     (if len = 0 then Ok st
      else
        (let n = min len 8
         in and_then (need_src data (r_i st) 1) (\<lambda>_.
              and_then (index data (r_i st)) (\<lambda>bitmask.
                and_then (write_fgbg ps row_delta (r_first_line st) (r_fg_pel st) bitmask n (cur st)) (\<lambda>c.
                  rle_fgbg_image ps row_delta data (len - n)
                    ((put_cur st c)\<lparr>r_i := r_i st + 1\<rparr>))))))"
  by pat_completeness auto
termination
  by (relation "measure (\<lambda>(ps, row_delta, data, len, st). len)") auto

declare rle_fgbg_image.simps [simp del]

definition rle_color_image :: "nat \<Rightarrow> bytes \<Rightarrow> nat \<Rightarrow> rle_state \<Rightarrow> rle_state result" where
  "rle_color_image ps data len st =
     (let byte_count = len * ps
      in and_then (need_src data (r_i st) byte_count) (\<lambda>_.
           and_then (slice data (r_i st) (r_i st + byte_count)) (\<lambda>src.
             and_then (copy_at (r_dst st) (r_d st) src) (\<lambda>dst.
               Ok (st\<lparr>r_dst := dst, r_d := r_d st + byte_count, r_i := r_i st + byte_count\<rparr>)))))"

text \<open>One pixel of a fixed value.\<close>

definition rle_pixel :: "nat \<Rightarrow> u32 \<Rightarrow> rle_state \<Rightarrow> rle_state result" where
  "rle_pixel ps px st =
     and_then (write_px ps (r_dst st) (r_d st) px) (\<lambda>dst.
       Ok (st\<lparr>r_dst := dst, r_d := r_d st + ps\<rparr>))"

text \<open>\<open>let (len, hlen) = run_length(code, src)?; i += hlen;\<close> before the body of an order.\<close>

definition with_run ::
    "u8 \<Rightarrow> bytes \<Rightarrow> rle_state \<Rightarrow> (nat \<Rightarrow> rle_state \<Rightarrow> rle_state result) \<Rightarrow> rle_state result" where
  "with_run code data st body =
     and_then (run_length code (drop (r_i st) data)) (\<lambda>(len, hlen).
       body len (st\<lparr>r_i := r_i st + hlen\<rparr>))"

definition skip_header :: "rle_state \<Rightarrow> rle_state" where
  "skip_header st = st\<lparr>r_i := r_i st + 1\<rparr>"

text \<open>The order with code \<open>code\<close> at the source cursor.\<close>

definition rle_order ::
    "nat \<Rightarrow> nat \<Rightarrow> u32 \<Rightarrow> bytes \<Rightarrow> u8 \<Rightarrow> rle_state \<Rightarrow> rle_state result" where
  "rle_order ps row_delta white data code st =
     (if code = BG_RUN \<or> code = MEGA_BG_RUN then
        with_run code data st (rle_bg_run ps row_delta)
      else
        (let st = st\<lparr>r_insert_fg := False\<rparr>
         in if code = FG_RUN \<or> code = MEGA_FG_RUN \<or> code = LITE_SET_FG_FG_RUN
                 \<or> code = MEGA_SET_FG_RUN then
              with_run code data st (\<lambda>len st.
                and_then (set_fg ps data (code = LITE_SET_FG_FG_RUN \<or> code = MEGA_SET_FG_RUN) st)
                  (rle_fg_run ps row_delta len))
            else if code = LITE_DITHERED_RUN \<or> code = MEGA_DITHERED_RUN then
              with_run code data st (rle_dithered ps data)
            else if code = COLOR_RUN \<or> code = MEGA_COLOR_RUN then
              with_run code data st (rle_color_run ps data)
            else if code = FGBG_IMAGE \<or> code = MEGA_FGBG_IMAGE
                 \<or> code = LITE_SET_FG_FGBG_IMAGE \<or> code = MEGA_SET_FGBG_IMAGE then
              with_run code data st (\<lambda>len st.
                and_then (set_fg ps data
                    (code = LITE_SET_FG_FGBG_IMAGE \<or> code = MEGA_SET_FGBG_IMAGE) st)
                  (rle_fgbg_image ps row_delta data len))
            else if code = COLOR_IMAGE \<or> code = MEGA_COLOR_IMAGE then
              with_run code data st (rle_color_image ps data)
            else if code = SPECIAL_FGBG_1 \<or> code = SPECIAL_FGBG_2 then
              (let st = skip_header st;
                   bitmask = (if code = SPECIAL_FGBG_1 then 0x03 else 0x05)
               in and_then
                    (write_fgbg ps row_delta (r_first_line st) (r_fg_pel st) bitmask 8 (cur st))
                    (\<lambda>c. Ok (put_cur st c)))
            else if code = WHITE then rle_pixel ps white (skip_header st)
            else if code = BLACK then rle_pixel ps 0 (skip_header st)
            else Err (Protocol ''unknown RLE order'')))"

text \<open>One turn of the main loop.\<close>

definition rle_step :: "nat \<Rightarrow> nat \<Rightarrow> u32 \<Rightarrow> bytes \<Rightarrow> rle_state \<Rightarrow> rle_state result" where
  "rle_step ps row_delta white data st0 =
     (let st = line_start row_delta st0
      in and_then (index data (r_i st)) (\<lambda>hdr.
           rle_order ps row_delta white data (code_id hdr) st))"

section \<open>Every turn of the loop consumes source bytes\<close>

lemma run_length_pos: "run_length code src = Ok (n, h) \<Longrightarrow> 1 \<le> h"
  by (auto simp: run_length_def and_then_eq_Ok Let_def split: if_splits)

lemma with_run_Ok:
  "with_run code data st body = Ok st' \<Longrightarrow>
   \<exists>len h. 1 \<le> h \<and> body len (st\<lparr>r_i := r_i st + h\<rparr>) = Ok st'"
  unfolding with_run_def and_then_eq_Ok using run_length_pos by fastforce

lemma set_fg_i: "set_fg ps data b st = Ok st' \<Longrightarrow> r_i st \<le> r_i st'"
  by (auto simp: set_fg_def and_then_eq_Ok split: if_splits)

lemma rle_fgbg_image_i: "rle_fgbg_image ps row_delta data len st = Ok st' \<Longrightarrow> r_i st \<le> r_i st'"
proof (induction ps row_delta data len st rule: rle_fgbg_image.induct)
  case (1 ps row_delta data len st)
  show ?case
  proof (cases "len = 0")
    case True
    then show ?thesis using 1 by (simp add: rle_fgbg_image.simps)
  next
    case False
    then obtain bitmask c where "rle_fgbg_image ps row_delta data (len - min len 8)
        ((put_cur st c)\<lparr>r_i := r_i st + 1\<rparr>) = Ok st'"
      and "need_src data (r_i st) 1 = Ok ()" "index data (r_i st) = Ok bitmask"
      "write_fgbg ps row_delta (r_first_line st) (r_fg_pel st) bitmask (min len 8) (cur st) = Ok c"
      using 1(2) by (subst (asm) rle_fgbg_image.simps) (auto simp: and_then_eq_Ok Let_def)
    from 1(1) [OF False refl this(2-4) this(1)] show ?thesis by simp
  qed
qed

lemma rle_bodies_i:
  "rle_bg_run ps row_delta len st = Ok st' \<Longrightarrow> r_i st \<le> r_i st'"
  "rle_fg_run ps row_delta len st = Ok st' \<Longrightarrow> r_i st \<le> r_i st'"
  "rle_dithered ps data len st = Ok st' \<Longrightarrow> r_i st \<le> r_i st'"
  "rle_color_run ps data len st = Ok st' \<Longrightarrow> r_i st \<le> r_i st'"
  "rle_color_image ps data len st = Ok st' \<Longrightarrow> r_i st \<le> r_i st'"
  "rle_pixel ps px st = Ok st' \<Longrightarrow> r_i st \<le> r_i st'"
  by (auto simp: rle_bg_run_def rle_fg_run_def rle_dithered_def rle_color_run_def
      rle_color_image_def rle_pixel_def put_cur_def and_then_eq_Ok Let_def)

lemma rle_step_i:
  assumes "rle_step ps row_delta white data st = Ok st'"
  shows "r_i st < r_i st'"
proof -
  have start: "r_i (line_start row_delta st) = r_i st" by (simp add: line_start_def)
  show ?thesis
    using assms start unfolding rle_step_def rle_order_def Let_def
    by (fastforce simp: and_then_eq_Ok skip_header_def put_cur_def split: if_splits
        dest!: with_run_Ok rle_bodies_i set_fg_i rle_fgbg_image_i)
qed

function rle_loop :: "nat \<Rightarrow> nat \<Rightarrow> u32 \<Rightarrow> bytes \<Rightarrow> rle_state \<Rightarrow> bytes result" where
  "rle_loop ps row_delta white data st =
     (if r_i st < length data then
        and_then (rle_step ps row_delta white data st) (\<lambda>st.
          rle_loop ps row_delta white data st)
      else Ok (r_dst st))"
  by pat_completeness auto
termination
  by (relation "measure (\<lambda>(ps, row_delta, white, data, st). length data - r_i st)")
    (auto dest!: rle_step_i)

declare rle_loop.simps [simp del]

definition rle_init :: "nat \<Rightarrow> u32 \<Rightarrow> rle_state" where
  "rle_init n white =
     \<lparr>r_i = 0, r_d = 0, r_dst = replicate n 0, r_fg_pel = white, r_insert_fg = False,
      r_first_line = True\<rparr>"

definition decompress :: "bytes \<Rightarrow> nat \<Rightarrow> nat \<Rightarrow> u16 \<Rightarrow> bytes result" where
  "decompress data width height bpp =
     and_then (pixel_size bpp) (\<lambda>ps.
       let white = white_pixel bpp; row_delta = width * ps
       in rle_loop ps row_delta white data (rle_init (row_delta * height) white))"

section \<open>The buffer keeps its size\<close>

lemma write_px_length: "write_px ps dst d v = Ok dst' \<Longrightarrow> length dst' = length dst"
  by (auto simp: write_px_def dest: copy_at_length)

lemma emit_n_length: "emit_n ps f n c = Ok c' \<Longrightarrow> length (fst c') = length (fst c)"
  by (induction n arbitrary: c) (auto simp: and_then_eq_Ok dest!: write_px_length)

lemma emit_dithered_length: "emit_dithered ps a b n c = Ok c' \<Longrightarrow> length (fst c') = length (fst c)"
  by (induction n arbitrary: c) (auto simp: and_then_eq_Ok dest!: write_px_length)

lemma fgbg_bits_length: "fgbg_bits ps rd fl fg m k n c = Ok c' \<Longrightarrow> length (fst c') = length (fst c)"
  by (induction n arbitrary: k c) (auto simp: and_then_eq_Ok dest!: write_px_length split: if_splits)

lemma write_fgbg_length: "write_fgbg ps rd fl fg m n c = Ok c' \<Longrightarrow> length (fst c') = length (fst c)"
  unfolding write_fgbg_def by (rule fgbg_bits_length)

lemma rle_fgbg_image_length:
  "rle_fgbg_image ps rd data len st = Ok st' \<Longrightarrow> length (r_dst st') = length (r_dst st)"
proof (induction ps rd data len st rule: rle_fgbg_image.induct)
  case (1 ps rd data len st)
  show ?case
  proof (cases "len = 0")
    case True
    then show ?thesis using 1 by (simp add: rle_fgbg_image.simps)
  next
    case False
    then obtain m c where "rle_fgbg_image ps rd data (len - min len 8)
        ((put_cur st c)\<lparr>r_i := r_i st + 1\<rparr>) = Ok st'"
      and c: "need_src data (r_i st) 1 = Ok ()" "index data (r_i st) = Ok m"
      "write_fgbg ps rd (r_first_line st) (r_fg_pel st) m (min len 8) (cur st) = Ok c"
      using 1(2) by (subst (asm) rle_fgbg_image.simps) (auto simp: and_then_eq_Ok Let_def)
    from 1(1) [OF False refl this(2-4) this(1)] show ?thesis
      using write_fgbg_length [OF c(3)] by (simp add: put_cur_def)
  qed
qed

lemma rle_bodies_length:
  "rle_bg_run ps rd len st = Ok st' \<Longrightarrow> length (r_dst st') = length (r_dst st)"
  "rle_fg_run ps rd len st = Ok st' \<Longrightarrow> length (r_dst st') = length (r_dst st)"
  "rle_dithered ps data len st = Ok st' \<Longrightarrow> length (r_dst st') = length (r_dst st)"
  "rle_color_run ps data len st = Ok st' \<Longrightarrow> length (r_dst st') = length (r_dst st)"
  "rle_color_image ps data len st = Ok st' \<Longrightarrow> length (r_dst st') = length (r_dst st)"
  "rle_pixel ps px st = Ok st' \<Longrightarrow> length (r_dst st') = length (r_dst st)"
  "set_fg ps data b st = Ok st' \<Longrightarrow> length (r_dst st') = length (r_dst st)"
  by (auto simp: rle_bg_run_def rle_fg_run_def rle_dithered_def rle_color_run_def set_fg_def
      rle_color_image_def rle_pixel_def put_cur_def and_then_eq_Ok Let_def split: if_splits
      dest!: emit_n_length emit_dithered_length write_px_length copy_at_length)

lemma rle_step_length:
  assumes "rle_step ps rd white data st = Ok st'"
  shows "length (r_dst st') = length (r_dst st)"
proof -
  have start: "length (r_dst (line_start rd st)) = length (r_dst st)" by (simp add: line_start_def)
  show ?thesis
    using assms start unfolding rle_step_def rle_order_def Let_def
    by (fastforce simp: and_then_eq_Ok skip_header_def put_cur_def split: if_splits
        dest!: with_run_Ok rle_bodies_length rle_fgbg_image_length write_fgbg_length)
qed

lemma rle_loop_length:
  "rle_loop ps rd white data st = Ok out \<Longrightarrow> length out = length (r_dst st)"
proof (induction ps rd white data st rule: rle_loop.induct)
  case (1 ps rd white data st)
  show ?case
  proof (cases "r_i st < length data")
    case True
    then obtain st' where "rle_step ps rd white data st = Ok st'" "rle_loop ps rd white data st' = Ok out"
      using 1(2) by (subst (asm) rle_loop.simps) (auto simp: and_then_eq_Ok)
    then show ?thesis using 1(1) [OF True] rle_step_length by fastforce
  next
    case False
    then show ?thesis using 1(2) by (subst (asm) rle_loop.simps) simp
  qed
qed

lemma decompress_length:
  "decompress data w h bpp = Ok out \<Longrightarrow> \<exists>ps. pixel_size bpp = Ok ps \<and> length out = w * ps * h"
  by (auto simp: decompress_def and_then_eq_Ok Let_def rle_init_def dest: rle_loop_length)

end
