(* ===== verification/Planar.thy ===== *)
theory Planar
  imports Prelude
begin

text \<open>
  The RDP 6.0 planar codec (\<open>src/graphics/planar.rs\<close>). \<open>i16\<close> and \<open>i32\<close> arithmetic that
  cannot overflow is on \<open>int\<close>, and \<open>as u8\<close> is the reduction modulo 256.
\<close>

definition CLL_MASK :: u8 where "CLL_MASK = 0x07"
definition CS_FLAG :: u8 where "CS_FLAG = 0x08"
definition RLE_FLAG :: u8 where "RLE_FLAG = 0x10"
definition NA_FLAG :: u8 where "NA_FLAG = 0x20"

lemmas planar_flags = CLL_MASK_def CS_FLAG_def RLE_FLAG_def NA_FLAG_def

section \<open>One RLE plane\<close>

record scan =
  s_pos :: nat
  s_x :: nat
  s_last :: u8
  s_raw :: bytes

text \<open>\<open>for _ in 0..c_raw\<close> and \<open>for _ in 0..n_run\<close>.\<close>

fun raw_loop :: "bytes \<Rightarrow> nat \<Rightarrow> nat \<Rightarrow> nat \<Rightarrow> scan \<Rightarrow> scan result" where
  "raw_loop data width y 0 s = Ok s"
| "raw_loop data width y (Suc n) s =
     (if length data \<le> s_pos s \<or> width \<le> s_x s
      then Err (Protocol ''planar RLE overran scanline'')
      else and_then (index data (s_pos s)) (\<lambda>last.
        and_then (store (s_raw s) (y * width + s_x s) last) (\<lambda>raw.
          raw_loop data width y n
            \<lparr>s_pos = s_pos s + 1, s_x = s_x s + 1, s_last = last, s_raw = raw\<rparr>)))"

fun run_loop :: "nat \<Rightarrow> nat \<Rightarrow> nat \<Rightarrow> scan \<Rightarrow> scan result" where
  "run_loop width y 0 s = Ok s"
| "run_loop width y (Suc n) s =
     (if width \<le> s_x s then Err (Protocol ''planar RLE run overran scanline'')
      else and_then (store (s_raw s) (y * width + s_x s) (s_last s)) (\<lambda>raw.
        run_loop width y n (s\<lparr>s_x := s_x s + 1, s_raw := raw\<rparr>)))"

text \<open>The control byte: number of raw bytes, length of the run.\<close>

definition control_counts :: "u8 \<Rightarrow> nat \<times> nat" where
  "control_counts control =
     (let n_run = unat (control AND 0x0F); c_raw = unat (drop_bit 4 control AND 0x0F)
      in if n_run = 1 then (0, 16 + c_raw)
         else if n_run = 2 then (0, 32 + c_raw)
         else (c_raw, n_run))"

lemma raw_loop_pos: "raw_loop data width y n s = Ok t \<Longrightarrow> s_pos s \<le> s_pos t"
  by (induction n arbitrary: s) (force simp: and_then_eq_Ok split: if_splits)+

lemma run_loop_pos: "run_loop width y n s = Ok t \<Longrightarrow> s_pos t = s_pos s"
  by (induction n arbitrary: s) (force simp: and_then_eq_Ok split: if_splits)+

function scanline :: "bytes \<Rightarrow> nat \<Rightarrow> nat \<Rightarrow> scan \<Rightarrow> scan result" where
  "scanline data width y s =
     (if s_x s < width then
        (if length data \<le> s_pos s then Err (Short (s_pos s + 1) (length data))
         else and_then (index data (s_pos s)) (\<lambda>control.
           case control_counts control of (c_raw, n_run) \<Rightarrow>
             and_then (raw_loop data width y c_raw (s\<lparr>s_pos := s_pos s + 1\<rparr>)) (\<lambda>s'.
               and_then (run_loop width y n_run s') (\<lambda>s''. scanline data width y s''))))
      else Ok s)"
  by pat_completeness auto
termination
  by (relation "measure (\<lambda>(data, width, y, s). length data - s_pos s)")
    (auto dest!: raw_loop_pos run_loop_pos)

declare scanline.simps [simp del]

fun scan_rows :: "bytes \<Rightarrow> nat \<Rightarrow> nat \<Rightarrow> nat \<Rightarrow> nat \<Rightarrow> bytes \<Rightarrow> (bytes \<times> nat) result" where
  "scan_rows data width y 0 pos raw = Ok (raw, pos)"
| "scan_rows data width y (Suc n) pos raw =
     and_then (scanline data width y \<lparr>s_pos = pos, s_x = 0, s_last = 0, s_raw = raw\<rparr>) (\<lambda>s.
       scan_rows data width (y + 1) n (s_pos s) (s_raw s))"

definition delta_of :: "u8 \<Rightarrow> int" where
  "delta_of d =
     (if d AND 1 = 0 then int (unat (drop_bit 1 d)) else - (int (unat (drop_bit 1 d)) + 1))"

definition add_delta :: "u8 \<Rightarrow> u8 \<Rightarrow> u8" where
  "add_delta up d = word_of_int (int (unat up) + delta_of d)"

fun dedelta_cols :: "bytes \<Rightarrow> nat \<Rightarrow> nat \<Rightarrow> nat \<Rightarrow> nat \<Rightarrow> bytes \<Rightarrow> bytes result" where
  "dedelta_cols raw width y x 0 plane = Ok plane"
| "dedelta_cols raw width y x (Suc n) plane =
     and_then (index raw (y * width + x)) (\<lambda>d.
       and_then (index plane ((y - 1) * width + x)) (\<lambda>above.
         and_then (store plane (y * width + x) (add_delta above d)) (\<lambda>plane.
           dedelta_cols raw width y (x + 1) n plane)))"

fun dedelta_rows :: "bytes \<Rightarrow> nat \<Rightarrow> nat \<Rightarrow> nat \<Rightarrow> bytes \<Rightarrow> bytes result" where
  "dedelta_rows raw width y 0 plane = Ok plane"
| "dedelta_rows raw width y (Suc n) plane =
     and_then (dedelta_cols raw width y 0 width plane) (\<lambda>plane.
       dedelta_rows raw width (y + 1) n plane)"

definition dedelta :: "bytes \<Rightarrow> nat \<Rightarrow> nat \<Rightarrow> bytes result" where
  "dedelta raw width height =
     and_then (slice_to raw width) (\<lambda>first_row.
       and_then (copy_at (replicate (width * height) 0) 0 first_row) (\<lambda>plane.
         dedelta_rows raw width 1 (height - 1) plane))"

definition decode_rle_plane :: "bytes \<Rightarrow> nat \<Rightarrow> nat \<Rightarrow> nat \<Rightarrow> (bytes \<times> nat) result" where
  "decode_rle_plane data cursor width height =
     and_then (scan_rows data width 0 height cursor (replicate (width * height) 0)) (\<lambda>(raw, pos).
       and_then (dedelta raw width height) (\<lambda>plane. Ok (plane, pos)))"

definition read_plane :: "bytes \<Rightarrow> nat \<Rightarrow> nat \<Rightarrow> nat \<Rightarrow> bool \<Rightarrow> (bytes \<times> nat) result" where
  "read_plane data cursor w h rle =
     (if rle then decode_rle_plane data cursor w h
      else
        (let n = w * h
         in if length data < cursor + n then Err (Short (cursor + n) (length data))
            else and_then (slice data cursor (cursor + n)) (\<lambda>p. Ok (p, cursor + n))))"

definition read_alpha ::
    "bool \<Rightarrow> bytes \<Rightarrow> nat \<Rightarrow> nat \<Rightarrow> nat \<Rightarrow> bool \<Rightarrow> (bytes option \<times> nat) result" where
  "read_alpha has_alpha data cursor w h rle =
     (if has_alpha
      then and_then (read_plane data cursor w h rle) (\<lambda>(a, cursor). Ok (Some a, cursor))
      else Ok (None, cursor))"

definition alpha_at :: "bytes option \<Rightarrow> nat \<Rightarrow> u8 result" where
  "alpha_at alpha i = (case alpha of None \<Rightarrow> Ok 0xFF | Some a \<Rightarrow> index a i)"

section \<open>The YCoCg variant\<close>

definition div_ceil :: "nat \<Rightarrow> nat \<Rightarrow> nat" where
  "div_ceil n d = (n + d - 1) div d"

definition chroma_sample :: "bool \<Rightarrow> nat \<Rightarrow> nat \<Rightarrow> bytes \<Rightarrow> nat \<Rightarrow> nat \<Rightarrow> int result" where
  "chroma_sample cs cw ch plane x y =
     (let (sx, sy) = (if cs then (x div 2, y div 2) else (x, y))
      in and_then (index plane (min sy (ch - 1) * cw + min sx (cw - 1))) (\<lambda>b. Ok (sint b)))"

definition clamp_u8 :: "int \<Rightarrow> u8" where
  "clamp_u8 v = word_of_int (max 0 (min 255 v))"

definition ycocg_px ::
    "nat \<Rightarrow> nat \<Rightarrow> bool \<Rightarrow> bytes option \<Rightarrow> bytes \<Rightarrow> nat \<Rightarrow> nat \<Rightarrow> bytes \<Rightarrow> bytes \<Rightarrow>
     nat \<times> nat \<Rightarrow> bytes result" where
  "ycocg_px width cll cs alpha y_plane cw ch co_s cg_s yx =
     (case yx of (y, x) \<Rightarrow>
        let i = y * width + x
        in and_then (index y_plane i) (\<lambda>yy.
           and_then (chroma_sample cs cw ch co_s x y) (\<lambda>co.
           and_then (chroma_sample cs cw ch cg_s x y) (\<lambda>cg.
           and_then (alpha_at alpha i) (\<lambda>a.
             let yy = int (unat yy); co = push_bit cll co; cg = push_bit cll cg
             in Ok [clamp_u8 (yy - co - cg), clamp_u8 (yy + cg), clamp_u8 (yy + co - cg), a])))))"

text \<open>The coordinates \<open>(y, x)\<close> of an image, row by row.\<close>

definition pixels_of :: "nat \<Rightarrow> nat \<Rightarrow> (nat \<times> nat) list" where
  "pixels_of width height = [(y, x). y \<leftarrow> [0..<height], x \<leftarrow> [0..<width]]"

definition decode_aycocg ::
    "bytes \<Rightarrow> nat \<Rightarrow> nat \<Rightarrow> nat \<Rightarrow> bool \<Rightarrow> bool \<Rightarrow> bool \<Rightarrow> bytes result" where
  "decode_aycocg data width height cll cs has_alpha rle =
     and_then (read_alpha has_alpha data 1 width height rle) (\<lambda>(alpha, cursor).
     and_then (read_plane data cursor width height rle) (\<lambda>(y_plane, cursor).
       let (cw, ch) = (if cs then (div_ceil width 2, div_ceil height 2) else (width, height))
       in and_then (read_plane data cursor cw ch rle) (\<lambda>(co_s, cursor).
          and_then (read_plane data cursor cw ch rle) (\<lambda>(cg_s, cursor).
            traverse (ycocg_px width cll cs alpha y_plane cw ch co_s cg_s)
              (pixels_of width height)))))"

section \<open>The decoder\<close>

definition bgra_px :: "bytes \<Rightarrow> nat \<Rightarrow> bytes result" where
  "bgra_px px i =
     and_then (index px (i * 4 + 2)) (\<lambda>r.
     and_then (index px (i * 4 + 1)) (\<lambda>g.
     and_then (index px (i * 4)) (\<lambda>b.
     and_then (index px (i * 4 + 3)) (\<lambda>a. Ok [r, g, b, a]))))"

definition argb_px :: "bytes option \<Rightarrow> bytes \<Rightarrow> bytes \<Rightarrow> bytes \<Rightarrow> nat \<Rightarrow> bytes result" where
  "argb_px alpha red green blue i =
     and_then (index red i) (\<lambda>r.
     and_then (index green i) (\<lambda>g.
     and_then (index blue i) (\<lambda>b.
     and_then (alpha_at alpha i) (\<lambda>a. Ok [r, g, b, a]))))"

definition planar_decode :: "bytes \<Rightarrow> nat \<Rightarrow> nat \<Rightarrow> bytes result" where
  "planar_decode data width height =
     (if data = [] then Err (Short 1 0)
      else and_then (index data 0) (\<lambda>format.
        if format = 0x00 then
          (let n = width * height * 4
           in if length data < 1 + n then Err (Short (1 + n) (length data))
              else and_then (slice data 1 (1 + n)) (\<lambda>px.
                traverse (bgra_px px) [0..<width * height]))
        else
          (let cll = unat (format AND CLL_MASK);
               cs = (format AND CS_FLAG \<noteq> 0);
               has_alpha = (format AND NA_FLAG = 0);
               rle = (format AND RLE_FLAG \<noteq> 0)
           in if cll \<noteq> 0 \<or> cs then decode_aycocg data width height cll cs has_alpha rle
              else
                and_then (read_alpha has_alpha data 1 width height rle) (\<lambda>(alpha, cursor).
                and_then (read_plane data cursor width height rle) (\<lambda>(red, cursor).
                and_then (read_plane data cursor width height rle) (\<lambda>(green, cursor).
                and_then (read_plane data cursor width height rle) (\<lambda>(blue, cursor).
                  traverse (argb_px alpha red green blue) [0..<width * height])))))))"

end
