(* ===== verification/Planar_Spec.thy ===== *)
theory Planar_Spec
  imports Planar
begin

text \<open>
  What a planar stream means. A plane is scanned row by row into a buffer that is filled from
  left to right, so the buffer is described by the list of bytes written so far; the delta
  transform fills the plane in the same order. The lemmas cover every segment form of the
  run-length code, the inverse of the delta transform, and the absence of panics.
\<close>

section \<open>A buffer filled from the left\<close>

definition filled :: "nat \<Rightarrow> bytes \<Rightarrow> bytes" where
  "filled n xs = xs @ replicate (n - length xs) 0"

lemma store_filled: "length xs < n \<Longrightarrow> store (filled n xs) (length xs) v = Ok (filled n (xs @ [v]))"
proof -
  assume "length xs < n"
  then obtain k where "n - length xs = Suc k" "n - Suc (length xs) = k" by (metis Suc_diff_Suc)
  then show ?thesis by (simp add: store_def filled_def)
qed

lemma filled_nth: "i < length xs \<Longrightarrow> filled n xs ! i = xs ! i"
  by (simp add: filled_def nth_append)

lemma length_filled: "length xs \<le> n \<Longrightarrow> length (filled n xs) = n"
  by (simp add: filled_def)

lemma filled_full: "length xs = n \<Longrightarrow> filled n xs = xs"
  by (simp add: filled_def)

section \<open>Segments\<close>

datatype seg =
    Raw_Run bytes nat
  | Run16 nat
  | Run32 nat

fun seg_ok :: "seg \<Rightarrow> bool" where
  "seg_ok (Raw_Run bs n) \<longleftrightarrow> length bs < 16 \<and> n < 16 \<and> n \<noteq> 1 \<and> n \<noteq> 2"
| "seg_ok (Run16 k) \<longleftrightarrow> k < 16"
| "seg_ok (Run32 k) \<longleftrightarrow> k < 16"

fun seg_encode :: "seg \<Rightarrow> bytes" where
  "seg_encode (Raw_Run bs n) = of_nat (length bs * 16 + n) # bs"
| "seg_encode (Run16 k) = [of_nat (k * 16 + 1)]"
| "seg_encode (Run32 k) = [of_nat (k * 16 + 2)]"

fun seg_last :: "u8 \<Rightarrow> seg \<Rightarrow> u8" where
  "seg_last l (Raw_Run bs n) = (if bs = [] then l else last bs)"
| "seg_last l _ = l"

fun seg_expand :: "u8 \<Rightarrow> seg \<Rightarrow> bytes" where
  "seg_expand l (Raw_Run bs n) = bs @ replicate n (if bs = [] then l else last bs)"
| "seg_expand l (Run16 k) = replicate (16 + k) l"
| "seg_expand l (Run32 k) = replicate (32 + k) l"

fun seg_len :: "seg \<Rightarrow> nat" where
  "seg_len (Raw_Run bs n) = length bs + n"
| "seg_len (Run16 k) = 16 + k"
| "seg_len (Run32 k) = 32 + k"

fun row_expand :: "u8 \<Rightarrow> seg list \<Rightarrow> bytes" where
  "row_expand l [] = []"
| "row_expand l (s # ss) = seg_expand l s @ row_expand (seg_last l s) ss"

text \<open>The segments fill the row exactly, and none follows a full row.\<close>

fun row_ok :: "nat \<Rightarrow> nat \<Rightarrow> seg list \<Rightarrow> bool" where
  "row_ok width x [] \<longleftrightarrow> x = width"
| "row_ok width x (s # ss) \<longleftrightarrow> x < width \<and> seg_ok s \<and> x + seg_len s \<le> width \<and> row_ok width (x + seg_len s) ss"

lemma length_seg_expand [simp]: "length (seg_expand l s) = seg_len s"
  by (cases s) auto

lemma length_row_expand: "row_ok width x ss \<Longrightarrow> x + length (row_expand l ss) = width"
proof (induction ss arbitrary: x l)
  case (Cons s ss)
  then have "row_ok width (x + seg_len s) ss" by simp
  then show ?case using Cons.IH [of "x + seg_len s" "seg_last l s"] by (simp add: add.assoc)
qed simp

lemma control_counts_nibbles:
  assumes "a < 16" and "b < 16"
  shows "control_counts (of_nat (a * 16 + b)) =
    (if b = 1 then (0, 16 + a) else if b = 2 then (0, 32 + a) else (a, b))"
proof -
  have "list_all (\<lambda>a. list_all (\<lambda>b. control_counts (of_nat (a * 16 + b)) =
      (if b = 1 then (0, 16 + a) else if b = 2 then (0, 32 + a) else (a, b))) [0..<16]) [0..<16]"
    by code_simp
  then show ?thesis using assms unfolding list_all_iff by (simp del: of_nat_add of_nat_mult)
qed

lemma raw_loop_append:
  assumes "length xs = y * width + x" and "x + length bs \<le> width" and "length xs + length bs \<le> n"
  shows "raw_loop (pre @ bs @ post) width y (length bs)
      \<lparr>s_pos = length pre, s_x = x, s_last = l, s_raw = filled n xs\<rparr> =
    Ok \<lparr>s_pos = length pre + length bs, s_x = x + length bs,
        s_last = (if bs = [] then l else last bs), s_raw = filled n (xs @ bs)\<rparr>"
  using assms
proof (induction bs arbitrary: pre xs x l)
  case (Cons b bs)
  have "store (filled n xs) (y * width + x) b = Ok (filled n (xs @ [b]))"
    using Cons.prems store_filled [of xs n b] by simp
  then show ?case
    using Cons.prems Cons.IH [of "xs @ [b]" "x + 1" "pre @ [b]" b] by simp
qed simp

lemma run_loop_append:
  assumes "length xs = y * width + x" and "x + k \<le> width" and "length xs + k \<le> n"
  shows "run_loop width y k \<lparr>s_pos = p, s_x = x, s_last = l, s_raw = filled n xs\<rparr> =
    Ok \<lparr>s_pos = p, s_x = x + k, s_last = l, s_raw = filled n (xs @ replicate k l)\<rparr>"
  using assms
proof (induction k arbitrary: xs x)
  case (Suc k)
  have "store (filled n xs) (y * width + x) l = Ok (filled n (xs @ [l]))"
    using Suc.prems store_filled [of xs n l] by simp
  then show ?case using Suc.prems Suc.IH [of "xs @ [l]" "x + 1"] by simp
qed simp

lemma scanline_seg:
  assumes "seg_ok s" and "x < width" and "length xs = y * width + x" and "x + seg_len s \<le> width"
    and "length xs + seg_len s \<le> n"
  shows "scanline (pre @ seg_encode s @ post) width y
      \<lparr>s_pos = length pre, s_x = x, s_last = l, s_raw = filled n xs\<rparr> =
    scanline (pre @ seg_encode s @ post) width y
      \<lparr>s_pos = length pre + length (seg_encode s), s_x = x + seg_len s, s_last = seg_last l s,
       s_raw = filled n (xs @ seg_expand l s)\<rparr>"
proof (cases s)
  case (Raw_Run bs k)
  have c: "control_counts (of_nat (length bs * 16 + k)) = (length bs, k)"
    using assms(1) Raw_Run control_counts_nibbles [of "length bs" k] by simp
  let ?l = "if bs = [] then l else last bs"
  have raw: "raw_loop (pre @ (of_nat (length bs * 16 + k) # bs) @ post) width y (length bs)
      \<lparr>s_pos = length pre + 1, s_x = x, s_last = l, s_raw = filled n xs\<rparr> =
    Ok \<lparr>s_pos = length pre + 1 + length bs, s_x = x + length bs, s_last = ?l, s_raw = filled n (xs @ bs)\<rparr>"
    using raw_loop_append [of xs y width x bs n "pre @ [of_nat (length bs * 16 + k)]" post l] assms Raw_Run
    by (simp del: of_nat_add of_nat_mult)
  have run: "run_loop width y k \<lparr>s_pos = length pre + 1 + length bs, s_x = x + length bs, s_last = ?l,
      s_raw = filled n (xs @ bs)\<rparr> =
    Ok \<lparr>s_pos = length pre + 1 + length bs, s_x = x + length bs + k, s_last = ?l,
      s_raw = filled n ((xs @ bs) @ replicate k ?l)\<rparr>"
    using assms Raw_Run by (intro run_loop_append) simp_all
  show ?thesis
    using assms(2) c raw run
    by (subst scanline.simps) (simp add: Raw_Run add.assoc del: of_nat_add of_nat_mult)
next
  case (Run16 k)
  then show ?thesis
    using assms control_counts_nibbles [of k 1]
      run_loop_append [OF assms(3), of "16 + k" n "length pre + 1" l]
    by (subst scanline.simps) (simp del: of_nat_add of_nat_mult)
next
  case (Run32 k)
  then show ?thesis
    using assms control_counts_nibbles [of k 2]
      run_loop_append [OF assms(3), of "32 + k" n "length pre + 1" l]
    by (subst scanline.simps) (simp del: of_nat_add of_nat_mult)
qed

lemma scanline_row:
  assumes "row_ok width x ss" and "length xs = y * width + x" and "length xs + (width - x) \<le> n"
  shows "\<exists>l'. scanline (pre @ concat (map seg_encode ss) @ post) width y
      \<lparr>s_pos = length pre, s_x = x, s_last = l, s_raw = filled n xs\<rparr> =
    Ok \<lparr>s_pos = length pre + length (concat (map seg_encode ss)), s_x = width, s_last = l',
        s_raw = filled n (xs @ row_expand l ss)\<rparr>"
  using assms
proof (induction ss arbitrary: pre xs x l)
  case Nil
  then show ?case by (subst scanline.simps) simp
next
  case (Cons s ss)
  let ?tail = "concat (map seg_encode ss) @ post"
  have step: "scanline (pre @ seg_encode s @ ?tail) width y
      \<lparr>s_pos = length pre, s_x = x, s_last = l, s_raw = filled n xs\<rparr> =
    scanline ((pre @ seg_encode s) @ ?tail) width y
      \<lparr>s_pos = length (pre @ seg_encode s), s_x = x + seg_len s, s_last = seg_last l s,
       s_raw = filled n (xs @ seg_expand l s)\<rparr>"
    using Cons.prems scanline_seg [of s x width xs y n pre ?tail l] by simp
  show ?case
    using Cons.IH [of "x + seg_len s" "xs @ seg_expand l s" "pre @ seg_encode s" "seg_last l s"]
      Cons.prems step by (simp add: add.assoc)
qed

definition row_encode :: "seg list \<Rightarrow> bytes" where
  "row_encode ss = concat (map seg_encode ss)"

lemma scan_rows_rows:
  assumes "list_all (row_ok width 0) rows" and "length xs = y * width" and "length xs + length rows * width \<le> n"
  shows "scan_rows (pre @ concat (map row_encode rows) @ post) width y (length rows) (length pre) (filled n xs) =
    Ok (filled n (xs @ concat (map (row_expand 0) rows)), length pre + length (concat (map row_encode rows)))"
  using assms
proof (induction rows arbitrary: pre xs y)
  case (Cons r rows)
  let ?tail = "concat (map row_encode rows) @ post"
  obtain l where l: "scanline (pre @ row_encode r @ ?tail) width y
      \<lparr>s_pos = length pre, s_x = 0, s_last = 0, s_raw = filled n xs\<rparr> =
    Ok \<lparr>s_pos = length (pre @ row_encode r), s_x = width, s_last = l, s_raw = filled n (xs @ row_expand 0 r)\<rparr>"
    using scanline_row [of width 0 r xs y n pre ?tail 0] Cons.prems unfolding row_encode_def by auto
  have "length (row_expand 0 r) = width"
    using length_row_expand [of width 0 r 0] Cons.prems(1) by simp
  then show ?case
    using Cons.IH [of "xs @ row_expand 0 r" "y + 1" "pre @ row_encode r"] Cons.prems l
    by (simp add: add.assoc)
qed simp

section \<open>The delta transform\<close>

text \<open>The plane, extended by one delta at a time against the byte one row above.\<close>

fun undelta :: "nat \<Rightarrow> bytes \<Rightarrow> bytes \<Rightarrow> bytes" where
  "undelta width [] plane = plane"
| "undelta width (d # ds) plane =
     undelta width ds (plane @ [add_delta (plane ! (length plane - width)) d])"

lemma undelta_append: "undelta width (ds @ ds') plane = undelta width ds' (undelta width ds plane)"
  by (induction ds arbitrary: plane) simp_all

lemma length_undelta [simp]: "length (undelta width ds plane) = length plane + length ds"
  by (induction ds arbitrary: plane) simp_all

lemma dedelta_cols_undelta:
  assumes "length plane = y * width + x" and "x + k \<le> width" and "0 < y"
    and "y * width + x + k \<le> length raw" and "length raw = n"
  shows "dedelta_cols raw width y x k (filled n plane) =
    Ok (filled n (undelta width (take k (drop (y * width + x) raw)) plane))"
  using assms
proof (induction k arbitrary: plane x)
  case (Suc k)
  let ?i = "y * width + x"
  have i: "?i < length raw" using Suc.prems by simp
  have row: "(y - 1) * width + x = length plane - width"
    using Suc.prems(1,3) by (cases y) simp_all
  have up: "length plane - width < length plane" using Suc.prems by (cases width) auto
  have idx: "index (filled n plane) ((y - 1) * width + x) = Ok (plane ! (length plane - width))"
    unfolding row using up i Suc.prems by (simp add: filled_nth length_filled)
  have st: "store (filled n plane) ?i v = Ok (filled n (plane @ [v]))" for v
    using Suc.prems store_filled [of plane n] by simp
  have "take (Suc k) (drop ?i raw) = raw ! ?i # take k (drop (Suc ?i) raw)"
    using i by (simp add: Cons_nth_drop_Suc [symmetric])
  then show ?case
    using Suc.prems i idx st Suc.IH [of "plane @ [add_delta (plane ! (length plane - width)) (raw ! ?i)]" "x + 1"]
    by simp
qed simp

lemma dedelta_rows_undelta:
  assumes "length plane = y * width" and "0 < y" and "y * width + k * width = length raw" and "length raw = n"
  shows "dedelta_rows raw width y k (filled n plane) =
    Ok (filled n (undelta width (drop (y * width) raw) plane))"
  using assms
proof (induction k arbitrary: plane y)
  case (Suc k)
  let ?row = "take width (drop (y * width) raw)"
  have cols: "dedelta_cols raw width y 0 width (filled n plane) = Ok (filled n (undelta width ?row plane))"
    using Suc.prems dedelta_cols_undelta [of plane y width 0 width raw n] by simp
  have "drop width (drop (y * width) raw) = drop ((y + 1) * width) raw" by (simp add: add.commute)
  then have "undelta width (drop (y * width) raw) plane =
      undelta width (drop ((y + 1) * width) raw) (undelta width ?row plane)"
    by (metis append_take_drop_id undelta_append)
  moreover have "length ?row = width" using Suc.prems by simp
  ultimately show ?case
    using Suc.prems cols Suc.IH [of "undelta width ?row plane" "y + 1"] by (simp add: add.assoc)
qed simp

definition plane_of :: "nat \<Rightarrow> bytes \<Rightarrow> bytes" where
  "plane_of width raw = undelta width (drop width raw) (take width raw)"

lemma dedelta_plane_of:
  assumes "length raw = width * height" and "0 < height"
  shows "dedelta raw width height = Ok (plane_of width raw)"
proof -
  let ?n = "width * height"
  obtain k where h: "height = Suc k" using assms(2) by (cases height) auto
  have "dedelta_rows raw width 1 k (filled ?n (take width raw)) =
      Ok (filled ?n (plane_of width raw))"
    using dedelta_rows_undelta [of "take width raw" 1 width k raw ?n] assms h
    by (simp add: plane_of_def mult.commute)
  moreover have "copy_at (replicate ?n 0) 0 (take width raw) = Ok (filled ?n (take width raw))"
    using assms h by (simp add: copy_at_def filled_def)
  moreover have "length (plane_of width raw) = ?n" using assms h by (simp add: plane_of_def)
  ultimately show ?thesis
    using assms h by (simp add: dedelta_def filled_full)
qed

lemma dedelta_empty_image:
  assumes "0 < width" shows "dedelta [] width 0 = Panic"
  using assms by (simp add: dedelta_def slice_to_def)

text \<open>The forward transform: the signed difference to the byte above, sign in the low bit.\<close>

definition zigzag :: "u8 \<Rightarrow> u8" where
  "zigzag d = (if 0 \<le> sint d then word_of_int (2 * sint d) else word_of_int (- 2 * sint d - 1))"

lemma delta_of_nat:
  assumes "n < 256"
  shows "delta_of (of_nat n) = (if even n then int (n div 2) else - (int (n div 2) + 1))"
proof -
  have n: "unat (of_nat n :: u8) = n" by (rule unat_of_nat_u8 [OF assms])
  have "((of_nat n :: u8) AND 1 = 0) = even n"
    by (simp add: and_one_eq word_unat_eq_iff unat_mod_distrib n even_iff_mod_2_eq_zero)
  moreover have "unat (drop_bit 1 (of_nat n :: u8)) = n div 2"
    by (simp add: drop_bit_eq_div unat_div_distrib n)
  ultimately show ?thesis by (simp add: delta_of_def)
qed

lemma delta_of_zigzag: "delta_of (zigzag d) = sint d"
proof -
  have range: "- 128 \<le> sint d" "sint d < 128" using sint_greater_eq [of d] sint_less [of d] by simp_all
  show ?thesis
  proof (cases "0 \<le> sint d")
    case True
    define k where "k = nat (sint d)"
    have k: "sint d = int k" "k < 128" using True range by (auto simp: k_def)
    have "zigzag d = of_nat (2 * k)" unfolding zigzag_def k(1) by simp
    then show ?thesis using k(2) delta_of_nat [of "2 * k"] by (simp only: k(1)) simp
  next
    case False
    define k where "k = nat (- 1 - sint d)"
    have k: "sint d = - 1 - int k" "k < 128" using False range by (auto simp: k_def)
    have "zigzag d = of_nat (2 * k + 1)" unfolding zigzag_def k(1) by simp
    then show ?thesis using k(2) delta_of_nat [of "2 * k + 1"] by (simp only: k(1)) simp
  qed
qed

lemma add_delta_zigzag: "add_delta up (zigzag (v - up)) = v"
  by (simp add: add_delta_def delta_of_zigzag)

definition deltas :: "nat \<Rightarrow> bytes \<Rightarrow> bytes" where
  "deltas width plane =
     take width plane @ map (\<lambda>i. zigzag (plane ! i - plane ! (i - width))) [width..<length plane]"

lemma undelta_deltas:
  assumes "width \<le> k" and "k \<le> length plane" and "0 < width"
  shows "undelta width (map (\<lambda>i. zigzag (plane ! i - plane ! (i - width))) [width..<k]) (take width plane)
    = take k plane"
  using assms(1,2)
proof (induction k rule: dec_induct)
  case (step k)
  have "k - width < k" using step assms(3) by simp
  then have "take k plane ! (k - width) = plane ! (k - width)" by simp
  with step show ?case
    by (simp add: undelta_append add_delta_zigzag take_Suc_conv_app_nth min_def)
qed simp

lemma plane_of_deltas:
  assumes "width \<le> length plane" and "0 < width"
  shows "plane_of width (deltas width plane) = plane"
  using undelta_deltas [of width "length plane" plane] assms
  by (simp add: plane_of_def deltas_def)

section \<open>A whole plane\<close>

lemma length_rows_expand:
  "list_all (row_ok width 0) rows \<Longrightarrow>
   length (concat (map (row_expand 0) rows)) = length rows * width"
proof (induction rows)
  case (Cons r rows)
  then show ?case using length_row_expand [of width 0 r 0] by simp
qed simp

text \<open>The bytes of a run-length coded plane, and the plane they stand for.\<close>

definition plane_encode :: "seg list list \<Rightarrow> bytes" where
  "plane_encode rows = concat (map row_encode rows)"

definition plane_render :: "nat \<Rightarrow> seg list list \<Rightarrow> bytes" where
  "plane_render width rows = plane_of width (concat (map (row_expand 0) rows))"

definition rows_ok :: "nat \<Rightarrow> nat \<Rightarrow> seg list list \<Rightarrow> bool" where
  "rows_ok width height rows \<longleftrightarrow> length rows = height \<and> list_all (row_ok width 0) rows"

lemma decode_rle_plane_render:
  assumes "rows_ok width height rows" and "0 < height"
  shows "decode_rle_plane (pre @ plane_encode rows @ post) (length pre) width height =
    Ok (plane_render width rows, length pre + length (plane_encode rows))"
proof -
  let ?raw = "concat (map (row_expand 0) rows)"
  have len: "length ?raw = width * height"
    using assms(1) length_rows_expand [of width rows] by (simp add: rows_ok_def mult.commute)
  have "scan_rows (pre @ plane_encode rows @ post) width 0 height (length pre)
      (replicate (width * height) 0) = Ok (?raw, length pre + length (plane_encode rows))"
    using scan_rows_rows [of width rows "[]" 0 "width * height" pre post] assms(1) len
    by (simp add: rows_ok_def plane_encode_def filled_def mult.commute)
  then show ?thesis
    using dedelta_plane_of [OF len assms(2)] by (simp add: decode_rle_plane_def plane_render_def)
qed

lemma length_plane_render:
  assumes "rows_ok width height rows" and "0 < height"
  shows "length (plane_render width rows) = width * height"
proof -
  have "length (concat (map (row_expand 0) rows)) = width * height"
    using assms(1) length_rows_expand [of width rows] by (simp add: rows_ok_def mult.commute)
  moreover from assms(2) obtain h where "height = Suc h" by (cases height) auto
  ultimately show ?thesis by (simp add: plane_render_def plane_of_def)
qed

section \<open>An encoder\<close>

text \<open>The bytes of a row as literal segments of at most fifteen.\<close>

function literals :: "bytes \<Rightarrow> seg list" where
  "literals bs = (if bs = [] then [] else Raw_Run (take 15 bs) 0 # literals (drop 15 bs))"
  by pat_completeness auto
termination by (relation "measure length") auto

declare literals.simps [simp del]

lemma row_expand_literals: "row_expand l (literals bs) = bs"
proof (induction bs arbitrary: l rule: literals.induct)
  case (1 bs)
  show ?case
  proof (cases "bs = []")
    case False
    then show ?thesis using 1 by (subst literals.simps) simp
  qed (simp add: literals.simps [of "[]"])
qed

lemma row_ok_literals: "x + length bs = width \<Longrightarrow> row_ok width x (literals bs)"
proof (induction bs arbitrary: x rule: literals.induct)
  case (1 bs)
  show ?case
  proof (cases "bs = []")
    case False
    have "row_ok width (x + min (length bs) 15) (literals (drop 15 bs))"
      using 1 False by (intro 1(1)) (auto simp: min_def)
    then show ?thesis using 1 False by (subst literals.simps) (auto simp: min_def)
  qed (use 1 in \<open>simp add: literals.simps [of "[]"]\<close>)
qed

fun rows_of :: "nat \<Rightarrow> nat \<Rightarrow> bytes \<Rightarrow> bytes list" where
  "rows_of width 0 bs = []"
| "rows_of width (Suc h) bs = take width bs # rows_of width h (drop width bs)"

definition plane_rows :: "nat \<Rightarrow> nat \<Rightarrow> bytes \<Rightarrow> seg list list" where
  "plane_rows width height plane = map literals (rows_of width height (deltas width plane))"

lemma concat_rows_of: "length bs = width * h \<Longrightarrow> concat (rows_of width h bs) = bs"
  by (induction h arbitrary: bs) simp_all

lemma rows_of_length: "length bs = width * h \<Longrightarrow> list_all (\<lambda>r. length r = width) (rows_of width h bs)"
  by (induction h arbitrary: bs) simp_all

lemma length_rows_of [simp]: "length (rows_of width h bs) = h"
  by (induction h arbitrary: bs) simp_all

lemma length_deltas: "width \<le> length plane \<Longrightarrow> length (deltas width plane) = length plane"
  by (simp add: deltas_def)

lemma plane_rows_ok:
  assumes "length plane = width * height" and "0 < height"
  shows "rows_ok width height (plane_rows width height plane)"
proof -
  obtain h where "height = Suc h" using assms(2) by (cases height) auto
  then have "length (deltas width plane) = width * height" using assms by (simp add: length_deltas)
  from rows_of_length [OF this] show ?thesis
    by (simp add: rows_ok_def plane_rows_def list_all_iff row_ok_literals)
qed

lemma plane_rows_render:
  assumes "length plane = width * height" and "0 < height" and "0 < width"
  shows "plane_render width (plane_rows width height plane) = plane"
proof -
  obtain h where h: "height = Suc h" using assms(2) by (cases height) auto
  then have len: "length (deltas width plane) = width * height" using assms by (simp add: length_deltas)
  have "map (row_expand 0) (plane_rows width height plane) = rows_of width height (deltas width plane)"
    by (simp add: plane_rows_def comp_def row_expand_literals)
  then have "plane_render width (plane_rows width height plane) = plane_of width (deltas width plane)"
    using concat_rows_of [OF len] by (simp add: plane_render_def)
  then show ?thesis using plane_of_deltas [of width plane] assms h by simp
qed

section \<open>The whole stream\<close>

lemma read_plane_raw:
  "length p = w * h \<Longrightarrow>
   read_plane (pre @ p @ post) (length pre) w h False = Ok (p, length pre + length p)"
  by (simp add: read_plane_def)

lemma read_plane_rle:
  "rows_ok w h rows \<Longrightarrow> 0 < h \<Longrightarrow>
   read_plane (pre @ plane_encode rows @ post) (length pre) w h True =
     Ok (plane_render w rows, length pre + length (plane_encode rows))"
  by (simp add: read_plane_def decode_rle_plane_render)

text \<open>The planes on the wire, and their pixels: opaque when there is no alpha plane.\<close>

definition planes_sent :: "bytes option \<Rightarrow> bytes \<Rightarrow> bytes \<Rightarrow> bytes \<Rightarrow> bytes" where
  "planes_sent a r g b = (case a of None \<Rightarrow> [] | Some a \<Rightarrow> a) @ r @ g @ b"

definition planes_rgba :: "nat \<Rightarrow> bytes option \<Rightarrow> bytes \<Rightarrow> bytes \<Rightarrow> bytes \<Rightarrow> bytes" where
  "planes_rgba n a r g b =
     concat (map (\<lambda>i. [r ! i, g ! i, b ! i, case a of None \<Rightarrow> 0xFF | Some a \<Rightarrow> a ! i]) [0..<n])"

text \<open>
  The interface the decoder has to its plane reader: a plane, as sent, is read back and the
  cursor moves past it. Both forms of a plane provide it.
\<close>

locale plane_reader =
  fixes sent :: "'p \<Rightarrow> bytes" and plane :: "'p \<Rightarrow> bytes" and good :: "'p \<Rightarrow> bool"
    and rle :: bool and w :: nat and h :: nat
  assumes read_sent: "good p \<Longrightarrow>
      read_plane (pre @ sent p @ post) (length pre) w h rle = Ok (plane p, length pre + length (sent p))"
    and plane_length: "good p \<Longrightarrow> length (plane p) = w * h"
begin

lemma read_alpha_sent:
  "pred_option good a \<Longrightarrow>
   read_alpha (a \<noteq> None) (pre @ (case a of None \<Rightarrow> [] | Some a \<Rightarrow> sent a) @ post) (length pre) w h rle =
     Ok (map_option plane a, length pre + length (case a of None \<Rightarrow> [] | Some a \<Rightarrow> sent a))"
  by (cases a) (simp_all add: read_alpha_def read_sent)

lemma argb_traverse:
  assumes "pred_option good a" and "good r" and "good g" and "good b"
  shows "traverse (argb_px (map_option plane a) (plane r) (plane g) (plane b)) [0..<w * h] =
    Ok (planes_rgba (w * h) (map_option plane a) (plane r) (plane g) (plane b))"
  unfolding planes_rgba_def
  using assms by (intro traverse_Ok) (cases a; simp add: argb_px_def alpha_at_def plane_length)

text \<open>A format byte without the chroma bits, and planes in the order the decoder reads them.\<close>

lemma planar_decode_planes:
  assumes "pred_option good a" and "good r" and "good g" and "good b"
    and "fmt \<noteq> 0" and "fmt AND CLL_MASK = 0" and "fmt AND CS_FLAG = 0"
    and "(fmt AND NA_FLAG = 0) = (a \<noteq> None)" and "(fmt AND RLE_FLAG \<noteq> 0) = rle"
  shows "planar_decode (fmt # planes_sent (map_option sent a) (sent r) (sent g) (sent b) @ post) w h =
    Ok (planes_rgba (w * h) (map_option plane a) (plane r) (plane g) (plane b))"
proof -
  let ?al = "case a of None \<Rightarrow> [] | Some a \<Rightarrow> sent a"
  have al: "read_alpha (a \<noteq> None) (fmt # ?al @ sent r @ sent g @ sent b @ post) 1 w h rle =
      Ok (map_option plane a, 1 + length ?al)"
    using read_alpha_sent [OF assms(1), of "[fmt]" "sent r @ sent g @ sent b @ post"] by simp
  have r: "read_plane (fmt # ?al @ sent r @ sent g @ sent b @ post) (1 + length ?al) w h rle =
      Ok (plane r, 1 + length ?al + length (sent r))"
    using read_sent [OF assms(2), of "fmt # ?al" "sent g @ sent b @ post"] by simp
  have g: "read_plane (fmt # ?al @ sent r @ sent g @ sent b @ post) (1 + length ?al + length (sent r)) w h rle =
      Ok (plane g, 1 + length ?al + length (sent r) + length (sent g))"
    using read_sent [OF assms(3), of "fmt # ?al @ sent r" "sent b @ post"] by simp
  have b: "read_plane (fmt # ?al @ sent r @ sent g @ sent b @ post)
        (1 + length ?al + length (sent r) + length (sent g)) w h rle =
      Ok (plane b, 1 + length ?al + length (sent r) + length (sent g) + length (sent b))"
    using read_sent [OF assms(4), of "fmt # ?al @ sent r @ sent g" post] by (simp add: add.assoc)
  show ?thesis
    using assms(5-9) al r g b argb_traverse [OF assms(1-4)]
    by (cases a) (simp_all add: planar_decode_def planes_sent_def)
qed

end

interpretation raw_plane: plane_reader "\<lambda>p. p" "\<lambda>p. p" "\<lambda>p. length p = w * h" False w h for w h
  by unfold_locales (simp_all add: read_plane_raw)

interpretation rle_plane: plane_reader plane_encode "plane_render w" "\<lambda>rows. rows_ok w (Suc h) rows" True w "Suc h"
  for w h
  by unfold_locales (simp_all add: read_plane_rle length_plane_render)

section \<open>Absence of panics\<close>

lemma raw_loop_length: "raw_loop data width y n s = Ok t \<Longrightarrow> length (s_raw t) = length (s_raw s)"
  by (induction n arbitrary: s) (force simp: and_then_eq_Ok store_def split: if_splits)+

lemma run_loop_length: "run_loop width y n s = Ok t \<Longrightarrow> length (s_raw t) = length (s_raw s)"
  by (induction n arbitrary: s) (force simp: and_then_eq_Ok store_def split: if_splits)+

lemma row_bound: "(y + 1) * width \<le> n \<Longrightarrow> x < width \<Longrightarrow> y * width + x < (n :: nat)"
  by (simp add: algebra_simps)

lemma raw_loop_no_panic: "(y + 1) * width \<le> length (s_raw s) \<Longrightarrow> raw_loop data width y n s \<noteq> Panic"
  by (induction n arbitrary: s) (auto simp: row_bound store_def)

lemma run_loop_no_panic: "(y + 1) * width \<le> length (s_raw s) \<Longrightarrow> run_loop width y n s \<noteq> Panic"
  by (induction n arbitrary: s) (auto simp: row_bound store_def)

lemma scanline_safe:
  "(y + 1) * width \<le> length (s_raw s) \<Longrightarrow>
   scanline data width y s \<noteq> Panic \<and> (\<forall>t. scanline data width y s = Ok t \<longrightarrow> length (s_raw t) = length (s_raw s))"
proof (induction data width y s rule: scanline.induct)
  case (1 data width y s)
  show ?case
  proof (cases "s_x s < width \<and> s_pos s < length data")
    case False
    then show ?thesis by (subst (1 2) scanline.simps) auto
  next
    case True
    obtain c n where cn: "control_counts (data ! s_pos s) = (c, n)" by fastforce
    let ?s = "s\<lparr>s_pos := s_pos s + 1\<rparr>"
    have b: "(y + 1) * width \<le> length (s_raw ?s)" using 1(2) by simp
    show ?thesis
    proof (cases "raw_loop data width y c ?s")
      case (Ok t)
      have bt: "length (s_raw t) = length (s_raw s)" using raw_loop_length [OF Ok] by simp
      show ?thesis
      proof (cases "run_loop width y n t")
        case (Ok u)
        have bu: "length (s_raw u) = length (s_raw s)" using run_loop_length [OF Ok] bt by simp
        have "scanline data width y u \<noteq> Panic \<and>
            (\<forall>v. scanline data width y u = Ok v \<longrightarrow> length (s_raw v) = length (s_raw u))"
          using 1(1) [of "data ! s_pos s" c n t u] True cn \<open>raw_loop data width y c ?s = Ok t\<close> Ok bu 1(2)
          by simp
        then show ?thesis
          using True cn \<open>raw_loop data width y c ?s = Ok t\<close> Ok bu by (subst (1 2) scanline.simps) simp
      next
        case (Err e)
        then show ?thesis
          using True cn \<open>raw_loop data width y c ?s = Ok t\<close> by (subst (1 2) scanline.simps) simp
      next
        case Panic
        then show ?thesis using run_loop_no_panic [where s = t and y = y and width = width and n = n] bt 1(2) by simp
      qed
    next
      case (Err e)
      then show ?thesis using True cn by (subst (1 2) scanline.simps) simp
    next
      case Panic
      then show ?thesis using raw_loop_no_panic [OF b] by blast
    qed
  qed
qed

lemma scan_rows_safe:
  "(y + n) * width \<le> length raw \<Longrightarrow>
   scan_rows data width y n pos raw \<noteq> Panic \<and>
   (\<forall>r p. scan_rows data width y n pos raw = Ok (r, p) \<longrightarrow> length r = length raw)"
proof (induction n arbitrary: y pos raw)
  case (Suc n)
  let ?s = "\<lparr>s_pos = pos, s_x = 0, s_last = 0, s_raw = raw\<rparr>"
  have "(y + 1) * width \<le> length (s_raw ?s)" using Suc.prems by (simp add: algebra_simps)
  note line = scanline_safe [OF this]
  show ?case
  proof (cases "scanline data width y ?s")
    case (Ok t)
    then have "length (s_raw t) = length raw" using line by simp
    then show ?thesis using Suc.IH [of "y + 1" "s_raw t" "s_pos t"] Suc.prems Ok by simp
  qed (use line in simp_all)
qed simp

lemma decode_rle_plane_safe:
  assumes "0 < height"
  shows "decode_rle_plane data cursor width height \<noteq> Panic \<and>
    (\<forall>p c. decode_rle_plane data cursor width height = Ok (p, c) \<longrightarrow> length p = width * height)"
proof -
  have b: "(0 + height) * width \<le> length (replicate (width * height) (0 :: u8))"
    by (simp add: mult.commute)
  note rows = scan_rows_safe [OF b, of data cursor]
  show ?thesis
  proof (cases "scan_rows data width 0 height cursor (replicate (width * height) 0)")
    case (Ok rp)
    obtain r p where rp: "rp = (r, p)" by fastforce
    then have len: "length r = width * height" using rows Ok by simp
    obtain k where "height = Suc k" using assms by (cases height) auto
    then have "length (plane_of width r) = width * height" using len by (simp add: plane_of_def)
    then show ?thesis using dedelta_plane_of [OF len assms] Ok rp by (simp add: decode_rle_plane_def)
  qed (use rows in \<open>simp_all add: decode_rle_plane_def\<close>)
qed

lemma read_plane_safe:
  assumes "0 < h"
  shows "read_plane data cursor w h rle \<noteq> Panic"
    and "read_plane data cursor w h rle = Ok (p, c) \<Longrightarrow> length p = w * h"
  using decode_rle_plane_safe [OF assms, of data cursor w]
  by (auto simp: read_plane_def Let_def and_then_eq_Ok split: if_splits)

lemma read_alpha_safe:
  assumes "0 < h"
  shows "read_alpha ha data cursor w h rle \<noteq> Panic"
    and "read_alpha ha data cursor w h rle = Ok (a, c) \<Longrightarrow> i < w * h \<Longrightarrow> alpha_at a i \<noteq> Panic"
  using read_plane_safe [OF assms]
  by (auto simp: read_alpha_def alpha_at_def and_then_eq_Ok split: if_splits)

lemma chroma_sample_safe:
  assumes "length plane = cw * ch" and "0 < cw" and "0 < ch"
  shows "chroma_sample cs cw ch plane x y \<noteq> Panic"
proof -
  have "min j (ch - 1) * cw + min i (cw - 1) < length plane" for i j
  proof -
    have "min j (ch - 1) * cw + min i (cw - 1) < (min j (ch - 1) + 1) * cw" using assms(2) by auto
    also have "\<dots> \<le> ch * cw" using assms(3) by (intro mult_right_mono) auto
    finally show ?thesis using assms(1) by (simp add: mult.commute)
  qed
  then show ?thesis by (auto simp: chroma_sample_def Let_def not_le)
qed

lemma in_pixels: "(y, x) \<in> set (pixels_of w h) \<Longrightarrow> y < h \<and> x < w"
  by (auto simp: pixels_of_def)

lemma decode_aycocg_safe:
  assumes "0 < h"
  shows "decode_aycocg data w h cll cs ha rle \<noteq> Panic"
proof -
  define cw where "cw = (if cs then div_ceil w 2 else w)"
  define ch where "ch = (if cs then div_ceil h 2 else h)"
  have ch: "0 < ch" using assms by (auto simp: ch_def div_ceil_def div_greater_zero_iff)
  have cw: "0 < w \<Longrightarrow> 0 < cw" by (auto simp: cw_def div_ceil_def div_greater_zero_iff)
  have px: "ycocg_px w cll cs a yp cw ch co cg (y, x) \<noteq> Panic"
    if "y < h" "x < w" "length yp = w * h" "length co = cw * ch" "length cg = cw * ch"
      "\<And>i. i < w * h \<Longrightarrow> alpha_at a i \<noteq> Panic" for a yp co cg y x
  proof -
    have "y * w + x < w * h"
    proof -
      have "y * w + x < (y + 1) * w" using that by simp
      also have "\<dots> \<le> h * w" using that(1) by (intro mult_right_mono) auto
      finally show ?thesis by (simp add: mult.commute)
    qed
    then show ?thesis
      using that chroma_sample_safe cw ch by (auto simp: ycocg_px_def Let_def)
  qed
  have fin: "traverse (ycocg_px w cll cs a yp cw ch co cg) (pixels_of w h) \<noteq> Panic"
    if "length yp = w * h" "length co = cw * ch" "length cg = cw * ch"
      "\<And>i. i < w * h \<Longrightarrow> alpha_at a i \<noteq> Panic" for a yp co cg
    using px [OF _ _ that] by (intro traverse_no_Panic) (metis in_pixels surj_pair)
  have pair: "(if cs then (div_ceil w 2, div_ceil h 2) else (w, h)) = (cw, ch)"
    by (simp add: cw_def ch_def)
  show ?thesis
    unfolding decode_aycocg_def pair
    using fin read_alpha_safe [OF assms] read_plane_safe [OF assms] read_plane_safe [OF ch]
    by (auto split: prod.splits)
qed

lemma planar_decode_safe:
  assumes "0 < h"
  shows "planar_decode data w h \<noteq> Panic"
proof -
  have bgra: "traverse (bgra_px px) [0..<w * h] \<noteq> Panic" if "length px = w * h * 4" for px
    using that by (intro traverse_no_Panic) (auto simp: bgra_px_def)
  have argb: "traverse (argb_px a r g b) [0..<w * h] \<noteq> Panic"
    if "length r = w * h" "length g = w * h" "length b = w * h"
      "\<And>i. i < w * h \<Longrightarrow> alpha_at a i \<noteq> Panic" for a r g b
    using that by (intro traverse_no_Panic) (auto simp: argb_px_def)
  show ?thesis
    using bgra argb decode_aycocg_safe [OF assms] read_alpha_safe [OF assms] read_plane_safe [OF assms]
    by (auto simp: planar_decode_def Let_def split: prod.splits)
qed

text \<open>The pixels of every image it returns are RGBA.\<close>

lemma px_length:
  "bgra_px px i = Ok ys \<Longrightarrow> length ys = 4"
  "argb_px a r g b i = Ok ys \<Longrightarrow> length ys = 4"
  "ycocg_px w cll cs a yp cw ch co cg yx = Ok ys \<Longrightarrow> length ys = 4"
  by (auto simp: bgra_px_def argb_px_def ycocg_px_def Let_def and_then_eq_Ok split: prod.splits)

lemma length_pixels_of: "length (pixels_of w h) = w * h"
  by (induction h) (simp_all add: pixels_of_def)

lemma planar_decode_length: "planar_decode data w h = Ok ys \<Longrightarrow> length ys = w * h * 4"
  by (auto simp: planar_decode_def decode_aycocg_def Let_def and_then_eq_Ok px_length length_pixels_of
      dest!: traverse_length [where n = 4] split: if_splits prod.splits)

end
