(* ===== verification/Bitmap.thy ===== *)
theory Bitmap
  imports Framebuffer Rle Planar_Spec
begin

text \<open>
  Bitmap updates (\<open>src/graphics/bitmap.rs\<close>): the rectangle list of an update, the conversion
  of its bottom-up pixels to top-down RGBA, and the painting of one rectangle. \<open>da\<close> says
  whether the build has debug assertions (the blit has one).
\<close>

definition BITMAP_COMPRESSION :: u16 where "BITMAP_COMPRESSION = 0x0001"
definition NO_BITMAP_COMPRESSION_HDR :: u16 where "NO_BITMAP_COMPRESSION_HDR = 0x0400"

record bitmap_rect =
  dest_left :: u16
  dest_top :: u16
  r_width :: u16
  r_height :: u16
  bits_per_pixel :: u16
  compressed :: bool
  r_data :: bytes

section \<open>Parsing\<close>

definition cd_header :: "nat \<Rightarrow> bytes \<Rightarrow> (nat \<times> bytes) result" where
  "cd_header bitmap_length buf =
     and_then (need_bytes 8 buf) (\<lambda>_.
     and_then (get_u16_le buf) (\<lambda>(first_row, buf).
     and_then (get_u16_le buf) (\<lambda>(main_body, buf).
     and_then (get_u16_le buf) (\<lambda>(scan_width, buf).
     and_then (get_u16_le buf) (\<lambda>(uncompressed, buf). Ok (unat main_body, buf))))))"

definition parse_rect :: "bytes \<Rightarrow> (bitmap_rect \<times> bytes) result" where
  "parse_rect buf =
     and_then (need_bytes 18 buf) (\<lambda>_.
     and_then (get_u16_le buf) (\<lambda>(left, buf).
     and_then (get_u16_le buf) (\<lambda>(top, buf).
     and_then (get_u16_le buf) (\<lambda>(right, buf).
     and_then (get_u16_le buf) (\<lambda>(bottom, buf).
     and_then (get_u16_le buf) (\<lambda>(width, buf).
     and_then (get_u16_le buf) (\<lambda>(height, buf).
     and_then (get_u16_le buf) (\<lambda>(bpp, buf).
     and_then (get_u16_le buf) (\<lambda>(flags, buf).
     and_then (get_u16_le buf) (\<lambda>(bitmap_length, buf).
       let comp = (flags AND BITMAP_COMPRESSION \<noteq> 0)
       in and_then
           (if comp \<and> flags AND NO_BITMAP_COMPRESSION_HDR = 0
            then cd_header (unat bitmap_length) buf else Ok (unat bitmap_length, buf))
           (\<lambda>(data_len, buf).
              and_then (need_bytes data_len buf) (\<lambda>_.
              and_then (slice_to buf data_len) (\<lambda>data.
              and_then (advance data_len buf) (\<lambda>buf.
                Ok (\<lparr>dest_left = left, dest_top = top, r_width = width, r_height = height,
                     bits_per_pixel = bpp, compressed = comp, r_data = data\<rparr>, buf)))))))))))))))"

fun parse_rects :: "nat \<Rightarrow> bytes \<Rightarrow> bitmap_rect list result" where
  "parse_rects 0 buf = Ok []"
| "parse_rects (Suc n) buf =
     and_then (parse_rect buf) (\<lambda>(rect, buf).
       and_then (parse_rects n buf) (\<lambda>rects. Ok (rect # rects)))"

definition parse_bitmap_update :: "bytes \<Rightarrow> bitmap_rect list result" where
  "parse_bitmap_update buf =
     and_then (need_bytes 4 buf) (\<lambda>_.
     and_then (get_u16_le buf) (\<lambda>(update_type, buf).
     and_then (get_u16_le buf) (\<lambda>(count, buf). parse_rects (unat count) buf)))"

section \<open>Pixels\<close>

definition bytes_per_pixel :: "u16 \<Rightarrow> nat result" where
  "bytes_per_pixel bpp =
     (if bpp = 15 \<or> bpp = 16 then Ok 2
      else if bpp = 24 then Ok 3
      else if bpp = 32 then Ok 4
      else Err (Protocol ''unsupported bitmap bpp''))"

definition scale8 :: "u16 \<Rightarrow> u16 \<Rightarrow> u8" where
  "scale8 v m = ucast ((v * 255 + m div 2) div m)"

definition rgb565 :: "u16 \<Rightarrow> u8 \<times> u8 \<times> u8" where
  "rgb565 p =
     (scale8 (drop_bit 11 p AND 0x1f) 31, scale8 (drop_bit 5 p AND 0x3f) 63, scale8 (p AND 0x1f) 31)"

definition rgb555 :: "u16 \<Rightarrow> u8 \<times> u8 \<times> u8" where
  "rgb555 p =
     (scale8 (drop_bit 10 p AND 0x1f) 31, scale8 (drop_bit 5 p AND 0x1f) 31, scale8 (p AND 0x1f) 31)"

text \<open>The colour of the pixel in column \<open>col\<close> of a scanline.\<close>

definition pixel_rgb :: "u16 \<Rightarrow> bytes \<Rightarrow> nat \<Rightarrow> (u8 \<times> u8 \<times> u8) result" where
  "pixel_rgb bpp src col =
     (if bpp = 16 then
        and_then (index src (col * 2)) (\<lambda>a. and_then (index src (col * 2 + 1)) (\<lambda>b.
          Ok (rgb565 (u16_from_le_bytes a b))))
      else if bpp = 15 then
        and_then (index src (col * 2)) (\<lambda>a. and_then (index src (col * 2 + 1)) (\<lambda>b.
          Ok (rgb555 (u16_from_le_bytes a b))))
      else if bpp = 24 then
        and_then (index src (col * 3 + 2)) (\<lambda>r. and_then (index src (col * 3 + 1)) (\<lambda>g.
        and_then (index src (col * 3)) (\<lambda>b. Ok (r, g, b))))
      else if bpp = 32 then
        and_then (index src (col * 4 + 2)) (\<lambda>r. and_then (index src (col * 4 + 1)) (\<lambda>g.
        and_then (index src (col * 4)) (\<lambda>b. Ok (r, g, b))))
      else Panic)"

definition rgba_px :: "u16 \<Rightarrow> bytes \<Rightarrow> nat \<Rightarrow> bytes result" where
  "rgba_px bpp src col = and_then (pixel_rgb bpp src col) (\<lambda>(r, g, b). Ok [r, g, b, 255])"

definition rgba_row :: "bytes \<Rightarrow> nat \<Rightarrow> nat \<Rightarrow> nat \<Rightarrow> u16 \<Rightarrow> nat \<Rightarrow> bytes result" where
  "rgba_row pixels width height stride bpp row =
     (let src_row = height - 1 - row
      in and_then (slice pixels (src_row * stride) (src_row * stride + stride)) (\<lambda>src.
           traverse (rgba_px bpp src) [0..<width]))"

definition to_rgba :: "bytes \<Rightarrow> nat \<Rightarrow> nat \<Rightarrow> u16 \<Rightarrow> bytes result" where
  "to_rgba pixels width height bpp =
     and_then (bytes_per_pixel bpp) (\<lambda>bytespp.
       let stride = width * bytespp
       in and_then (need_bytes (stride * height) pixels) (\<lambda>_.
            traverse (rgba_row pixels width height stride bpp) [0..<height]))"

section \<open>Painting\<close>

definition rect_rgba :: "bitmap_rect \<Rightarrow> bytes result" where
  "rect_rgba rect =
     (let w = unat (r_width rect); h = unat (r_height rect); bpp = bits_per_pixel rect
      in if compressed rect \<and> bpp = 32 then planar_decode (r_data rect) w h
         else if compressed rect then
           and_then (decompress (r_data rect) w h bpp) (\<lambda>pixels. to_rgba pixels w h bpp)
         else to_rgba (r_data rect) w h bpp)"

definition apply_rect :: "bool \<Rightarrow> bitmap_rect \<Rightarrow> framebuffer \<Rightarrow> framebuffer result" where
  "apply_rect da rect fb =
     and_then (rect_rgba rect) (\<lambda>rgba.
       blit_rgba da (unat (dest_left rect)) (unat (dest_top rect))
         (unat (r_width rect)) (unat (r_height rect)) rgba fb)"

section \<open>Parsing is the inverse of the wire format\<close>

record wire_rect =
  w_rect :: bitmap_rect
  w_right :: u16
  w_bottom :: u16
  w_cd_header :: "(u16 \<times> u16 \<times> u16) option"

definition rect_flags :: "wire_rect \<Rightarrow> u16" where
  "rect_flags w =
     (if \<not> compressed (w_rect w) then 0
      else if w_cd_header w = None then BITMAP_COMPRESSION OR NO_BITMAP_COMPRESSION_HDR
      else BITMAP_COMPRESSION)"

definition rect_tail :: "wire_rect \<Rightarrow> bytes" where
  "rect_tail w =
     (let n = of_nat (length (r_data (w_rect w)))
      in (case w_cd_header w of
            None \<Rightarrow> put_u16_le n
          | Some (first, scan, full) \<Rightarrow>
              put_u16_le (n + 8) @ put_u16_le first @ put_u16_le n @ put_u16_le scan @ put_u16_le full) @
         r_data (w_rect w))"

definition rect_encode :: "wire_rect \<Rightarrow> bytes" where
  "rect_encode w =
     (let r = w_rect w
      in put_u16_le (dest_left r) @ put_u16_le (dest_top r) @ put_u16_le (w_right w) @
         put_u16_le (w_bottom w) @ put_u16_le (r_width r) @ put_u16_le (r_height r) @
         put_u16_le (bits_per_pixel r) @ put_u16_le (rect_flags w) @ rect_tail w)"

definition wire_rect_ok :: "wire_rect \<Rightarrow> bool" where
  "wire_rect_ok w \<longleftrightarrow> length (r_data (w_rect w)) < 65536 \<and> (w_cd_header w \<noteq> None \<longrightarrow> compressed (w_rect w))"

definition bitmap_update_encode :: "u16 \<Rightarrow> wire_rect list \<Rightarrow> bytes" where
  "bitmap_update_encode ty ws =
     put_u16_le ty @ put_u16_le (of_nat (length ws)) @ concat (map rect_encode ws)"

lemma rect_flag_bits:
  "(rect_flags w AND BITMAP_COMPRESSION \<noteq> 0) = compressed (w_rect w)"
  "compressed (w_rect w) \<Longrightarrow> (rect_flags w AND NO_BITMAP_COMPRESSION_HDR = 0) = (w_cd_header w \<noteq> None)"
  by (simp_all add: rect_flags_def BITMAP_COMPRESSION_def NO_BITMAP_COMPRESSION_HDR_def)

lemma parse_rect_encode:
  assumes "wire_rect_ok w"
  shows "parse_rect (rect_encode w @ rest) = Ok (w_rect w, rest)"
proof -
  let ?r = "w_rect w"
  have len: "length (rect_encode w @ rest) = 18 + (length (rect_tail w) - 2) + length rest"
    by (simp add: rect_encode_def rect_tail_def Let_def split: option.splits)
  have n: "unat (of_nat (length (r_data ?r)) :: u16) = length (r_data ?r)"
    using assms by (simp add: wire_rect_ok_def)
  show ?thesis
  proof (cases "w_cd_header w")
    case None
    show ?thesis
      using assms None n len rect_flag_bits [of w]
      by (cases "compressed (w_rect w)") (simp_all add: parse_rect_def rect_encode_def rect_tail_def Let_def need_bytes_def)
  next
    case (Some h)
    obtain a b c where h: "h = (a, b, c)" by (cases h)
    show ?thesis
      using assms Some h n len rect_flag_bits [of w]
      by (simp add: parse_rect_def rect_encode_def rect_tail_def cd_header_def Let_def need_bytes_def
          wire_rect_ok_def)
  qed
qed

lemma parse_rects_encode:
  "list_all wire_rect_ok ws \<Longrightarrow>
   parse_rects (length ws) (concat (map rect_encode ws) @ rest) = Ok (map w_rect ws)"
  by (induction ws) (simp_all add: parse_rect_encode)

lemma parse_bitmap_update_encode:
  assumes "list_all wire_rect_ok ws" and "length ws < 65536"
  shows "parse_bitmap_update (bitmap_update_encode ty ws) = Ok (map w_rect ws)"
  using assms parse_rects_encode [OF assms(1), of "[]"]
  by (simp add: parse_bitmap_update_def bitmap_update_encode_def)

lemma cd_header_no_panic: "cd_header n buf \<noteq> Panic"
  by (auto simp: cd_header_def dest!: get_lens)

lemma cd_header_length: "cd_header n buf = Ok (m, r) \<Longrightarrow> length r < length buf"
  by (auto simp: cd_header_def and_then_eq_Ok dest!: get_lens)

lemma parse_rect_no_panic: "parse_rect buf \<noteq> Panic"
  by (auto simp: parse_rect_def Let_def cd_header_no_panic dest!: get_lens split: if_splits)

lemma parse_rects_no_panic: "parse_rects n buf \<noteq> Panic"
  by (induction n arbitrary: buf) (auto simp: parse_rect_no_panic)

lemma parse_bitmap_update_no_panic [no_panic]: "parse_bitmap_update buf \<noteq> Panic"
  by (auto simp: parse_bitmap_update_def parse_rects_no_panic dest!: get_lens)

section \<open>Conversion, pixel by pixel\<close>

text \<open>The colour of a pixel given by its own bytes.\<close>

definition px_colour :: "u16 \<Rightarrow> bytes \<Rightarrow> u8 \<times> u8 \<times> u8" where
  "px_colour bpp px =
     (if bpp = 16 then rgb565 (u16_from_le_bytes (px ! 0) (px ! 1))
      else if bpp = 15 then rgb555 (u16_from_le_bytes (px ! 0) (px ! 1))
      else (px ! 2, px ! 1, px ! 0))"

definition rgba_of :: "u8 \<times> u8 \<times> u8 \<Rightarrow> bytes" where
  "rgba_of c = (case c of (r, g, b) \<Rightarrow> [r, g, b, 255])"

definition px_at :: "bytes \<Rightarrow> nat \<Rightarrow> nat \<Rightarrow> bytes" where
  "px_at src n i = take n (drop (i * n) src)"

lemma length_rgba_of [simp]: "length (rgba_of c) = 4"
  by (simp add: rgba_of_def split: prod.splits)

lemma pixel_rgb_colour:
  assumes "bytes_per_pixel bpp = Ok n" and "length src = width * n" and "col < width"
  shows "pixel_rgb bpp src col = Ok (px_colour bpp (px_at src n col))"
proof -
  have b: "col * n + n \<le> width * n" using assms(3) by (metis add.commute mult_Suc mult_le_mono1 Suc_leI)
  show ?thesis
    using assms b
    by (auto simp: bytes_per_pixel_def pixel_rgb_def px_colour_def px_at_def split: if_splits)
qed

lemma rgba_row_ok:
  assumes "bytes_per_pixel bpp = Ok n" and "width * n * height \<le> length pixels" and "row < height"
  shows "rgba_row pixels width height (width * n) bpp row =
    Ok (concat (map (\<lambda>col. rgba_of (px_colour bpp (px_at pixels n ((height - 1 - row) * width + col)))) [0..<width]))"
proof -
  let ?s = "(height - 1 - row) * (width * n)"
  obtain k where h: "height = row + Suc k" using assms(3) less_iff_Suc_add by auto
  have "?s + width * n = Suc k * (width * n)" using h by simp
  also have "\<dots> \<le> height * (width * n)" using h by (intro mult_right_mono) auto
  also have "\<dots> = width * n * height" by (rule mult.commute)
  finally have b: "?s + width * n \<le> length pixels" using assms(2) by linarith
  let ?src = "take (width * n) (drop ?s pixels)"
  have len: "length ?src = width * n" using b by simp
  have "traverse (rgba_px bpp ?src) [0..<width] =
      Ok (concat (map (\<lambda>col. rgba_of (px_colour bpp (px_at ?src n col))) [0..<width]))"
  proof (rule traverse_Ok)
    fix col assume "col \<in> set [0..<width]"
    then have "col < width" by simp
    from pixel_rgb_colour [OF assms(1) len this]
    show "rgba_px bpp ?src col = Ok (rgba_of (px_colour bpp (px_at ?src n col)))"
      unfolding rgba_px_def by (simp only: and_then.simps) (simp add: rgba_of_def split: prod.splits)
  qed
  moreover have "px_at ?src n col = px_at pixels n ((height - 1 - row) * width + col)" if "col < width" for col
  proof -
    have "col * n + n \<le> width * n" using that by (metis add.commute mult_Suc mult_le_mono1 Suc_leI)
    then have "min n (width * n - col * n) = n" by linarith
    moreover have "((height - 1 - row) * width + col) * n = col * n + ?s"
      by (simp add: add_mult_distrib mult.assoc)
    ultimately show ?thesis by (simp only: px_at_def drop_take take_take drop_drop)
  qed
  then have "map (\<lambda>col. rgba_of (px_colour bpp (px_at ?src n col))) [0..<width] =
      map (\<lambda>col. rgba_of (px_colour bpp (px_at pixels n ((height - 1 - row) * width + col)))) [0..<width]"
    by (intro map_cong refl) simp
  ultimately show ?thesis using b by (simp only: rgba_row_def Let_def and_then.simps slice_Ok le_add1
      add_diff_cancel_left')
qed

text \<open>Row \<open>y\<close> of the result is row \<open>height - 1 - y\<close> of the source, converted.\<close>

definition flipped_rgba :: "bytes \<Rightarrow> nat \<Rightarrow> nat \<Rightarrow> nat \<Rightarrow> u16 \<Rightarrow> bytes" where
  "flipped_rgba pixels width height n bpp =
     concat (map (\<lambda>row. concat (map (\<lambda>col.
       rgba_of (px_colour bpp (px_at pixels n ((height - 1 - row) * width + col)))) [0..<width])) [0..<height])"

lemma to_rgba_flipped:
  assumes "bytes_per_pixel bpp = Ok n" and "width * n * height \<le> length pixels"
  shows "to_rgba pixels width height bpp = Ok (flipped_rgba pixels width height n bpp)"
proof -
  have "traverse (rgba_row pixels width height (width * n) bpp) [0..<height] =
      Ok (flipped_rgba pixels width height n bpp)"
    unfolding flipped_rgba_def using assms by (intro traverse_Ok rgba_row_ok) auto
  then show ?thesis using assms by (simp add: to_rgba_def Let_def)
qed

lemma length_flipped: "length (flipped_rgba pixels width height n bpp) = width * height * 4"
  by (simp add: flipped_rgba_def length_concat comp_def sum_list_triv)

lemma flipped_rgba_nth:
  assumes "i < width * height * 4"
  shows "flipped_rgba pixels width height n bpp ! i =
    rgba_of (px_colour bpp (px_at pixels n ((height - 1 - px_y width i) * width + px_x width i))) ! (i mod 4)"
proof -
  let ?px = "\<lambda>row col. rgba_of (px_colour bpp (px_at pixels n ((height - 1 - row) * width + col)))"
  let ?row = "\<lambda>row. concat (map (?px row) [0..<width])"
  have rows: "length (?row r) = width * 4" for r by (simp add: length_concat comp_def sum_list_triv)
  have w: "0 < width" using assms by (cases width) auto
  have i: "i < length [0..<height] * (width * 4)" using assms by (simp add: algebra_simps)
  have y: "i div (width * 4) = px_y width i"
    by (simp add: px_y_def div_mult2_eq [symmetric] mult.commute)
  have yb: "px_y width i < height" using px_y_bound assms by blast
  have "flipped_rgba pixels width height n bpp ! i = ?row ([0..<height] ! (i div (width * 4))) ! (i mod (width * 4))"
    unfolding flipped_rgba_def using rows i by (intro concat_map_nth) auto
  also have "[0..<height] ! (i div (width * 4)) = px_y width i" using yb y by simp
  also have "?row (px_y width i) ! (i mod (width * 4)) =
      ?px (px_y width i) ([0..<width] ! (i mod (width * 4) div 4)) ! (i mod (width * 4) mod 4)"
    using w by (intro concat_map_nth) auto
  also have "i mod (width * 4) div 4 = px_x width i"
    by (simp add: px_x_def mult.commute [of width 4] mod_mult2_eq)
  also have "[0..<width] ! px_x width i = px_x width i" using w by (simp add: px_x_def)
  also have "i mod (width * 4) mod 4 = i mod 4" by (simp add: mod_mod_cancel)
  finally show ?thesis .
qed

lemma to_rgba_no_panic [no_panic]: "to_rgba pixels width height bpp \<noteq> Panic"
proof (cases "bytes_per_pixel bpp")
  case (Ok n)
  then show ?thesis
    using to_rgba_flipped [OF Ok, of width height pixels]
    by (cases "width * n * height \<le> length pixels") (auto simp: to_rgba_def Let_def need_bytes_Err not_le)
next
  case Panic
  then show ?thesis by (auto simp: bytes_per_pixel_def split: if_splits)
qed (simp add: to_rgba_def)

lemma to_rgba_length: "to_rgba pixels width height bpp = Ok out \<Longrightarrow> length out = width * height * 4"
proof -
  assume ok: "to_rgba pixels width height bpp = Ok out"
  then obtain n where n: "bytes_per_pixel bpp = Ok n" "width * n * height \<le> length pixels"
    by (auto simp: to_rgba_def and_then_eq_Ok Let_def)
  then show ?thesis using ok to_rgba_flipped [OF n] length_flipped by auto
qed

section \<open>Painting a rectangle\<close>

lemma rect_rgba_length: "rect_rgba rect = Ok out \<Longrightarrow> length out = unat (r_width rect) * unat (r_height rect) * 4"
  by (auto simp: rect_rgba_def Let_def and_then_eq_Ok split: if_splits
      dest: planar_decode_length to_rgba_length)

text \<open>The pixels of a rectangle that is decoded are the blit's source, clipped.\<close>

lemma apply_rect_spec:
  assumes "fb_ok fb" and "rect_rgba rect = Ok rgba"
  shows "\<exists>pixels. apply_rect da rect fb = Ok (fb\<lparr>fb_pixels := pixels\<rparr>) \<and>
    length pixels = length (fb_pixels fb) \<and>
    (\<forall>i < length pixels. pixels ! i =
       (if in_rows fb (unat (dest_left rect)) (unat (dest_top rect)) (unat (r_width rect)) 0 (unat (r_height rect)) i
        then rgba ! src_index (fb_width fb) (unat (dest_left rect)) (unat (dest_top rect)) (unat (r_width rect)) i
        else fb_pixels fb ! i))"
  using blit_rgba_spec [OF assms(1), of "unat (r_width rect)" "unat (r_height rect)" rgba]
    rect_rgba_length [OF assms(2)] assms(2)
  by (simp add: apply_rect_def)

lemma apply_rect_ok:
  assumes "fb_ok fb" and "apply_rect da rect fb = Ok fb'"
  shows "fb_ok fb' \<and> fb_width fb' = fb_width fb \<and> fb_height fb' = fb_height fb"
proof -
  obtain rgba where "rect_rgba rect = Ok rgba" using assms(2) by (auto simp: apply_rect_def and_then_eq_Ok)
  from apply_rect_spec [OF assms(1) this, of da] show ?thesis using assms by (auto simp: fb_ok_def)
qed

text \<open>An uncompressed rectangle, and a planar one that is not empty, never aborts the session.\<close>

lemma apply_rect_no_panic:
  assumes "fb_ok fb" and "compressed rect \<Longrightarrow> bits_per_pixel rect = 32 \<and> r_height rect \<noteq> 0"
  shows "apply_rect da rect fb \<noteq> Panic"
proof -
  have "0 < unat (r_height rect)" if "r_height rect \<noteq> 0" using that by (simp add: unat_gt_0)
  then have "rect_rgba rect \<noteq> Panic"
    using assms(2) planar_decode_safe to_rgba_no_panic by (auto simp: rect_rgba_def Let_def)
  then show ?thesis
    using apply_rect_spec [OF assms(1), of rect _ da] by (cases "rect_rgba rect") (auto simp: apply_rect_def)
qed

end
