(* ===== verification/Pointer.thy ===== *)
theory Pointer
  imports Prelude
begin

text \<open>
  Cursor updates (\<open>src/graphics/pointer.rs\<close>): the XOR bitmap and AND mask of a cursor,
  both bottom-up, decoded into top-down RGBA. The masks are read with \<open>get(..).unwrap_or\<close>,
  so a short mask yields default bytes and never a panic.
\<close>

record cursor =
  c_width :: nat
  c_height :: nat
  hotspot_x :: u16
  hotspot_y :: u16
  c_rgba :: bytes

definition pad :: "nat \<Rightarrow> nat \<Rightarrow> nat" where
  "pad n align = (n + align - 1) div align * align"

definition get_or :: "u8 \<Rightarrow> bytes \<Rightarrow> nat \<Rightarrow> u8" where
  "get_or d xs i = (if i < length xs then xs ! i else d)"

definition cursor_bytes_pp :: "u16 \<Rightarrow> nat result" where
  "cursor_bytes_pp xor_bpp =
     (if xor_bpp = 24 then Ok 3
      else if xor_bpp = 32 then Ok 4
      else if xor_bpp = 16 \<or> xor_bpp = 15 then Ok 2
      else Err (Protocol ''unsupported cursor bpp''))"

definition cursor_px ::
    "nat \<Rightarrow> nat \<Rightarrow> nat \<Rightarrow> nat \<Rightarrow> bytes \<Rightarrow> bytes \<Rightarrow> u16 \<Rightarrow> nat \<Rightarrow> nat \<Rightarrow> bytes" where
  "cursor_px height bytes_pp xor_stride and_stride xor_mask and_mask xor_bpp y x =
     (let src_row = height - 1 - y;
          xo = src_row * xor_stride + x * bytes_pp;
          (r, g, b) =
            (if xor_bpp = 24 \<or> xor_bpp = 32
             then (get_or 0 xor_mask (xo + 2), get_or 0 xor_mask (xo + 1), get_or 0 xor_mask xo)
             else let p = u16_from_le_bytes (get_or 0 xor_mask xo) (get_or 0 xor_mask (xo + 1))
                  in (ucast ((drop_bit 11 p AND 0x1f) * 255 div 31),
                      ucast ((drop_bit 5 p AND 0x3f) * 255 div 63),
                      ucast ((p AND 0x1f) * 255 div 31)));
          and_byte = get_or 0xff and_mask (src_row * and_stride + x div 8);
          and_bit = drop_bit (7 - x mod 8) and_byte AND 1;
          alpha = (if and_bit = 1 then 0 else 255)
      in [r, g, b, alpha])"

definition decode_masks ::
    "nat \<Rightarrow> nat \<Rightarrow> u16 \<Rightarrow> u16 \<Rightarrow> bytes \<Rightarrow> bytes \<Rightarrow> u16 \<Rightarrow> cursor result" where
  "decode_masks width height hx hy xor_mask and_mask xor_bpp =
     and_then (cursor_bytes_pp xor_bpp) (\<lambda>bytes_pp.
       let xor_stride = pad (width * bytes_pp) 2; and_stride = pad ((width + 7) div 8) 2
       in Ok \<lparr>c_width = width, c_height = height, hotspot_x = hx, hotspot_y = hy,
             c_rgba = concat (map (\<lambda>y. concat (map (\<lambda>x.
               cursor_px height bytes_pp xor_stride and_stride xor_mask and_mask xor_bpp y x)
               [0..<width])) [0..<height])\<rparr>)"

text \<open>The fixed part of TS_COLORPOINTERATTRIBUTE, read the same way in two places.\<close>

definition pointer_header :: "bytes \<Rightarrow> ((u16 \<times> u16 \<times> nat \<times> nat \<times> nat \<times> nat) \<times> bytes) result" where
  "pointer_header buf =
     and_then (get_u16_le buf) (\<lambda>(cache_index, buf).
     and_then (get_u16_le buf) (\<lambda>(hx, buf).
     and_then (get_u16_le buf) (\<lambda>(hy, buf).
     and_then (get_u16_le buf) (\<lambda>(width, buf).
     and_then (get_u16_le buf) (\<lambda>(height, buf).
     and_then (get_u16_le buf) (\<lambda>(len_and, buf).
     and_then (get_u16_le buf) (\<lambda>(len_xor, buf).
       Ok ((hx, hy, unat width, unat height, unat len_and, unat len_xor), buf))))))))"

definition pointer_masks :: "u16 \<Rightarrow> bytes \<Rightarrow> cursor result" where
  "pointer_masks bpp buf =
     and_then (pointer_header buf) (\<lambda>((hx, hy, width, height, len_and, len_xor), buf).
     and_then (need_bytes (len_xor + len_and) buf) (\<lambda>_.
     and_then (slice_to buf len_xor) (\<lambda>xor_mask.
     and_then (slice buf len_xor (len_xor + len_and)) (\<lambda>and_mask.
       decode_masks width height hx hy xor_mask and_mask bpp))))"

definition decode_color_pointer :: "bytes \<Rightarrow> cursor result" where
  "decode_color_pointer buf = and_then (need_bytes 14 buf) (\<lambda>_. pointer_masks 24 buf)"

definition decode_new_pointer :: "bytes \<Rightarrow> cursor result" where
  "decode_new_pointer buf =
     and_then (need_bytes 2 buf) (\<lambda>_.
     and_then (get_u16_le buf) (\<lambda>(xor_bpp, buf).
     and_then (decode_color_pointer buf) (\<lambda>c.
       if xor_bpp \<noteq> 24 then pointer_masks xor_bpp buf else Ok c)))"

section \<open>Decoding is total\<close>

lemma length_cursor_px [simp]: "length (cursor_px h n xs as xm am bpp y x) = 4"
  by (simp add: cursor_px_def Let_def split: prod.splits)

lemma pointer_header_no_panic: "14 \<le> length buf \<Longrightarrow> pointer_header buf \<noteq> Panic"
  by (auto simp: pointer_header_def dest!: get_lens)

lemma decode_masks_no_panic: "decode_masks w h hx hy xm am bpp \<noteq> Panic"
  by (simp add: decode_masks_def cursor_bytes_pp_def Let_def)

lemma pointer_masks_no_panic: "14 \<le> length buf \<Longrightarrow> pointer_masks bpp buf \<noteq> Panic"
  by (auto simp: pointer_masks_def pointer_header_no_panic decode_masks_no_panic)

lemma decode_color_pointer_no_panic [no_panic]: "decode_color_pointer buf \<noteq> Panic"
  by (simp add: decode_color_pointer_def pointer_masks_no_panic)

lemma decode_new_pointer_no_panic [no_panic]: "decode_new_pointer buf \<noteq> Panic"
  by (auto simp: decode_new_pointer_def decode_color_pointer_no_panic decode_color_pointer_def
      and_then_eq_Ok dest: pointer_masks_no_panic)

definition cursor_ok :: "cursor \<Rightarrow> bool" where
  "cursor_ok c \<longleftrightarrow> length (c_rgba c) = c_width c * c_height c * 4"

lemma decode_masks_ok: "decode_masks w h hx hy xm am bpp = Ok c \<Longrightarrow> cursor_ok c"
  by (auto simp: decode_masks_def cursor_ok_def Let_def and_then_eq_Ok length_concat comp_def sum_list_triv)

lemma pointer_masks_ok: "pointer_masks bpp buf = Ok c \<Longrightarrow> cursor_ok c"
  by (auto simp: pointer_masks_def and_then_eq_Ok decode_masks_ok)

lemma decode_pointer_ok:
  "decode_color_pointer buf = Ok c \<Longrightarrow> cursor_ok c"
  "decode_new_pointer buf = Ok c \<Longrightarrow> cursor_ok c"
  by (auto simp: decode_color_pointer_def decode_new_pointer_def and_then_eq_Ok pointer_masks_ok
      split: if_splits)

section \<open>What a well-formed attribute decodes to\<close>

definition pointer_encode :: "u16 \<Rightarrow> u16 \<Rightarrow> u16 \<Rightarrow> u16 \<Rightarrow> u16 \<Rightarrow> bytes \<Rightarrow> bytes \<Rightarrow> bytes" where
  "pointer_encode cache hx hy w h xor_mask and_mask =
     put_u16_le cache @ put_u16_le hx @ put_u16_le hy @ put_u16_le w @ put_u16_le h @
     put_u16_le (of_nat (length and_mask)) @ put_u16_le (of_nat (length xor_mask)) @ xor_mask @ and_mask"

lemma pointer_masks_encode:
  assumes "length xm < 65536" and "length am < 65536"
  shows "pointer_masks bpp (pointer_encode cache hx hy w h xm am @ rest) =
    decode_masks (unat w) (unat h) hx hy xm am bpp"
  using assms by (simp add: pointer_masks_def pointer_header_def pointer_encode_def)

lemma decode_new_pointer_encode:
  assumes "length xm < 65536" and "length am < 65536"
  shows "decode_new_pointer (put_u16_le bpp @ pointer_encode cache hx hy w h xm am @ rest) =
    decode_masks (unat w) (unat h) hx hy xm am bpp"
  using assms pointer_masks_encode [OF assms, where rest = rest]
  by (auto simp: decode_new_pointer_def decode_color_pointer_def decode_masks_def cursor_bytes_pp_def Let_def
      need_bytes_def) (simp_all add: pointer_encode_def)

lemma concat_grid_nth:
  assumes "\<And>y x. length (f y x) = (4 :: nat)" and "i < w * h * 4"
  shows "concat (map (\<lambda>y. concat (map (f y) [0..<w])) [0..<h]) ! i =
    f (i div 4 div w) (i div 4 mod w) ! (i mod 4)"
proof -
  let ?row = "\<lambda>y. concat (map (f y) [0..<w])"
  have rows: "length (?row y) = w * 4" for y by (simp add: length_concat comp_def assms(1) sum_list_triv)
  have w: "0 < w" using assms(2) by (cases w) auto
  have i: "i < length [0..<h] * (w * 4)" using assms(2) by (simp add: algebra_simps)
  have y: "i div (w * 4) = i div 4 div w" by (metis div_mult2_eq mult.commute)
  have yb: "i div 4 div w < h" using assms(2) w
    by (simp add: less_mult_imp_div_less mult.commute mult.left_commute)
  have "concat (map ?row [0..<h]) ! i = ?row ([0..<h] ! (i div (w * 4))) ! (i mod (w * 4))"
    using rows i by (intro concat_map_nth) auto
  also have "[0..<h] ! (i div (w * 4)) = i div 4 div w" using yb y by simp
  also have "?row (i div 4 div w) ! (i mod (w * 4)) =
      f (i div 4 div w) ([0..<w] ! (i mod (w * 4) div 4)) ! (i mod (w * 4) mod 4)"
    using w assms(1) by (intro concat_map_nth) auto
  also have "i mod (w * 4) div 4 = i div 4 mod w" by (simp add: mult.commute [of w 4] mod_mult2_eq)
  also have "[0..<w] ! (i div 4 mod w) = i div 4 mod w" using w by simp
  also have "i mod (w * 4) mod 4 = i mod 4" by (simp add: mod_mod_cancel)
  finally show ?thesis .
qed

text \<open>A pixel is transparent exactly where the AND mask, read bottom-up, has a one.\<close>

definition and_bit :: "nat \<Rightarrow> nat \<Rightarrow> bytes \<Rightarrow> nat \<Rightarrow> nat \<Rightarrow> bool" where
  "and_bit w h am y x =
     bit (get_or 0xff am ((h - 1 - y) * pad ((w + 7) div 8) 2 + x div 8)) (7 - x mod 8)"

lemma and_1_eq_bit: "(drop_bit k (b :: u8) AND 1 = 1) = bit b k"
  by (simp add: and_one_eq bit_iff_odd_drop_bit odd_iff_mod_2_eq_one)

lemma decode_masks_nth:
  assumes "decode_masks w h hx hy xm am bpp = Ok c" and "cursor_bytes_pp bpp = Ok n" and "y < h" and "x < w" and "k < 4"
  shows "c_rgba c ! ((y * w + x) * 4 + k) =
    cursor_px h n (pad (w * n) 2) (pad ((w + 7) div 8) 2) xm am bpp y x ! k"
proof -
  have c: "c_rgba c = concat (map (\<lambda>y. concat (map (\<lambda>x.
      cursor_px h n (pad (w * n) 2) (pad ((w + 7) div 8) 2) xm am bpp y x) [0..<w])) [0..<h])"
    using assms(1,2) by (auto simp: decode_masks_def Let_def)
  let ?i = "(y * w + x) * 4 + k"
  have "y * w + x < (y + 1) * w" using assms(4) by simp
  also have "\<dots> \<le> h * w" using assms(3) by (intro mult_right_mono) auto
  finally have "?i < w * h * 4" using assms(5) by (simp add: mult.commute)
  moreover have "?i div 4 = y * w + x"
    using assms(5) by simp
  moreover have "?i mod 4 = k" using assms(5) by (simp only: mod_mult_self3) simp
  moreover have "(y * w + x) div w = y" "(y * w + x) mod w = x" using assms(4) by simp_all
  ultimately show ?thesis unfolding c by (simp only: concat_grid_nth [OF length_cursor_px])
qed

lemma decode_masks_alpha:
  assumes "decode_masks w h hx hy xm am bpp = Ok c" and "y < h" and "x < w"
  shows "c_rgba c ! ((y * w + x) * 4 + 3) = (if and_bit w h am y x then 0 else 255)"
proof -
  obtain n where "cursor_bytes_pp bpp = Ok n" using assms(1) by (auto simp: decode_masks_def and_then_eq_Ok)
  from decode_masks_nth [OF assms(1) this assms(2,3), of 3] show ?thesis
    by (simp add: cursor_px_def Let_def and_bit_def and_1_eq_bit split: prod.splits)
qed

text \<open>At 24 bits the colour of a pixel is its three bytes of the XOR bitmap, in the order blue, green, red.\<close>

lemma decode_masks_colour:
  assumes "decode_masks w h hx hy xm am 24 = Ok c" and "y < h" and "x < w" and "k < 3"
  shows "c_rgba c ! ((y * w + x) * 4 + k) = get_or 0 xm ((h - 1 - y) * pad (w * 3) 2 + x * 3 + (2 - k))"
proof -
  have "cursor_bytes_pp 24 = Ok 3" by (simp add: cursor_bytes_pp_def)
  from decode_masks_nth [OF assms(1) this assms(2,3), of k] assms(4)
  have px: "c_rgba c ! ((y * w + x) * 4 + k) =
    cursor_px h 3 (pad (w * 3) 2) (pad ((w + 7) div 8) 2) xm am 24 y x ! k" by simp
  consider "k = 0" | "k = 1" | "k = 2" using assms(4) by linarith
  then show ?thesis unfolding px by cases (simp_all add: cursor_px_def Let_def)
qed

text \<open>The fourth byte of a 32-bit pixel is not read: an alpha of zero there leaves the pixel opaque.\<close>

lemma cursor_px_ignores_alpha:
  assumes "xo = (h - 1 - y) * xs + x * 4" and "xo + 3 < length xm"
  shows "cursor_px h 4 xs as (xm[xo + 3 := a]) am 32 y x = cursor_px h 4 xs as xm am 32 y x"
  using assms by (simp add: cursor_px_def Let_def get_or_def nth_list_update)

theorem cursor_alpha_byte_ignored:
  "\<exists>c. decode_new_pointer (put_u16_le 32 @ pointer_encode 0 0 0 1 1 [1, 2, 3, 0] [0, 0]) = Ok c \<and>
     c_rgba c = [3, 2, 1, 255]"
proof -
  have "decode_new_pointer (put_u16_le 32 @ pointer_encode 0 0 0 1 1 [1, 2, 3, 0] [0, 0]) =
      decode_masks 1 1 0 0 [1, 2, 3, 0] [0, 0] 32"
    using decode_new_pointer_encode [of "[1, 2, 3, 0]" "[0, 0]" 32 0 0 0 1 1 "[]"] by simp
  also have "\<dots> = Ok \<lparr>c_width = 1, c_height = 1, hotspot_x = 0, hotspot_y = 0, c_rgba = [3, 2, 1, 255]\<rparr>"
    by code_simp
  finally show ?thesis by simp
qed

end
