(* ===== verification/Fastpath.thy ===== *)
theory Fastpath
  imports Prelude
begin

text \<open>
  Fast-path output PDUs (\<open>src/graphics/fastpath.rs\<close>): the header, the one- or two-byte
  length, and the sequence of updates. The loop over the updates provides the
  \<open>stream_codec\<close> interface.
\<close>

definition UPDATETYPE_ORDERS :: u8 where "UPDATETYPE_ORDERS = 0x0"
definition UPDATETYPE_BITMAP :: u8 where "UPDATETYPE_BITMAP = 0x1"
definition UPDATETYPE_PALETTE :: u8 where "UPDATETYPE_PALETTE = 0x2"
definition UPDATETYPE_SYNCHRONIZE :: u8 where "UPDATETYPE_SYNCHRONIZE = 0x3"
definition UPDATETYPE_SURFCMDS :: u8 where "UPDATETYPE_SURFCMDS = 0x4"
definition UPDATETYPE_PTR_NULL :: u8 where "UPDATETYPE_PTR_NULL = 0x5"
definition UPDATETYPE_PTR_DEFAULT :: u8 where "UPDATETYPE_PTR_DEFAULT = 0x6"
definition UPDATETYPE_PTR_POSITION :: u8 where "UPDATETYPE_PTR_POSITION = 0x8"
definition UPDATETYPE_COLOR :: u8 where "UPDATETYPE_COLOR = 0x9"
definition UPDATETYPE_CACHED :: u8 where "UPDATETYPE_CACHED = 0xA"
definition UPDATETYPE_POINTER :: u8 where "UPDATETYPE_POINTER = 0xB"

definition FRAGMENT_SINGLE :: u8 where "FRAGMENT_SINGLE = 0x0"
definition FRAGMENT_LAST :: u8 where "FRAGMENT_LAST = 0x1"
definition FRAGMENT_FIRST :: u8 where "FRAGMENT_FIRST = 0x2"
definition FRAGMENT_NEXT :: u8 where "FRAGMENT_NEXT = 0x3"

definition FASTPATH_OUTPUT_COMPRESSION_USED :: u8 where "FASTPATH_OUTPUT_COMPRESSION_USED = 0x2"

lemmas update_types =
  UPDATETYPE_BITMAP_def UPDATETYPE_PTR_NULL_def UPDATETYPE_PTR_POSITION_def UPDATETYPE_COLOR_def
  UPDATETYPE_POINTER_def

lemmas fragments = FRAGMENT_SINGLE_def FRAGMENT_LAST_def FRAGMENT_FIRST_def FRAGMENT_NEXT_def

record fast_path_update =
  update_code :: u8
  fragmentation :: u8
  u_data :: bytes

section \<open>The parser\<close>

definition read_fp_length :: "bytes \<Rightarrow> (nat \<times> bytes) result" where
  "read_fp_length buf =
     (if buf = [] then Err (Short 1 0)
      else and_then (index buf 0) (\<lambda>b0.
        if b0 AND 0x80 = 0 then and_then (slice_from buf 1) (\<lambda>buf. Ok (unat b0, buf))
        else
          and_then (need_bytes 2 buf) (\<lambda>_.
          and_then (index buf 1) (\<lambda>b1.
          and_then (slice_from buf 2) (\<lambda>rest.
            Ok (push_bit 8 (unat (b0 AND 0x7f)) OR unat b1, rest))))))"

text \<open>One pass of the loop: \<open>body\<close> is not empty.\<close>

definition read_update :: "bytes \<Rightarrow> (fast_path_update \<times> bytes) result" where
  "read_update body =
     and_then (index body 0) (\<lambda>update_header.
     and_then (slice_from body 1) (\<lambda>body.
       let code = update_header AND 0x0f;
           frag = drop_bit 4 update_header AND 0x03;
           compression = drop_bit 6 update_header AND 0x03
       in and_then
            (if compression AND FASTPATH_OUTPUT_COMPRESSION_USED \<noteq> 0
             then (if body = [] then Err (Short 1 0) else slice_from body 1)
             else Ok body) (\<lambda>body.
          and_then (need_bytes 2 body) (\<lambda>_.
          and_then (index body 0) (\<lambda>s0.
          and_then (index body 1) (\<lambda>s1.
          and_then (slice_from body 2) (\<lambda>body.
            let size = unat (u16_from_le_bytes s0 s1)
            in and_then (need_bytes size body) (\<lambda>_.
               and_then (slice_to body size) (\<lambda>data.
               and_then (slice_from body size) (\<lambda>body.
                 Ok (\<lparr>update_code = code, fragmentation = frag, u_data = data\<rparr>, body)))))))))))"

lemma read_update_shrinks: "read_update body = Ok (u, r) \<Longrightarrow> length r < length body"
  by (auto simp: read_update_def and_then_eq_Ok Let_def split: if_splits)

function read_updates :: "bytes \<Rightarrow> fast_path_update list result" where
  "read_updates body =
     (if body = [] then Ok []
      else and_then (read_update body) (\<lambda>(u, body).
        and_then (read_updates body) (\<lambda>us. Ok (u # us))))"
  by pat_completeness auto
termination by (relation "measure length") (auto dest: read_update_shrinks)

declare read_updates.simps [simp del]

text \<open>\<open>checked_sub(consumed).unwrap_or(buf.len())\<close>.\<close>

definition fp_body_len :: "nat \<Rightarrow> nat \<Rightarrow> bytes \<Rightarrow> nat" where
  "fp_body_len total_len consumed buf =
     (if consumed \<le> total_len then total_len - consumed else length buf)"

definition parse_output_pdu :: "bytes \<Rightarrow> fast_path_update list result" where
  "parse_output_pdu pdu =
     (if pdu = [] then Err (Short 1 0)
      else and_then (index pdu 0) (\<lambda>header.
           and_then (slice_from pdu 1) (\<lambda>buf.
             if header AND 0x03 \<noteq> 0 then Err (Protocol ''not a fast-path output PDU'')
             else if header AND 0xC0 \<noteq> 0
             then Err (Protocol ''unexpected fast-path security flags under TLS'')
             else
               and_then (read_fp_length buf) (\<lambda>(total_len, buf).
                 let consumed = length pdu - length buf;
                     body_len = fp_body_len total_len consumed buf
                 in and_then (need_bytes body_len buf) (\<lambda>_.
                    and_then (slice_to buf body_len) read_updates)))))"

section \<open>The wire format\<close>

text \<open>An update without compression, as \<open>wrap\<close> in the tests builds it, and one whose
  compression flags byte is skipped.\<close>

definition update_header :: "fast_path_update \<Rightarrow> u8" where
  "update_header u = update_code u OR push_bit 4 (fragmentation u)"

definition update_encode :: "fast_path_update \<Rightarrow> bytes" where
  "update_encode u = update_header u # put_u16_le (of_nat (length (u_data u))) @ u_data u"

definition update_encode_flags :: "u8 \<Rightarrow> fast_path_update \<Rightarrow> bytes" where
  "update_encode_flags fl u =
     (update_header u OR 0x80) # fl # put_u16_le (of_nat (length (u_data u))) @ u_data u"

definition update_ok :: "fast_path_update \<Rightarrow> bool" where
  "update_ok u \<longleftrightarrow> update_code u < 16 \<and> fragmentation u < 4 \<and> length (u_data u) < 65536"

lemma header_fields:
  assumes "c < 16" and "f < 4"
  shows "(c OR push_bit 4 f) AND 0x0f = (c :: u8)"
    and "drop_bit 4 (c OR push_bit 4 f) AND 0x03 = (f :: u8)"
    and "drop_bit 6 (c OR push_bit 4 f) AND 0x03 = (0 :: u8)"
    and "(c OR push_bit 4 f OR 0x80) AND 0x0f = c"
    and "drop_bit 4 (c OR push_bit 4 f OR 0x80) AND 0x03 = f"
    and "drop_bit 6 (c OR push_bit 4 f OR 0x80) AND 0x03 = 2"
proof -
  let ?P = "\<lambda>c f :: u8. (c OR push_bit 4 f) AND 0x0f = c \<and>
      drop_bit 4 (c OR push_bit 4 f) AND 0x03 = f \<and> drop_bit 6 (c OR push_bit 4 f) AND 0x03 = 0 \<and>
      (c OR push_bit 4 f OR 0x80) AND 0x0f = c \<and>
      drop_bit 4 (c OR push_bit 4 f OR 0x80) AND 0x03 = f \<and>
      drop_bit 6 (c OR push_bit 4 f OR 0x80) AND 0x03 = 2"
  have all: "list_all (\<lambda>a. list_all (\<lambda>b. ?P (of_nat a) (of_nat b)) [0..<4]) [0..<16]" by code_simp
  have "unat c < 16" "unat f < 4" using assms by (simp_all add: word_less_nat_alt)
  then have "unat c \<in> set [0..<16]" "unat f \<in> set [0..<4]" by simp_all
  with all have "?P (of_nat (unat c)) (of_nat (unat f))" unfolding list_all_iff by blast
  moreover have "of_nat (unat c) = c" "of_nat (unat f) = f" by simp_all
  ultimately have P: "?P c f" by (simp only:)
  show "(c OR push_bit 4 f) AND 0x0f = c" and "drop_bit 4 (c OR push_bit 4 f) AND 0x03 = f"
    and "drop_bit 6 (c OR push_bit 4 f) AND 0x03 = 0" and "(c OR push_bit 4 f OR 0x80) AND 0x0f = c"
    and "drop_bit 4 (c OR push_bit 4 f OR 0x80) AND 0x03 = f"
    and "drop_bit 6 (c OR push_bit 4 f OR 0x80) AND 0x03 = 2"
    using P by blast+
qed

lemma put_u16_le_index:
  "put_u16_le w @ r = ucast w # ucast (drop_bit 8 w) # r"
  by (simp add: put_u16_le_def)

lemma read_update_plain:
  "drop_bit 6 h AND 0x03 = 0 \<Longrightarrow> length d < 65536 \<Longrightarrow>
   read_update (h # put_u16_le (of_nat (length d)) @ d @ r) =
     Ok (\<lparr>update_code = h AND 0x0f, fragmentation = drop_bit 4 h AND 0x03, u_data = d\<rparr>, r)"
  by (simp add: read_update_def Let_def put_u16_le_index)

lemma read_update_flags:
  "drop_bit 6 h AND 0x03 = 2 \<Longrightarrow> length d < 65536 \<Longrightarrow>
   read_update (h # fl # put_u16_le (of_nat (length d)) @ d @ r) =
     Ok (\<lparr>update_code = h AND 0x0f, fragmentation = drop_bit 4 h AND 0x03, u_data = d\<rparr>, r)"
  by (simp add: read_update_def Let_def put_u16_le_index FASTPATH_OUTPUT_COMPRESSION_USED_def)

lemma read_update_encode: "update_ok u \<Longrightarrow> read_update (update_encode u @ r) = Ok (u, r)"
  using header_fields [of "update_code u" "fragmentation u"] read_update_plain [of "update_header u" "u_data u" r]
  unfolding update_encode_def update_ok_def update_header_def by simp

lemma read_update_encode_flags:
  "update_ok u \<Longrightarrow> read_update (update_encode_flags fl u @ r) = Ok (u, r)"
  using header_fields [of "update_code u" "fragmentation u"]
    read_update_flags [of "update_header u OR 0x80" "u_data u" fl r]
  unfolding update_encode_flags_def update_ok_def update_header_def by (simp add: or.assoc)

interpretation fp: stream_codec update_encode read_update update_ok read_updates
proof unfold_locales
  show "read_updates [] = Ok []" by (simp add: read_updates.simps)
  show "read_updates b = and_then (read_update b) (\<lambda>(u, r). and_then (read_updates r) (\<lambda>us. Ok (u # us)))"
    if "b \<noteq> []" for b using that by (simp add: read_updates.simps)
  show "read_update (update_encode u @ r) = Ok (u, r)" if "update_ok u" for u r
    by (rule read_update_encode [OF that])
qed (simp_all add: read_update_shrinks update_encode_def)

text \<open>The length field, in the form its value calls for.\<close>

definition fp_length_encode :: "nat \<Rightarrow> bytes" where
  "fp_length_encode n =
     (if n < 0x80 then [of_nat n] else [of_nat (0x80 + n div 256), of_nat (n mod 256)])"

lemma fp_long_length_byte:
  assumes "k < 128"
  shows "(of_nat (128 + k) :: u8) AND 0x80 \<noteq> 0" and "unat ((of_nat (128 + k) :: u8) AND 0x7f) = k"
proof -
  have "list_all (\<lambda>k. (of_nat (128 + k) :: u8) AND 0x80 \<noteq> 0 \<and>
      unat ((of_nat (128 + k) :: u8) AND 0x7f) = k) [0..<128]" by code_simp
  then show "(of_nat (128 + k) :: u8) AND 0x80 \<noteq> 0" and "unat ((of_nat (128 + k) :: u8) AND 0x7f) = k"
    using assms unfolding list_all_iff by (simp_all del: of_nat_add)
qed

lemma short_length_byte: "n < 128 \<Longrightarrow> (of_nat n :: u8) AND 0x80 = 0"
proof -
  have "list_all (\<lambda>n. (of_nat n :: u8) AND 0x80 = 0) [0..<128]" by code_simp
  then show "n < 128 \<Longrightarrow> (of_nat n :: u8) AND 0x80 = 0" unfolding list_all_iff by simp
qed

lemma read_fp_length_encode:
  assumes "n < 0x8000"
  shows "read_fp_length (fp_length_encode n @ r) = Ok (n, r)"
proof (cases "n < 0x80")
  case False
  then have k: "n div 256 < 128" using assms by (simp add: div_less_iff_less_mult)
  have "push_bit 8 (n div 256) OR n mod 256 = n" by (simp add: shl8_or_nat)
  then show ?thesis
    using False fp_long_length_byte [OF k]
    by (simp add: read_fp_length_def fp_length_encode_def need_bytes_def del: of_nat_add)
qed (simp add: read_fp_length_def fp_length_encode_def short_length_byte)

definition output_pdu_encode :: "fast_path_update list \<Rightarrow> bytes" where
  "output_pdu_encode us =
     (let body = concat (map update_encode us);
          n = (if length body + 2 < 0x80 then length body + 2 else length body + 3)
      in 0x00 # fp_length_encode n @ body)"

lemma fp_body_len_exact: "c + b = t \<Longrightarrow> fp_body_len t c buf = b"
  by (auto simp: fp_body_len_def)

lemma parse_output_pdu_encode:
  assumes "list_all update_ok us" and "length (concat (map update_encode us)) + 3 < 0x8000"
  shows "parse_output_pdu (output_pdu_encode us @ junk) = Ok us"
proof -
  define body where "body = concat (map update_encode us)"
  define n where "n = (if length body + 2 < 0x80 then length body + 2 else length body + 3)"
  have enc: "output_pdu_encode us @ junk = 0x00 # fp_length_encode n @ body @ junk"
    by (simp add: output_pdu_encode_def Let_def body_def n_def)
  have "n < 0x8000" using assms(2) by (simp add: n_def body_def)
  note len = read_fp_length_encode [OF this, of "body @ junk"]
  have "Suc (length (fp_length_encode n)) + length body = n"
    by (simp add: fp_length_encode_def n_def)
  then have "fp_body_len n (Suc (length (fp_length_encode n))) (body @ junk) = length body"
    by (rule fp_body_len_exact)
  then show ?thesis
    unfolding enc using len fp.loop_concat [OF assms(1)]
    by (simp add: parse_output_pdu_def Let_def body_def)
qed

section \<open>Absence of panics\<close>

lemma read_fp_length_no_panic [no_panic]: "read_fp_length buf \<noteq> Panic"
  by (auto simp: read_fp_length_def)

lemma read_update_no_panic: "b \<noteq> [] \<Longrightarrow> read_update b \<noteq> Panic"
  by (auto simp: read_update_def Let_def split: if_splits)

lemma read_updates_no_panic [no_panic]: "read_updates b \<noteq> Panic"
proof (induction b rule: read_updates.induct)
  case (1 b)
  show ?case
  proof (cases "b = []")
    case False
    show ?thesis
      using 1 [OF False] False read_update_no_panic [OF False] by (subst read_updates.simps) fastforce
  qed (simp add: read_updates.simps)
qed

lemma parse_output_pdu_no_panic [no_panic]: "parse_output_pdu pdu \<noteq> Panic"
  by (auto simp: parse_output_pdu_def Let_def read_fp_length_no_panic read_updates_no_panic)

end
