(* ===== verification/Display.thy ===== *)
theory Display
  imports Bitmap Pointer Fastpath
begin

text \<open>
  The display state (\<open>src/graphics/update.rs\<close>): updates, whole or in fragments, are applied to
  the framebuffer and the cursor. Fragment reassembly is specified by the list of payloads an
  update sequence completes, and the display refines it.
\<close>

record display =
  d_framebuffer :: framebuffer
  d_cursor :: "cursor option"
  cursor_pos :: "u16 \<times> u16"
  dirty :: bool
  frag :: bytes
  frag_code :: u8

definition display_new :: "nat \<Rightarrow> nat \<Rightarrow> display" where
  "display_new width height =
     \<lparr>d_framebuffer = framebuffer_new width height, d_cursor = None, cursor_pos = (0, 0),
      dirty = False, frag = [], frag_code = 0\<rparr>"

section \<open>The operations\<close>

text \<open>\<open>for rect in ..\<close>: a rectangle that is an error is skipped; a panic is not caught.\<close>

fun paint_rects :: "bool \<Rightarrow> bitmap_rect list \<Rightarrow> (display, unit) io" where
  "paint_rects da [] d = (Ok (), d)"
| "paint_rects da (rect # rects) d =
     (case apply_rect da rect (d_framebuffer d) of
        Ok fb \<Rightarrow> paint_rects da rects (d\<lparr>d_framebuffer := fb, dirty := True\<rparr>)
      | Err e \<Rightarrow> paint_rects da rects d
      | Panic \<Rightarrow> (Panic, d))"

definition process :: "bool \<Rightarrow> u8 \<Rightarrow> bytes \<Rightarrow> (display, unit) io" where
  "process da code data =
     (if code = UPDATETYPE_BITMAP then
        io_bind (io_lift (parse_bitmap_update data)) (paint_rects da)
      else if code = UPDATETYPE_COLOR then
        io_bind (io_lift (decode_color_pointer data)) (\<lambda>c d. (Ok (), d\<lparr>d_cursor := Some c, dirty := True\<rparr>))
      else if code = UPDATETYPE_POINTER then
        io_bind (io_lift (decode_new_pointer data)) (\<lambda>c d. (Ok (), d\<lparr>d_cursor := Some c, dirty := True\<rparr>))
      else if code = UPDATETYPE_PTR_POSITION then
        (if 4 \<le> length data then
           (\<lambda>d. (Ok (), d\<lparr>cursor_pos := (u16_from_le_bytes (data ! 0) (data ! 1),
                                        u16_from_le_bytes (data ! 2) (data ! 3)), dirty := True\<rparr>))
         else io_ok ())
      else if code = UPDATETYPE_PTR_NULL then (\<lambda>d. (Ok (), d\<lparr>d_cursor := None, dirty := True\<rparr>))
      else io_ok ())"

definition display_apply :: "bool \<Rightarrow> fast_path_update \<Rightarrow> (display, unit) io" where
  "display_apply da u d =
     (if fragmentation u = FRAGMENT_SINGLE then process da (update_code u) (u_data u) d
      else if fragmentation u = FRAGMENT_FIRST then
        (Ok (), d\<lparr>frag := u_data u, frag_code := update_code u\<rparr>)
      else if fragmentation u = FRAGMENT_NEXT then (Ok (), d\<lparr>frag := frag d @ u_data u\<rparr>)
      else if fragmentation u = FRAGMENT_LAST then
        process da (frag_code d) (frag d @ u_data u) (d\<lparr>frag := []\<rparr>)
      else (Ok (), d))"

fun display_apply_all :: "bool \<Rightarrow> fast_path_update list \<Rightarrow> (display, unit) io" where
  "display_apply_all da [] d = (Ok (), d)"
| "display_apply_all da (u # us) d =
     io_bind (display_apply da u) (\<lambda>_. display_apply_all da us) d"

section \<open>The invariant\<close>

definition display_ok :: "display \<Rightarrow> bool" where
  "display_ok d \<longleftrightarrow> fb_ok (d_framebuffer d) \<and> pred_option cursor_ok (d_cursor d)"

definition same_size :: "display \<Rightarrow> display \<Rightarrow> bool" where
  "same_size d d' \<longleftrightarrow> fb_width (d_framebuffer d') = fb_width (d_framebuffer d) \<and>
     fb_height (d_framebuffer d') = fb_height (d_framebuffer d)"

lemma display_new_ok: "display_ok (display_new w h)"
  by (simp add: display_ok_def display_new_def)

lemma paint_rects_ok:
  "display_ok d \<Longrightarrow> paint_rects da rects d = (r, d') \<Longrightarrow> display_ok d' \<and> same_size d d'"
proof (induction da rects d rule: paint_rects.induct)
  case (2 da rect rects d)
  have fb: "fb_ok (d_framebuffer d)" using 2(3) by (simp add: display_ok_def)
  show ?case
  proof (cases "apply_rect da rect (d_framebuffer d)")
    case (Ok fb')
    let ?d = "d\<lparr>d_framebuffer := fb', dirty := True\<rparr>"
    have ok: "fb_ok fb' \<and> fb_width fb' = fb_width (d_framebuffer d) \<and> fb_height fb' = fb_height (d_framebuffer d)"
      using apply_rect_ok [OF fb Ok] .
    then have "display_ok ?d" using 2(3) by (simp add: display_ok_def)
    from 2(1) [OF Ok this] ok show ?thesis using 2(4) Ok by (simp add: same_size_def)
  next
    case (Err e)
    from 2(2) [OF Err 2(3)] 2(4) Err show ?thesis by simp
  qed (use 2(3,4) in \<open>simp add: same_size_def\<close>)
qed (simp add: same_size_def)

lemma process_ok:
  assumes "display_ok d" and "process da code data d = (r, d')"
  shows "display_ok d' \<and> same_size d d'"
proof -
  have pos: "display_ok (d\<lparr>cursor_pos := p, dirty := True\<rparr>)" for p
    using assms(1) by (simp add: display_ok_def)
  have cur: "pred_option cursor_ok c \<Longrightarrow> display_ok (d\<lparr>d_cursor := c, dirty := True\<rparr>)" for c
    using assms(1) by (simp add: display_ok_def)
  show ?thesis
    using assms paint_rects_ok [OF assms(1)]
    by (auto simp: process_def io_bind_def io_lift_def io_ok_def pos cur decode_pointer_ok same_size_def
        split: if_splits result.splits)
qed

lemma display_apply_ok:
  assumes "display_ok d" and "display_apply da u d = (r, d')"
  shows "display_ok d' \<and> same_size d d'"
proof -
  have "display_ok (d\<lparr>frag := f, frag_code := c\<rparr>)" "display_ok (d\<lparr>frag := f\<rparr>)" for f c
    using assms(1) by (simp_all add: display_ok_def)
  then show ?thesis
    using assms process_ok [of d] process_ok [of "d\<lparr>frag := []\<rparr>"]
    by (auto simp: display_apply_def same_size_def split: if_splits)
qed

lemma display_apply_all_ok:
  "display_ok d \<Longrightarrow> display_apply_all da us d = (r, d') \<Longrightarrow> display_ok d' \<and> same_size d d'"
proof (induction da us d rule: display_apply_all.induct)
  case (2 da u us d)
  obtain x d1 where d1: "display_apply da u d = (x, d1)" by fastforce
  have ok1: "display_ok d1 \<and> same_size d d1" using display_apply_ok [OF 2(2) d1] .
  show ?case
  proof (cases x)
    case (Ok z)
    then show ?thesis using 2 d1 ok1 by (auto simp: same_size_def)
  qed (use 2(3) d1 ok1 in auto)
qed (simp add: same_size_def)

section \<open>Reassembly\<close>

text \<open>The payloads that a sequence of updates completes.\<close>

fun completed :: "bytes \<times> u8 \<Rightarrow> fast_path_update list \<Rightarrow> (u8 \<times> bytes) list" where
  "completed (f, c) [] = []"
| "completed (f, c) (u # us) =
     (if fragmentation u = FRAGMENT_SINGLE then (update_code u, u_data u) # completed (f, c) us
      else if fragmentation u = FRAGMENT_FIRST then completed (u_data u, update_code u) us
      else if fragmentation u = FRAGMENT_NEXT then completed (f @ u_data u, c) us
      else if fragmentation u = FRAGMENT_LAST then (c, f @ u_data u) # completed ([], c) us
      else completed (f, c) us)"

fun process_all :: "bool \<Rightarrow> (u8 \<times> bytes) list \<Rightarrow> (display, unit) io" where
  "process_all da [] d = (Ok (), d)"
| "process_all da ((c, data) # ps) d = io_bind (process da c data) (\<lambda>_. process_all da ps) d"

text \<open>A display without its reassembly buffer: what the user sees.\<close>

definition shown :: "display \<Rightarrow> display" where
  "shown d = d\<lparr>frag := [], frag_code := 0\<rparr>"

lemma shown_simps [simp]:
  "shown (d\<lparr>frag := f\<rparr>) = shown d" "shown (d\<lparr>frag := f, frag_code := c\<rparr>) = shown d"
  "shown (d\<lparr>d_framebuffer := fb, dirty := True\<rparr>) = (shown d)\<lparr>d_framebuffer := fb, dirty := True\<rparr>"
  "shown (d\<lparr>d_cursor := cu, dirty := True\<rparr>) = (shown d)\<lparr>d_cursor := cu, dirty := True\<rparr>"
  "shown (d\<lparr>cursor_pos := p, dirty := True\<rparr>) = (shown d)\<lparr>cursor_pos := p, dirty := True\<rparr>"
  "d_framebuffer (shown d) = d_framebuffer d" "frag (shown d) = []"
  by (simp_all add: shown_def)

lemma paint_rects_shown:
  "apsnd shown (paint_rects da rects d) = paint_rects da rects (shown d)"
  by (induction da rects d rule: paint_rects.induct) (auto split: result.splits)

lemma process_shown: "apsnd shown (process da code data d) = process da code data (shown d)"
  by (simp add: process_def io_bind_def io_lift_def io_ok_def paint_rects_shown split: result.split)

lemma process_frag:
  "process da code data d = (r, d') \<Longrightarrow> frag d' = frag d \<and> frag_code d' = frag_code d"
proof -
  have p: "paint_rects da rects d = (r, d') \<Longrightarrow> frag d' = frag d \<and> frag_code d' = frag_code d" for rects r d d'
    by (induction da rects d rule: paint_rects.induct) (auto split: result.splits)
  show "process da code data d = (r, d') \<Longrightarrow> frag d' = frag d \<and> frag_code d' = frag_code d"
    by (auto simp: process_def io_bind_def io_lift_def io_ok_def split: if_splits result.splits dest: p)
qed

lemma process_all_shown: "apsnd shown (process_all da ps d) = process_all da ps (shown d)"
proof (induction da ps d rule: process_all.induct)
  case (2 da c data ps d)
  show ?case
    using 2 process_shown [of da c data d, symmetric]
    by (cases "process da c data d"; cases "fst (process da c data d)") (auto simp: io_bind_def)
qed simp

text \<open>The display shows what processing the completed payloads, in order, would.\<close>

lemma display_apply_all_completed:
  "apsnd shown (display_apply_all da us d) = process_all da (completed (frag d, frag_code d) us) (shown d)"
proof (induction da us d rule: display_apply_all.induct)
  case (2 da u us d)
  have proc: "apsnd shown (io_bind (process da c data) (\<lambda>_. display_apply_all da us) d0) =
      process_all da ((c, data) # completed (frag d0, frag_code d0) us) (shown d0)"
    if "display_apply da u d = process da c data d0" for c data d0
  proof (cases "process da c data d0")
    case (Pair r d1)
    note fr = process_frag [OF Pair]
    have sh: "process da c data (shown d0) = (r, shown d1)"
      using process_shown [of da c data d0] Pair by simp
    show ?thesis
    proof (cases r)
      case (Ok z)
      have "apsnd shown (display_apply_all da us d1) = process_all da (completed (frag d1, frag_code d1) us) (shown d1)"
        by (rule 2)
      then show ?thesis using Pair Ok sh fr by simp
    qed (use Pair sh in simp_all)
  qed
  have skip: "apsnd shown (display_apply_all da us d0) = process_all da (completed (frag d0, frag_code d0) us) (shown d0)"
    if "display_apply da u d = (Ok (), d0)" for d0
    using 2 [of d0] that by simp
  consider "fragmentation u = FRAGMENT_SINGLE" | "fragmentation u = FRAGMENT_FIRST"
    | "fragmentation u = FRAGMENT_NEXT" | "fragmentation u = FRAGMENT_LAST"
    | "fragmentation u \<notin> {FRAGMENT_SINGLE, FRAGMENT_FIRST, FRAGMENT_NEXT, FRAGMENT_LAST}" by blast
  then show ?case
  proof cases
    case 1
    then have a: "display_apply da u d = process da (update_code u) (u_data u) d" by (simp add: display_apply_def)
    from proc [OF a] show ?thesis using 1 a by (simp add: io_bind_def)
  next
    case 2
    then have a: "display_apply da u d = (Ok (), d\<lparr>frag := u_data u, frag_code := update_code u\<rparr>)"
      by (simp add: display_apply_def fragments)
    from skip [OF a] show ?thesis using 2 a by (simp add: fragments)
  next
    case 3
    then have a: "display_apply da u d = (Ok (), d\<lparr>frag := frag d @ u_data u\<rparr>)"
      by (simp add: display_apply_def fragments)
    from skip [OF a] show ?thesis using 3 a by (simp add: fragments)
  next
    case 4
    then have a: "display_apply da u d = process da (frag_code d) (frag d @ u_data u) (d\<lparr>frag := []\<rparr>)"
      by (simp add: display_apply_def fragments)
    from proc [OF a] show ?thesis using 4 a by (simp add: io_bind_def fragments)
  next
    case 5
    then have a: "display_apply da u d = (Ok (), d)" by (simp add: display_apply_def)
    from skip [OF a] show ?thesis using 5 a by simp
  qed
qed simp

text \<open>A payload cut into fragments.\<close>

definition in_fragments :: "u8 \<Rightarrow> bytes \<Rightarrow> bytes list \<Rightarrow> bytes \<Rightarrow> fast_path_update list" where
  "in_fragments c first mid final =
     \<lparr>update_code = c, fragmentation = FRAGMENT_FIRST, u_data = first\<rparr> #
     map (\<lambda>d. \<lparr>update_code = c, fragmentation = FRAGMENT_NEXT, u_data = d\<rparr>) mid @
     [\<lparr>update_code = c, fragmentation = FRAGMENT_LAST, u_data = final\<rparr>]"

lemma completed_nexts:
  "completed (f, c) (map (\<lambda>d. \<lparr>update_code = k, fragmentation = FRAGMENT_NEXT, u_data = d\<rparr>) mid @ us) =
   completed (f @ concat mid, c) us"
  by (induction mid arbitrary: f) (simp_all add: fragments)

lemma completed_in_fragments:
  "completed st (in_fragments c first mid final @ us) = (c, first @ concat mid @ final) # completed ([], c) us"
  by (cases st) (simp add: in_fragments_def completed_nexts, simp add: fragments)

section \<open>Panics\<close>

text \<open>
  The only updates that can abort the session are bitmap updates with a compressed rectangle
  that is run-length coded, or planar with no rows.
\<close>

definition rect_safe :: "bitmap_rect \<Rightarrow> bool" where
  "rect_safe r \<longleftrightarrow> (compressed r \<longrightarrow> bits_per_pixel r = 32 \<and> r_height r \<noteq> 0)"

definition payload_safe :: "u8 \<Rightarrow> bytes \<Rightarrow> bool" where
  "payload_safe code data \<longleftrightarrow>
     (code = UPDATETYPE_BITMAP \<longrightarrow>
        (case parse_bitmap_update data of Ok rects \<Rightarrow> list_all rect_safe rects | _ \<Rightarrow> True))"

lemma paint_rects_no_panic:
  "display_ok d \<Longrightarrow> list_all rect_safe rects \<Longrightarrow> fst (paint_rects da rects d) = Ok ()"
proof (induction da rects d rule: paint_rects.induct)
  case (2 da rect rects d)
  have fb: "fb_ok (d_framebuffer d)" using 2(3) by (simp add: display_ok_def)
  have safe: "apply_rect da rect (d_framebuffer d) \<noteq> Panic"
    using 2(4) by (intro apply_rect_no_panic [OF fb]) (simp add: rect_safe_def)
  show ?case
  proof (cases "apply_rect da rect (d_framebuffer d)")
    case (Ok fb')
    have "display_ok (d\<lparr>d_framebuffer := fb', dirty := True\<rparr>)"
      using apply_rect_ok [OF fb Ok] 2(3) by (simp add: display_ok_def)
    then show ?thesis using 2 Ok by simp
  qed (use 2 safe in simp_all)
qed simp

lemma process_no_panic:
  assumes "display_ok d" and "payload_safe code data"
  shows "fst (process da code data d) \<noteq> Panic"
  using assms paint_rects_no_panic [OF assms(1)]
  by (auto simp: process_def io_bind_def io_lift_def io_ok_def payload_safe_def no_panic
      split: if_splits result.splits)

lemma process_all_no_panic:
  "display_ok d \<Longrightarrow> list_all (\<lambda>(c, data). payload_safe c data) ps \<Longrightarrow> fst (process_all da ps d) \<noteq> Panic"
proof (induction da ps d rule: process_all.induct)
  case (2 da c data ps d)
  obtain r d1 where p: "process da c data d = (r, d1)" by fastforce
  have ok: "display_ok d1" using process_ok [OF 2(2) p] by simp
  have "r \<noteq> Panic" using process_no_panic [OF 2(2), of c data da] 2(3) p by simp
  then show ?case using 2(1) [OF ok] 2(3) p by (cases r) auto
qed simp

lemma display_ok_shown [simp]: "display_ok (shown d) = display_ok d"
  by (simp add: shown_def display_ok_def)

lemma display_apply_all_no_panic:
  assumes "display_ok d" and "list_all (\<lambda>(c, data). payload_safe c data) (completed (frag d, frag_code d) us)"
  shows "fst (display_apply_all da us d) \<noteq> Panic"
proof -
  have "fst (display_apply_all da us d) = fst (apsnd shown (display_apply_all da us d))" by simp
  also have "\<dots> = fst (process_all da (completed (frag d, frag_code d) us) (shown d))"
    by (simp only: display_apply_all_completed)
  finally show ?thesis using process_all_no_panic [of "shown d" _ da] assms by simp
qed

end
