(* ===== verification/Input.thy ===== *)
theory Input
  imports Fastpath
begin

text \<open>
  Fast-path client input (\<open>src/input.rs\<close>). The \<open>read_\<close> functions are a server's view of the
  format ([MS-RDPBCGR] 2.2.8.1.2), against which the writers are proved; they share the length
  reader of \<open>src/graphics/fastpath.rs\<close>.
\<close>

definition EVENT_SCANCODE :: u8 where "EVENT_SCANCODE = 0"
definition EVENT_MOUSE :: u8 where "EVENT_MOUSE = 1"
definition EVENT_MOUSEX :: u8 where "EVENT_MOUSEX = 2"
definition EVENT_UNICODE :: u8 where "EVENT_UNICODE = 4"

definition KBDFLAGS_RELEASE :: u8 where "KBDFLAGS_RELEASE = 0x01"
definition KBDFLAGS_EXTENDED :: u8 where "KBDFLAGS_EXTENDED = 0x02"

definition PTRFLAGS_WHEEL :: u16 where "PTRFLAGS_WHEEL = 0x0200"
definition PTRFLAGS_MOVE :: u16 where "PTRFLAGS_MOVE = 0x0800"
definition PTRFLAGS_DOWN :: u16 where "PTRFLAGS_DOWN = 0x8000"
definition PTRFLAGS_BUTTON1 :: u16 where "PTRFLAGS_BUTTON1 = 0x1000"
definition PTRFLAGS_BUTTON2 :: u16 where "PTRFLAGS_BUTTON2 = 0x2000"
definition PTRFLAGS_BUTTON3 :: u16 where "PTRFLAGS_BUTTON3 = 0x4000"

lemmas ptrflags =
  PTRFLAGS_WHEEL_def PTRFLAGS_MOVE_def PTRFLAGS_DOWN_def PTRFLAGS_BUTTON1_def PTRFLAGS_BUTTON2_def
  PTRFLAGS_BUTTON3_def

lemmas input_consts =
  EVENT_SCANCODE_def EVENT_MOUSE_def EVENT_MOUSEX_def EVENT_UNICODE_def KBDFLAGS_RELEASE_def
  KBDFLAGS_EXTENDED_def

definition event_header :: "u8 \<Rightarrow> u8 \<Rightarrow> u8" where
  "event_header event_code event_flags = push_bit 5 event_code OR (event_flags AND 0x1f)"

definition scancode_event :: "u8 \<Rightarrow> bool \<Rightarrow> bool \<Rightarrow> bytes" where
  "scancode_event key_code pressed extended =
     (let flags = 0;
          flags = (if \<not> pressed then flags OR KBDFLAGS_RELEASE else flags);
          flags = (if extended then flags OR KBDFLAGS_EXTENDED else flags)
      in [event_header EVENT_SCANCODE flags, key_code])"

definition unicode_event :: "u16 \<Rightarrow> bool \<Rightarrow> bytes" where
  "unicode_event code pressed =
     (let flags = (if pressed then 0 else KBDFLAGS_RELEASE)
      in [event_header EVENT_UNICODE flags] @ put_u16_le code)"

definition mouse_event :: "u16 \<Rightarrow> u16 \<Rightarrow> u16 \<Rightarrow> bytes" where
  "mouse_event pointer_flags x y =
     put_u8 (event_header EVENT_MOUSE 0) @ put_u16_le pointer_flags @ put_u16_le x @ put_u16_le y"

definition mouse_x_event :: "u16 \<Rightarrow> u16 \<Rightarrow> u16 \<Rightarrow> bytes" where
  "mouse_x_event pointer_flags x y =
     put_u8 (event_header EVENT_MOUSEX 0) @ put_u16_le pointer_flags @ put_u16_le x @ put_u16_le y"

definition input_pdu :: "bytes list \<Rightarrow> bytes" where
  "input_pdu events =
     (let num = length events;
          header = (if num \<le> 15 then push_bit 2 (of_nat num) else 0);
          body = (if num > 15 then [of_nat num] else []) @ concat events;
          base = 1 + length body
      in if base + 1 < 0x80 then header # of_nat (base + 1) # body
         else let total = base + 2
              in header # (0x80 OR of_nat (drop_bit 8 total)) # of_nat (total AND 0xff) # body)"

section \<open>The server's view\<close>

datatype input_event =
    Scancode u8 bool bool
  | Unicode_Key u16 bool
  | Mouse u16 u16 u16
  | Mouse_X u16 u16 u16

fun event_bytes :: "input_event \<Rightarrow> bytes" where
  "event_bytes (Scancode k p e) = scancode_event k p e"
| "event_bytes (Unicode_Key c p) = unicode_event c p"
| "event_bytes (Mouse f x y) = mouse_event f x y"
| "event_bytes (Mouse_X f x y) = mouse_x_event f x y"

definition read_mouse :: "(u16 \<Rightarrow> u16 \<Rightarrow> u16 \<Rightarrow> input_event) \<Rightarrow> bytes \<Rightarrow> (input_event \<times> bytes) result" where
  "read_mouse con buf =
     and_then (get_u16_le buf) (\<lambda>(f, buf).
     and_then (get_u16_le buf) (\<lambda>(x, buf).
     and_then (get_u16_le buf) (\<lambda>(y, buf). Ok (con f x y, buf))))"

definition read_event :: "bytes \<Rightarrow> (input_event \<times> bytes) result" where
  "read_event buf =
     and_then (get_u8 buf) (\<lambda>(h, buf).
       let code = drop_bit 5 h; flags = h AND 0x1f; pressed = (flags AND KBDFLAGS_RELEASE = 0)
       in if code = EVENT_SCANCODE then
            and_then (get_u8 buf) (\<lambda>(k, buf). Ok (Scancode k pressed (flags AND KBDFLAGS_EXTENDED \<noteq> 0), buf))
          else if code = EVENT_UNICODE then
            and_then (get_u16_le buf) (\<lambda>(c, buf). Ok (Unicode_Key c pressed, buf))
          else if code = EVENT_MOUSE then read_mouse Mouse buf
          else if code = EVENT_MOUSEX then read_mouse Mouse_X buf
          else Err (Protocol ''unknown input event''))"

fun read_events :: "nat \<Rightarrow> bytes \<Rightarrow> (input_event list \<times> bytes) result" where
  "read_events 0 buf = Ok ([], buf)"
| "read_events (Suc n) buf =
     and_then (read_event buf) (\<lambda>(e, buf).
     and_then (read_events n buf) (\<lambda>(es, buf). Ok (e # es, buf)))"

text \<open>The events of a PDU and the length it announces.\<close>

definition read_input :: "bytes \<Rightarrow> (input_event list \<times> nat) result" where
  "read_input pdu =
     and_then (get_u8 pdu) (\<lambda>(h, buf).
       if h AND 0x03 \<noteq> 0 then Err (Protocol ''not a fast-path input PDU'')
       else
         and_then (read_fp_length buf) (\<lambda>(total, buf).
         and_then (if drop_bit 2 h AND 0x0f = 0
                   then and_then (get_u8 buf) (\<lambda>(n, buf). Ok (unat n, buf))
                   else Ok (unat (drop_bit 2 h AND 0x0f), buf)) (\<lambda>(n, buf).
         and_then (read_events n buf) (\<lambda>(es, rest).
           if rest = [] then Ok (es, total) else Err (Protocol ''trailing bytes'')))))"

lemma read_event_bytes: "read_event (event_bytes e @ r) = Ok (e, r)"
proof (cases e)
  case (Scancode k p x)
  then show ?thesis
    by (cases p; cases x) (simp_all add: read_event_def scancode_event_def event_header_def input_consts Let_def)
next
  case (Unicode_Key c p)
  then show ?thesis
    by (cases p) (simp_all add: read_event_def unicode_event_def event_header_def input_consts Let_def)
qed (simp_all add: read_event_def read_mouse_def mouse_event_def mouse_x_event_def event_header_def input_consts
    put_u8_def Let_def)

lemma read_events_bytes: "read_events (length es) (concat (map event_bytes es) @ r) = Ok (es, r)"
  by (induction es) (simp_all add: read_event_bytes)

lemma header_count:
  assumes "n \<le> 15"
  shows "push_bit 2 (of_nat n :: u8) AND 0x03 = 0" and "drop_bit 2 (push_bit 2 (of_nat n :: u8)) AND 0x0f = of_nat n"
proof -
  have "list_all (\<lambda>n. push_bit 2 (of_nat n :: u8) AND 0x03 = 0 \<and>
      drop_bit 2 (push_bit 2 (of_nat n :: u8)) AND 0x0f = of_nat n) [0..<16]" by code_simp
  then show "push_bit 2 (of_nat n :: u8) AND 0x03 = 0"
    and "drop_bit 2 (push_bit 2 (of_nat n :: u8)) AND 0x0f = of_nat n"
    using assms unfolding list_all_iff by simp_all
qed

text \<open>The long form of the length is the one the output parser reads.\<close>

lemma long_form:
  assumes "n < 0x8000"
  shows "0x80 OR of_nat (drop_bit 8 n) = (of_nat (0x80 + n div 256) :: u8)"
    and "of_nat (n AND 0xff) = (of_nat (n mod 256) :: u8)"
proof -
  have "list_all (\<lambda>k. 0x80 OR of_nat k = (of_nat (0x80 + k) :: u8)) [0..<128]" by code_simp
  moreover have "n div 256 < 128" using assms by (simp add: div_less_iff_less_mult)
  ultimately have "0x80 OR of_nat (n div 256) = (of_nat (0x80 + n div 256) :: u8)"
    unfolding list_all_iff by (simp del: of_nat_add)
  then show "0x80 OR of_nat (drop_bit 8 n) = (of_nat (0x80 + n div 256) :: u8)"
    by (simp add: drop_bit_eq_div del: of_nat_add)
  have "n AND 0xff = take_bit 8 n" by (simp add: take_bit_eq_mask mask_eq_exp_minus_1)
  then show "of_nat (n AND 0xff) = (of_nat (n mod 256) :: u8)" by (simp add: take_bit_eq_mod)
qed

definition input_body :: "bytes list \<Rightarrow> bytes" where
  "input_body events = (if length events > 15 then [of_nat (length events)] else []) @ concat events"

definition input_header :: "bytes list \<Rightarrow> u8" where
  "input_header events = (if length events \<le> 15 then push_bit 2 (of_nat (length events)) else 0)"

lemma input_pdu_split:
  "input_pdu events =
     (let n = length (input_body events) + 2
      in if n < 0x80 then input_header events # of_nat n # input_body events
         else input_header events # (0x80 OR of_nat (drop_bit 8 (n + 1))) # of_nat ((n + 1) AND 0xff)
           # input_body events)"
  by (simp add: input_pdu_def input_header_def input_body_def Let_def)

lemma input_pdu_layout:
  assumes "length (input_body events) + 3 < 0x8000"
  shows "\<exists>total. input_pdu events = input_header events # fp_length_encode total @ input_body events \<and>
    total = length (input_pdu events) \<and> total < 0x8000"
proof (cases "length (input_body events) + 2 < 0x80")
  case True
  then show ?thesis
    by (intro exI [of _ "length (input_body events) + 2"])
      (simp add: input_pdu_split Let_def fp_length_encode_def)
next
  case False
  let ?total = "length (input_body events) + 3"
  have e: "length (input_body events) + 2 + 1 = ?total" by simp
  have "input_pdu events = input_header events # fp_length_encode ?total @ input_body events"
    unfolding input_pdu_split Let_def e long_form [OF assms] if_not_P [OF False]
    using False by (simp add: fp_length_encode_def del: of_nat_add)
  then show ?thesis
    using False assms by (intro exI [of _ ?total]) (simp add: fp_length_encode_def)
qed

lemma read_input_pdu:
  assumes "events \<noteq> []" and "length events < 256"
    and "length (input_body (map event_bytes events)) + 3 < 0x8000"
  shows "read_input (input_pdu (map event_bytes events)) =
    Ok (events, length (input_pdu (map event_bytes events)))"
proof -
  let ?evs = "map event_bytes events"
  obtain total where t: "input_pdu ?evs = input_header ?evs # fp_length_encode total @ input_body ?evs"
      "total = length (input_pdu ?evs)" "total < 0x8000"
    using input_pdu_layout [OF assms(3)] by blast
  note len = read_fp_length_encode [OF t(3)]
  note evs = read_events_bytes [of events "[]", simplified]
  have "read_input (input_header ?evs # fp_length_encode total @ input_body ?evs) = Ok (events, total)"
  proof (cases "length events \<le> 15")
    case True
    have "of_nat (length events) \<noteq> (0 :: u8)" and "unat (of_nat (length events) :: u8) = length events"
      using True assms(1) by (simp_all add: word_unat_eq_iff)
    then show ?thesis
      using True len evs header_count [OF True] by (simp add: read_input_def input_header_def input_body_def)
  next
    case False
    then show ?thesis
      using len evs assms(2) by (simp add: read_input_def input_header_def input_body_def)
  qed
  then show ?thesis by (simp only: t(1,2) [symmetric])
qed

end
