(* ===== verification/Ntlmv2.thy ===== *)
theory Ntlmv2
  imports Rust_String
begin

text \<open>
  The NTLMv2 computation (\<open>src/nla/crypto.rs\<close>, \<open>src/nla/ntlmv2.rs\<close>). The digests and RC4 come
  from the RustCrypto crates and are parameters: \<open>keystream key\<close> is the byte sequence that the
  stream cipher xors into successive bytes. Uppercasing is the Unicode table of the standard
  library and is a parameter too.
\<close>

record primitives =
  p_md4 :: "bytes \<Rightarrow> bytes"
  p_md5 :: "bytes \<Rightarrow> bytes"
  p_hmac_md5 :: "bytes \<Rightarrow> bytes \<Rightarrow> bytes"
  p_sha256 :: "bytes \<Rightarrow> bytes"
  p_keystream :: "bytes \<Rightarrow> nat \<Rightarrow> u8"
  p_uppercase :: "rstring \<Rightarrow> rstring"

text \<open>What the types of those crates say: digests have a fixed size.\<close>

definition sized :: "primitives \<Rightarrow> bool" where
  "sized P \<longleftrightarrow> (\<forall>d. length (p_md5 P d) = 16) \<and> (\<forall>k d. length (p_hmac_md5 P k d) = 16) \<and>
     (\<forall>d. length (p_sha256 P d) = 32)"

lemma sizedD [simp]:
  "sized P \<Longrightarrow> length (p_md5 P d) = 16"
  "sized P \<Longrightarrow> length (p_hmac_md5 P k d) = 16"
  "sized P \<Longrightarrow> length (p_sha256 P d) = 32"
  by (simp_all add: sized_def)

section \<open>A stream cipher\<close>

fun xor_from :: "(nat \<Rightarrow> u8) \<Rightarrow> nat \<Rightarrow> bytes \<Rightarrow> bytes" where
  "xor_from ks i [] = []"
| "xor_from ks i (b # bs) = (b XOR ks i) # xor_from ks (Suc i) bs"

lemma length_xor_from [simp]: "length (xor_from ks i bs) = length bs"
  by (induction bs arbitrary: i) auto

lemma xor_from_twice [simp]: "xor_from ks i (xor_from ks i bs) = bs"
  by (induction bs arbitrary: i) (simp_all add: xor.assoc)

text \<open>A cipher is its key and how much of the keystream it has used.\<close>

record cipher =
  ci_key :: bytes
  ci_pos :: nat

definition cipher_new :: "bytes \<Rightarrow> cipher" where
  "cipher_new key = \<lparr>ci_key = key, ci_pos = 0\<rparr>"

definition apply_keystream :: "primitives \<Rightarrow> cipher \<Rightarrow> bytes \<Rightarrow> bytes \<times> cipher" where
  "apply_keystream P c bs =
     (xor_from (p_keystream P (ci_key c)) (ci_pos c) bs, c\<lparr>ci_pos := ci_pos c + length bs\<rparr>)"

lemma apply_keystream_twice:
  "apply_keystream P c bs = (cs, c') \<Longrightarrow> apply_keystream P c cs = (bs, c')"
  by (auto simp: apply_keystream_def)

lemma apply_keystream_length: "apply_keystream P c bs = (cs, c') \<Longrightarrow> length cs = length bs"
  by (auto simp: apply_keystream_def)

definition rc4 :: "primitives \<Rightarrow> bytes \<Rightarrow> bytes \<Rightarrow> bytes" where
  "rc4 P key data = fst (apply_keystream P (cipher_new key) data)"

definition ntowf_v2 :: "primitives \<Rightarrow> rstring \<Rightarrow> rstring \<Rightarrow> rstring \<Rightarrow> bytes" where
  "ntowf_v2 P password user domain =
     (let nt_hash = p_md4 P (unicode password);
          identity = unicode (p_uppercase P user @ domain)
      in p_hmac_md5 P nt_hash identity)"

section \<open>Responses and keys\<close>

definition ntlm_temp :: "bytes \<Rightarrow> bytes \<Rightarrow> bytes \<Rightarrow> bytes" where
  "ntlm_temp time client_challenge target_info =
     [0x01] @ [0x01] @ replicate 6 0 @ time @ client_challenge @ replicate 4 0 @ target_info @ replicate 4 0"

definition nt_proof_str :: "primitives \<Rightarrow> bytes \<Rightarrow> bytes \<Rightarrow> bytes \<Rightarrow> bytes" where
  "nt_proof_str P ntowf server_challenge t = p_hmac_md5 P ntowf (server_challenge @ t)"

definition nt_challenge_response :: "bytes \<Rightarrow> bytes \<Rightarrow> bytes" where
  "nt_challenge_response proof t = proof @ t"

definition lm_challenge_response :: "primitives \<Rightarrow> bytes \<Rightarrow> bytes \<Rightarrow> bytes \<Rightarrow> bytes" where
  "lm_challenge_response P ntowf server_challenge client_challenge =
     p_hmac_md5 P ntowf (server_challenge @ client_challenge) @ client_challenge"

definition session_base_key :: "primitives \<Rightarrow> bytes \<Rightarrow> bytes \<Rightarrow> bytes" where
  "session_base_key P ntowf proof = p_hmac_md5 P ntowf proof"

definition encrypted_random_session_key :: "primitives \<Rightarrow> bytes \<Rightarrow> bytes \<Rightarrow> bytes" where
  "encrypted_random_session_key P kx_key exported = rc4 P kx_key exported"

lemma length_encrypted_key [simp]: "length (encrypted_random_session_key P k e) = length e"
  by (simp add: encrypted_random_session_key_def rc4_def apply_keystream_def)

text \<open>The server, which knows the key, gets the session key back.\<close>

lemma encrypted_key_recovered: "rc4 P k (encrypted_random_session_key P k e) = e"
  by (simp add: encrypted_random_session_key_def rc4_def apply_keystream_def cipher_new_def)

end
