(* ===== verification/Credssp.thy ===== *)
theory Credssp
  imports Der Ntlmv2
begin

text \<open>
  The CredSSP structures (\<open>src/nla/credssp.rs\<close>): TSRequest with its optional fields in context
  tags, TSCredentials, and the binding hashes.
\<close>

definition CLIENT_SERVER_MAGIC :: bytes where
  "CLIENT_SERVER_MAGIC = into_bytes (rstr ''CredSSP Client-To-Server Binding Hash'')"
definition SERVER_CLIENT_MAGIC :: bytes where
  "SERVER_CLIENT_MAGIC = into_bytes (rstr ''CredSSP Server-To-Client Binding Hash'')"

definition binding_hash :: "primitives \<Rightarrow> bytes \<Rightarrow> bytes \<Rightarrow> bytes \<Rightarrow> bytes" where
  "binding_hash P magic nonce key = p_sha256 P (magic @ [0x00] @ nonce @ key)"

definition client_server_binding_hash :: "primitives \<Rightarrow> bytes \<Rightarrow> bytes \<Rightarrow> bytes" where
  "client_server_binding_hash P nonce key = binding_hash P CLIENT_SERVER_MAGIC nonce key"

definition server_client_binding_hash :: "primitives \<Rightarrow> bytes \<Rightarrow> bytes \<Rightarrow> bytes" where
  "server_client_binding_hash P nonce key = binding_hash P SERVER_CLIENT_MAGIC nonce key"

record password_creds =
  pc_domain :: rstring
  pc_username :: rstring
  pc_password :: rstring

definition password_creds_encode :: "password_creds \<Rightarrow> bytes" where
  "password_creds_encode c =
     der_sequence
       (der_context 0 (der_octet_string (unicode (pc_domain c))) @
        der_context 1 (der_octet_string (unicode (pc_username c))) @
        der_context 2 (der_octet_string (unicode (pc_password c))))"

definition ts_credentials_password :: "password_creds \<Rightarrow> bytes" where
  "ts_credentials_password c =
     der_sequence (der_context 0 (der_integer 1) @ der_context 1 (der_octet_string (password_creds_encode c)))"

record ts_request =
  ts_version :: u32
  ts_nego_tokens :: "bytes list"
  ts_auth_info :: "bytes option"
  ts_pub_key_auth :: "bytes option"
  ts_error_code :: "u32 option"
  ts_client_nonce :: "bytes option"

definition ts_request_new :: "u32 \<Rightarrow> ts_request" where
  "ts_request_new version =
     \<lparr>ts_version = version, ts_nego_tokens = [], ts_auth_info = None, ts_pub_key_auth = None,
      ts_error_code = None, ts_client_nonce = None\<rparr>"

section \<open>Encoding\<close>

definition nego_item :: "bytes \<Rightarrow> bytes" where
  "nego_item token = der_sequence (der_context 0 (der_octet_string token))"

definition opt_field :: "('a \<Rightarrow> bytes) \<Rightarrow> 'a option \<Rightarrow> bytes" where
  "opt_field f v = (case v of None \<Rightarrow> [] | Some x \<Rightarrow> f x)"

definition ts_request_encode :: "ts_request \<Rightarrow> bytes" where
  "ts_request_encode q =
     der_sequence
       (der_context 0 (der_integer (ucast (ts_version q))) @
        (if ts_nego_tokens q \<noteq> []
         then der_context 1 (der_sequence (concat (map nego_item (ts_nego_tokens q)))) else []) @
        opt_field (\<lambda>ai. der_context 2 (der_octet_string ai)) (ts_auth_info q) @
        opt_field (\<lambda>pk. der_context 3 (der_octet_string pk)) (ts_pub_key_auth q) @
        opt_field (\<lambda>code. der_context 4 (der_integer (ucast code))) (ts_error_code q) @
        opt_field (\<lambda>nonce. der_context 5 (der_octet_string nonce)) (ts_client_nonce q))"

section \<open>Decoding\<close>

lemma der_expect_shrinks: "der_expect tag buf = Ok (v, r) \<Longrightarrow> length r < length buf"
  by (auto simp: der_expect_def and_then_eq_Ok split: if_splits dest!: read_tlv_shrinks)

text \<open>The payload of an OCTET STRING that fills the reader, and its INTEGER counterpart.\<close>

definition expect_octets :: "bytes \<Rightarrow> bytes result" where
  "expect_octets buf = and_then (der_expect TAG_OCTET_STRING buf) (\<lambda>(v, r). Ok v)"

function read_nego_items :: "bytes \<Rightarrow> bytes list result" where
  "read_nego_items lr =
     (if lr = [] then Ok []
      else and_then (der_expect TAG_SEQUENCE lr) (\<lambda>(item, lr).
           and_then (der_expect (context_tag 0) item) (\<lambda>(tok, ir).
           and_then (expect_octets tok) (\<lambda>bytes.
           and_then (read_nego_items lr) (\<lambda>toks. Ok (bytes # toks))))))"
  by pat_completeness auto
termination by (relation "measure length") (auto dest: der_expect_shrinks)

declare read_nego_items.simps [simp del]

definition ts_field :: "u8 \<Rightarrow> bytes \<Rightarrow> ts_request \<Rightarrow> ts_request result" where
  "ts_field tag value q =
     (if tag = context_tag 0 then
        and_then (der_read_integer value) (\<lambda>(v, r). Ok (q\<lparr>ts_version := ucast v\<rparr>))
      else if tag = context_tag 1 then
        and_then (der_expect TAG_SEQUENCE value) (\<lambda>(lst, nd).
        and_then (read_nego_items lst) (\<lambda>toks.
          Ok (q\<lparr>ts_nego_tokens := ts_nego_tokens q @ toks\<rparr>)))
      else if tag = context_tag 2 then
        and_then (expect_octets value) (\<lambda>v. Ok (q\<lparr>ts_auth_info := Some v\<rparr>))
      else if tag = context_tag 3 then
        and_then (expect_octets value) (\<lambda>v. Ok (q\<lparr>ts_pub_key_auth := Some v\<rparr>))
      else if tag = context_tag 4 then
        and_then (der_read_integer value) (\<lambda>(v, r). Ok (q\<lparr>ts_error_code := Some (ucast v)\<rparr>))
      else if tag = context_tag 5 then
        and_then (expect_octets value) (\<lambda>n.
          Ok (if length n = 32 then q\<lparr>ts_client_nonce := Some n\<rparr> else q))
      else Ok q)"

function ts_fields :: "ts_request \<Rightarrow> bytes \<Rightarrow> ts_request result" where
  "ts_fields q r =
     (if r = [] then Ok q
      else and_then (read_tlv r) (\<lambda>(tv, r).
           and_then (ts_field (fst tv) (snd tv) q) (\<lambda>q. ts_fields q r)))"
  by pat_completeness auto
termination by (relation "measure (\<lambda>(q, r). length r)") (auto dest!: read_tlv_shrinks)

declare ts_fields.simps [simp del]

definition ts_request_decode :: "bytes \<Rightarrow> ts_request result" where
  "ts_request_decode buf =
     and_then (der_expect TAG_SEQUENCE buf) (\<lambda>(inner, top). ts_fields (ts_request_new 0) inner)"

section \<open>Round trip\<close>

definition small :: "bytes \<Rightarrow> bool" where
  "small bs \<longleftrightarrow> length bs < 2 ^ 24"

definition ts_request_ok :: "ts_request \<Rightarrow> bool" where
  "ts_request_ok q \<longleftrightarrow> length (ts_nego_tokens q) < 64 \<and> list_all small (ts_nego_tokens q) \<and>
     pred_option small (ts_auth_info q) \<and> pred_option small (ts_pub_key_auth q) \<and>
     pred_option (\<lambda>n. length n = 32) (ts_client_nonce q)"

lemma ts_fields_context:
  "length v < 2 ^ 32 \<Longrightarrow>
   ts_fields q (der_context n v @ r) = and_then (ts_field (context_tag n) v q) (\<lambda>q. ts_fields q r)"
  by (subst ts_fields.simps) (simp add: der_context_def, simp add: tlv_def)

lemma ts_fields_Nil [simp]: "ts_fields q [] = Ok q"
  by (simp add: ts_fields.simps)

lemma context_tags:
  "context_tag 0 = 0xA0" "context_tag 1 = 0xA1" "context_tag 2 = 0xA2" "context_tag 3 = 0xA3"
  "context_tag 4 = 0xA4" "context_tag 5 = 0xA5"
  by (simp_all add: context_tag_def)

lemma expect_octets_roundtrip:
  "length v < 2 ^ 32 \<Longrightarrow> expect_octets (der_octet_string v) = Ok v"
  using der_expect_roundtrip [of v TAG_OCTET_STRING "[]"] by (simp add: expect_octets_def der_octet_string_def)

lemma length_octets: "length v < 2 ^ 32 \<Longrightarrow> length (der_octet_string v) \<le> length v + 6"
  by (simp add: der_octet_string_def length_tlv)

lemma length_nego_item: "small t \<Longrightarrow> length (nego_item t) \<le> length t + 18"
proof -
  assume "small t"
  then have t: "length t < 2 ^ 24" by (simp add: small_def)
  then have o: "length (der_octet_string t) \<le> length t + 6" by (intro length_octets) simp
  then have c: "length (der_context 0 (der_octet_string t)) \<le> length t + 12"
    using t length_tlv [of "der_octet_string t" "context_tag 0"] unfolding der_context_def by simp
  then show ?thesis
    using t length_tlv [of "der_context 0 (der_octet_string t)" TAG_SEQUENCE]
    unfolding nego_item_def der_sequence_def by simp
qed

text \<open>One item of NegoData; the loop over them provides the \<open>stream_codec\<close> interface.\<close>

definition read_nego_item :: "bytes \<Rightarrow> (bytes \<times> bytes) result" where
  "read_nego_item lr =
     and_then (der_expect TAG_SEQUENCE lr) (\<lambda>(item, lr).
     and_then (der_expect (context_tag 0) item) (\<lambda>(tok, ir).
     and_then (expect_octets tok) (\<lambda>bytes. Ok (bytes, lr))))"

lemma read_nego_item_encode:
  assumes "small t"
  shows "read_nego_item (nego_item t @ r) = Ok (t, r)"
proof -
  have t: "length t < 2 ^ 32" using assms by (simp add: small_def)
  have o: "length (der_octet_string t) < 2 ^ 32"
    using assms length_octets [OF t] by (simp add: small_def)
  have c: "length (der_context 0 (der_octet_string t)) < 2 ^ 32"
    using assms length_octets [OF t] length_tlv [OF o, of "context_tag 0"]
    by (simp add: small_def der_context_def)
  have "der_expect TAG_SEQUENCE (nego_item t @ r) = Ok (der_context 0 (der_octet_string t), r)"
    using c by (simp add: nego_item_def der_sequence_def)
  moreover have "der_expect (context_tag 0) (der_context 0 (der_octet_string t)) = Ok (der_octet_string t, [])"
    using o by (simp add: der_context_def)
  ultimately show ?thesis using expect_octets_roundtrip [OF t] by (simp add: read_nego_item_def)
qed

interpretation nego: stream_codec nego_item read_nego_item small read_nego_items
proof unfold_locales
  show "read_nego_items [] = Ok []" by (simp add: read_nego_items.simps)
  show "nego_item t \<noteq> []" for t by (simp add: nego_item_def der_sequence_def tlv_def)
  show "length r < length b" if "read_nego_item b = Ok (t, r)" for b t r
    using that by (auto simp: read_nego_item_def and_then_eq_Ok dest: der_expect_shrinks)
  show "read_nego_items b = and_then (read_nego_item b) (\<lambda>(t, r). and_then (read_nego_items r) (\<lambda>ts. Ok (t # ts)))"
    if "b \<noteq> []" for b
    using that by (subst read_nego_items.simps)
      (auto simp: read_nego_item_def and_then_assoc split_def intro!: and_then_cong)
qed (rule read_nego_item_encode)

lemma read_nego_item_no_panic: "read_nego_item b \<noteq> Panic"
  by (auto simp: read_nego_item_def expect_octets_def no_panic)

lemma length_nego_items: "list_all small toks \<Longrightarrow> length (concat (map nego_item toks)) \<le> length toks * (2 ^ 24 + 18)"
proof (induction toks)
  case (Cons t toks)
  have "length (nego_item t) \<le> 2 ^ 24 + 18"
    using length_nego_item [of t] Cons.prems by (simp add: small_def)
  then show ?case using Cons by simp
qed simp

text \<open>The fields one after another, each with what it does to the request.\<close>

lemma ts_octets:
  assumes "length v < 2 ^ 31"
  shows "ts_fields q (der_context n (der_octet_string v) @ r) =
      and_then (ts_field (context_tag n) (der_octet_string v) q) (\<lambda>q. ts_fields q r)"
    and "expect_octets (der_octet_string v) = Ok v"
proof -
  have v: "length v < 2 ^ 32" using assms by simp
  have "length (der_octet_string v) < 2 ^ 32" using assms length_octets [OF v] by simp
  then show "ts_fields q (der_context n (der_octet_string v) @ r) =
      and_then (ts_field (context_tag n) (der_octet_string v) q) (\<lambda>q. ts_fields q r)"
    by (rule ts_fields_context)
  show "expect_octets (der_octet_string v) = Ok v" by (rule expect_octets_roundtrip [OF v])
qed

lemma ucast_u64_u32 [simp]: "(ucast (ucast (w :: u32) :: u64) :: u32) = w"
  by (rule bit_word_eqI) (simp add: bit_simps)

lemma ts_integer:
  "ts_fields q (der_context n (der_integer v) @ r) =
     and_then (ts_field (context_tag n) (der_integer v) q) (\<lambda>q. ts_fields q r)"
  using length_der_integer [of v] by (intro ts_fields_context) simp

lemma ts_fields_version:
  "ts_fields q (der_context 0 (der_integer (ucast v)) @ r) = ts_fields (q\<lparr>ts_version := v\<rparr>) r"
  by (simp add: ts_integer ts_field_def)

lemma ts_fields_tokens:
  assumes "list_all small toks" and "length toks < 64" and "ts_nego_tokens q = []"
  shows "ts_fields q ((if toks \<noteq> [] then der_context 1 (der_sequence (concat (map nego_item toks))) else []) @ r) =
    ts_fields (q\<lparr>ts_nego_tokens := toks\<rparr>) r"
proof (cases "toks = []")
  case True
  have "q\<lparr>ts_nego_tokens := []\<rparr> = q" using assms(3) by (cases q) simp
  then show ?thesis using True by simp
next
  case False
  let ?items = "concat (map nego_item toks)"
  have "length ?items \<le> length toks * (2 ^ 24 + 18)" by (rule length_nego_items [OF assms(1)])
  also have "\<dots> \<le> 64 * (2 ^ 24 + 18)" using assms(2) by (intro mult_right_mono) simp_all
  finally have items: "length ?items < 2 ^ 31" by simp
  have s: "length (der_sequence ?items) < 2 ^ 32"
    using items length_tlv [of ?items TAG_SEQUENCE] by (simp add: der_sequence_def)
  have "der_expect TAG_SEQUENCE (der_sequence ?items) = Ok (?items, [])"
    using items by (simp add: der_sequence_def)
  then show ?thesis
    using False ts_fields_context [OF s, of q 1 r] nego.loop_concat [OF assms(1)] assms(3)
    by (simp add: ts_field_def context_tags)
qed

lemma ts_fields_octets:
  assumes "pred_option small v" and "n \<in> {2, 3}"
  shows "ts_fields q (opt_field (\<lambda>x. der_context n (der_octet_string x)) v @ r) =
    (case v of None \<Rightarrow> ts_fields q r
     | Some x \<Rightarrow> ts_fields (if n = 2 then q\<lparr>ts_auth_info := Some x\<rparr> else q\<lparr>ts_pub_key_auth := Some x\<rparr>) r)"
proof (cases v)
  case (Some x)
  then have "length x < 2 ^ 31" using assms(1) by (simp add: small_def)
  from ts_octets [OF this] show ?thesis
    using Some assms(2) by (auto simp: opt_field_def ts_field_def context_tags)
qed (simp add: opt_field_def)

lemma ts_fields_error:
  "ts_fields q (opt_field (\<lambda>c. der_context 4 (der_integer (ucast c))) v @ r) =
     (case v of None \<Rightarrow> ts_fields q r | Some c \<Rightarrow> ts_fields (q\<lparr>ts_error_code := Some c\<rparr>) r)"
  by (cases v) (simp_all add: opt_field_def ts_integer ts_field_def context_tags)

lemma ts_fields_nonce:
  assumes "pred_option (\<lambda>n. length n = 32) v"
  shows "ts_fields q (opt_field (\<lambda>n. der_context 5 (der_octet_string n)) v) =
    (case v of None \<Rightarrow> Ok q | Some n \<Rightarrow> Ok (q\<lparr>ts_client_nonce := Some n\<rparr>))"
proof (cases v)
  case (Some x)
  then have "length x < 2 ^ 31" using assms by simp
  from ts_octets(1) [OF this, of q 5 "[]"] ts_octets(2) [OF this] show ?thesis
    using Some assms by (simp add: opt_field_def ts_field_def context_tags)
qed (simp add: opt_field_def)

definition ts_body :: "ts_request \<Rightarrow> bytes" where
  "ts_body q =
     der_context 0 (der_integer (ucast (ts_version q))) @
     (if ts_nego_tokens q \<noteq> []
      then der_context 1 (der_sequence (concat (map nego_item (ts_nego_tokens q)))) else []) @
     opt_field (\<lambda>ai. der_context 2 (der_octet_string ai)) (ts_auth_info q) @
     opt_field (\<lambda>pk. der_context 3 (der_octet_string pk)) (ts_pub_key_auth q) @
     opt_field (\<lambda>code. der_context 4 (der_integer (ucast code))) (ts_error_code q) @
     opt_field (\<lambda>nonce. der_context 5 (der_octet_string nonce)) (ts_client_nonce q)"

lemma ts_fields_body:
  assumes "ts_request_ok q"
  shows "ts_fields (ts_request_new 0) (ts_body q) = Ok q"
proof -
  have toks: "list_all small (ts_nego_tokens q)" "length (ts_nego_tokens q) < 64"
    and ai: "pred_option small (ts_auth_info q)" and pk: "pred_option small (ts_pub_key_auth q)"
    and no: "pred_option (\<lambda>n. length n = 32) (ts_client_nonce q)"
    using assms by (simp_all add: ts_request_ok_def)
  show ?thesis
    unfolding ts_body_def ts_fields_version
    apply (subst ts_fields_tokens [OF toks], simp add: ts_request_new_def)
    apply (simp add: ts_fields_octets [OF ai] ts_fields_octets [OF pk] ts_fields_error ts_fields_nonce [OF no]
        split: option.splits)
    apply (cases q, simp add: ts_request_new_def)
    done
qed

lemma length_opt_field: "(\<And>x. v = Some x \<Longrightarrow> length (f x) \<le> k) \<Longrightarrow> length (opt_field f v) \<le> k"
  by (cases v) (simp_all add: opt_field_def)

lemma length_context: "length v + 6 < 2 ^ 32 \<Longrightarrow> length (der_context n v) \<le> length v + 6"
  unfolding der_context_def by (rule length_tlv) simp

lemma length_ts_octets: "length v < 2 ^ 31 \<Longrightarrow> length (der_context n (der_octet_string v)) \<le> length v + 12"
  using length_octets [of v] length_context [of "der_octet_string v" n] by simp

lemma length_ts_body:
  assumes "ts_request_ok q"
  shows "length (ts_body q) < 2 ^ 31"
proof -
  have v: "length (der_context n (der_integer w)) \<le> 21" for n w
    using length_der_integer [of w] length_context [of "der_integer w" n] by simp
  have t: "length (concat (map nego_item (ts_nego_tokens q))) \<le> 64 * (2 ^ 24 + 18)"
  proof -
    have "length (concat (map nego_item (ts_nego_tokens q))) \<le> length (ts_nego_tokens q) * (2 ^ 24 + 18)"
      using assms by (intro length_nego_items) (simp add: ts_request_ok_def)
    also have "\<dots> \<le> 64 * (2 ^ 24 + 18)" using assms by (intro mult_right_mono) (simp_all add: ts_request_ok_def)
    finally show ?thesis .
  qed
  have s: "length (der_sequence (concat (map nego_item (ts_nego_tokens q)))) \<le> 64 * (2 ^ 24 + 18) + 6"
    using t length_tlv [of "concat (map nego_item (ts_nego_tokens q))" TAG_SEQUENCE]
    unfolding der_sequence_def by simp
  have n: "length (der_context 1 (der_sequence (concat (map nego_item (ts_nego_tokens q))))) \<le> 64 * (2 ^ 24 + 18) + 12"
    using s length_context [of "der_sequence (concat (map nego_item (ts_nego_tokens q)))" 1] by simp
  have a: "length (opt_field (\<lambda>ai. der_context 2 (der_octet_string ai)) (ts_auth_info q)) \<le> 2 ^ 24 + 12"
  proof (rule length_opt_field)
    fix x assume "ts_auth_info q = Some x"
    then have "length x < 2 ^ 24" using assms by (simp add: ts_request_ok_def small_def)
    then show "length (der_context 2 (der_octet_string x)) \<le> 2 ^ 24 + 12"
      using length_ts_octets [of x 2] by simp
  qed
  have p: "length (opt_field (\<lambda>pk. der_context 3 (der_octet_string pk)) (ts_pub_key_auth q)) \<le> 2 ^ 24 + 12"
  proof (rule length_opt_field)
    fix x assume "ts_pub_key_auth q = Some x"
    then have "length x < 2 ^ 24" using assms by (simp add: ts_request_ok_def small_def)
    then show "length (der_context 3 (der_octet_string x)) \<le> 2 ^ 24 + 12"
      using length_ts_octets [of x 3] by simp
  qed
  have e: "length (opt_field (\<lambda>c. der_context 4 (der_integer (ucast c))) (ts_error_code q)) \<le> 21"
    by (rule length_opt_field) (rule v)
  have c: "length (opt_field (\<lambda>n. der_context 5 (der_octet_string n)) (ts_client_nonce q)) \<le> 44"
  proof (rule length_opt_field)
    fix x assume "ts_client_nonce q = Some x"
    then have "length x = 32" using assms by (simp add: ts_request_ok_def)
    then show "length (der_context 5 (der_octet_string x)) \<le> 44" using length_ts_octets [of x 5] by simp
  qed
  show ?thesis
    unfolding ts_body_def using v [of 0 "ucast (ts_version q)"] n a p e c by (simp split: if_splits)
qed

lemma ts_request_roundtrip:
  assumes "ts_request_ok q"
  shows "ts_request_decode (ts_request_encode q @ r) = Ok q"
proof -
  have "ts_request_encode q = der_sequence (ts_body q)" by (simp add: ts_request_encode_def ts_body_def)
  then show ?thesis
    using length_ts_body [OF assms] ts_fields_body [OF assms] by (simp add: ts_request_decode_def der_sequence_def)
qed

section \<open>Absence of panics\<close>

lemma expect_octets_no_panic [no_panic]: "expect_octets buf \<noteq> Panic"
  by (auto simp: expect_octets_def no_panic)

lemma read_nego_items_no_panic [no_panic]: "read_nego_items lr \<noteq> Panic"
  by (rule nego.loop_no_panic [OF read_nego_item_no_panic])

lemma ts_field_no_panic [no_panic]: "ts_field tag value q \<noteq> Panic"
  by (auto simp: ts_field_def no_panic)

lemma ts_fields_no_panic [no_panic]: "ts_fields q r \<noteq> Panic"
proof (induction q r rule: ts_fields.induct)
  case (1 q r)
  then show ?case by (subst ts_fields.simps) (auto simp: no_panic)
qed

lemma ts_request_decode_no_panic [no_panic]: "ts_request_decode buf \<noteq> Panic"
  by (auto simp: ts_request_decode_def no_panic)

end
