(* ===== verification/Ntlm.thy ===== *)
theory Ntlm
  imports Ntlmv2
begin

text \<open>
  The NTLM messages (\<open>src/nla/ntlm.rs\<close>): fixed headers with security buffers that point into a
  payload. The decoders check the first twelve bytes and then read without a guard, so a
  message cut short in its header panics; this is stated, not hidden.
\<close>

definition SIGNATURE :: bytes where
  "SIGNATURE = [0x4E, 0x54, 0x4C, 0x4D, 0x53, 0x53, 0x50, 0x00]"

definition F_UNICODE :: u32 where "F_UNICODE = 0x00000001"
definition F_SIGN :: u32 where "F_SIGN = 0x00000010"
definition F_SEAL :: u32 where "F_SEAL = 0x00000020"
definition F_NTLM :: u32 where "F_NTLM = 0x00000200"
definition F_ALWAYS_SIGN :: u32 where "F_ALWAYS_SIGN = 0x00008000"
definition F_EXTENDED_SESSIONSECURITY :: u32 where "F_EXTENDED_SESSIONSECURITY = 0x00080000"
definition F_TARGET_INFO :: u32 where "F_TARGET_INFO = 0x00800000"
definition F_VERSION :: u32 where "F_VERSION = 0x02000000"
definition F_NEGOTIATE_128 :: u32 where "F_NEGOTIATE_128 = 0x20000000"
definition F_KEY_EXCH :: u32 where "F_KEY_EXCH = 0x40000000"
definition F_NEGOTIATE_56 :: u32 where "F_NEGOTIATE_56 = 0x80000000"

text \<open>The flags the client never sets.\<close>

definition F_OEM :: u32 where "F_OEM = 0x00000002"
definition F_REQUEST_TARGET :: u32 where "F_REQUEST_TARGET = 0x00000004"
definition F_DATAGRAM :: u32 where "F_DATAGRAM = 0x00000040"
definition F_LM_KEY :: u32 where "F_LM_KEY = 0x00000080"
definition F_ANONYMOUS :: u32 where "F_ANONYMOUS = 0x00000800"
definition F_OEM_DOMAIN_SUPPLIED :: u32 where "F_OEM_DOMAIN_SUPPLIED = 0x00001000"
definition F_OEM_WORKSTATION_SUPPLIED :: u32 where "F_OEM_WORKSTATION_SUPPLIED = 0x00002000"
definition F_TARGET_TYPE_DOMAIN :: u32 where "F_TARGET_TYPE_DOMAIN = 0x00010000"
definition F_TARGET_TYPE_SERVER :: u32 where "F_TARGET_TYPE_SERVER = 0x00020000"
definition F_IDENTIFY :: u32 where "F_IDENTIFY = 0x00100000"
definition F_REQUEST_NON_NT_SESSION_KEY :: u32 where "F_REQUEST_NON_NT_SESSION_KEY = 0x00400000"

lemmas ntlm_flags =
  F_UNICODE_def F_SIGN_def F_SEAL_def F_NTLM_def F_ALWAYS_SIGN_def F_EXTENDED_SESSIONSECURITY_def
  F_TARGET_INFO_def F_VERSION_def F_NEGOTIATE_128_def F_KEY_EXCH_def F_NEGOTIATE_56_def

definition flag_has :: "u32 \<Rightarrow> u32 \<Rightarrow> bool" where
  "flag_has flags b \<longleftrightarrow> flags AND b \<noteq> 0"

definition flag_with :: "u32 \<Rightarrow> u32 \<Rightarrow> u32" where
  "flag_with flags b = flags OR b"

definition AV_EOL :: u16 where "AV_EOL = 0x0000"
definition AV_NB_COMPUTER_NAME :: u16 where "AV_NB_COMPUTER_NAME = 0x0001"
definition AV_NB_DOMAIN_NAME :: u16 where "AV_NB_DOMAIN_NAME = 0x0002"
definition AV_DNS_COMPUTER_NAME :: u16 where "AV_DNS_COMPUTER_NAME = 0x0003"
definition AV_DNS_DOMAIN_NAME :: u16 where "AV_DNS_DOMAIN_NAME = 0x0004"
definition AV_DNS_TREE_NAME :: u16 where "AV_DNS_TREE_NAME = 0x0005"
definition AV_FLAGS :: u16 where "AV_FLAGS = 0x0006"
definition AV_TIMESTAMP :: u16 where "AV_TIMESTAMP = 0x0007"
definition AV_SINGLE_HOST :: u16 where "AV_SINGLE_HOST = 0x0008"
definition AV_TARGET_NAME :: u16 where "AV_TARGET_NAME = 0x0009"
definition AV_CHANNEL_BINDINGS :: u16 where "AV_CHANNEL_BINDINGS = 0x000A"

section \<open>Security buffers\<close>

record field =
  f_len :: u16
  f_offset :: u32

definition field_write :: "field \<Rightarrow> bytes" where
  "field_write f = put_u16_le (f_len f) @ put_u16_le (f_len f) @ put_u32_le (f_offset f)"

definition field_read :: "bytes \<Rightarrow> (field \<times> bytes) result" where
  "field_read buf =
     and_then (get_u16_le buf) (\<lambda>(len, buf).
     and_then (get_u16_le buf) (\<lambda>(mx, buf).
     and_then (get_u32_le buf) (\<lambda>(offset, buf). Ok (\<lparr>f_len = len, f_offset = offset\<rparr>, buf))))"

definition field_slice :: "field \<Rightarrow> bytes \<Rightarrow> bytes result" where
  "field_slice f msg =
     (let start = unat (f_offset f); end = start + unat (f_len f)
      in if length msg < end then Err (Short end (length msg)) else slice msg start end)"

definition check_signature :: "bytes \<Rightarrow> u32 \<Rightarrow> bytes result" where
  "check_signature buf expected_type =
     and_then (need_bytes 12 buf) (\<lambda>_.
     and_then (slice_to buf 8) (\<lambda>sig.
       if sig \<noteq> SIGNATURE then Err (Protocol ''bad NTLMSSP signature'')
       else
         and_then (advance 8 buf) (\<lambda>buf.
         and_then (get_u32_le buf) (\<lambda>(ty, buf).
           if ty \<noteq> expected_type then Err (Protocol ''unexpected NTLM message type'') else Ok buf))))"

section \<open>NEGOTIATE\<close>

record negotiate_message =
  n_flags :: u32
  n_version :: "bytes option"

definition negotiate_encode :: "negotiate_message \<Rightarrow> bytes" where
  "negotiate_encode m =
     (let header_len = 32 + (if n_version m \<noteq> None then 8 else 0)
      in SIGNATURE @ put_u32_le 1 @ put_u32_le (n_flags m) @
         field_write \<lparr>f_len = 0, f_offset = header_len\<rparr> @
         field_write \<lparr>f_len = 0, f_offset = header_len\<rparr> @
         (case n_version m of None \<Rightarrow> [] | Some v \<Rightarrow> v))"

definition negotiate_decode :: "bytes \<Rightarrow> negotiate_message result" where
  "negotiate_decode msg =
     and_then (check_signature msg 1) (\<lambda>buf.
     and_then (get_u32_le buf) (\<lambda>(flags, buf).
     and_then (field_read buf) (\<lambda>(domain, buf).
     and_then (field_read buf) (\<lambda>(ws, buf).
     and_then (if flag_has flags F_VERSION \<and> 8 \<le> length buf
               then and_then (slice_to buf 8) (\<lambda>v. Ok (Some v)) else Ok None) (\<lambda>version.
       Ok \<lparr>n_flags = flags, n_version = version\<rparr>)))))"

section \<open>CHALLENGE\<close>

record challenge_message =
  c_flags :: u32
  c_server_challenge :: bytes
  c_target_name :: bytes
  c_target_info :: bytes

definition challenge_decode :: "bytes \<Rightarrow> challenge_message result" where
  "challenge_decode msg =
     and_then (check_signature msg 2) (\<lambda>buf.
     and_then (field_read buf) (\<lambda>(target_name_field, buf).
     and_then (get_u32_le buf) (\<lambda>(flags, buf).
     and_then (need_bytes 16 buf) (\<lambda>_.
     and_then (slice_to buf 8) (\<lambda>server_challenge.
     and_then (advance 8 buf) (\<lambda>buf.
     and_then (advance 8 buf) (\<lambda>buf.
     and_then (field_read buf) (\<lambda>(target_info_field, buf).
     and_then (or_default [] (field_slice target_name_field msg)) (\<lambda>target_name.
     and_then (or_default [] (field_slice target_info_field msg)) (\<lambda>target_info.
       Ok \<lparr>c_flags = flags, c_server_challenge = server_challenge,
           c_target_name = target_name, c_target_info = target_info\<rparr>))))))))))"

definition challenge_encode :: "challenge_message \<Rightarrow> bytes" where
  "challenge_encode m =
     (let header_len = 48
      in SIGNATURE @ put_u32_le 2 @
         field_write \<lparr>f_len = of_nat (length (c_target_name m)), f_offset = header_len\<rparr> @
         put_u32_le (c_flags m) @ c_server_challenge m @ put_u64_le 0 @
         field_write \<lparr>f_len = of_nat (length (c_target_info m)),
                      f_offset = header_len + of_nat (length (c_target_name m))\<rparr> @
         c_target_name m @ c_target_info m)"

section \<open>AUTHENTICATE\<close>

record authenticate_message =
  a_flags :: u32
  a_domain :: bytes
  a_user :: bytes
  a_workstation :: bytes
  a_lm_response :: bytes
  a_nt_response :: bytes
  a_encrypted_session_key :: bytes
  a_version :: bytes
  a_mic :: bytes

definition AUTH_HEADER_LEN :: nat where "AUTH_HEADER_LEN = 88"
definition MIC_OFFSET :: nat where "MIC_OFFSET = 72"

text \<open>The closure \<open>place\<close>: the descriptors of the parts, from an offset on.\<close>

fun place :: "u32 \<Rightarrow> bytes list \<Rightarrow> field list" where
  "place off [] = []"
| "place off (bs # parts) =
     \<lparr>f_len = of_nat (length bs), f_offset = off\<rparr> # place (off + of_nat (length bs)) parts"

definition auth_parts :: "authenticate_message \<Rightarrow> bytes list" where
  "auth_parts m =
     [a_lm_response m, a_nt_response m, a_domain m, a_user m, a_workstation m, a_encrypted_session_key m]"

definition authenticate_encode :: "authenticate_message \<Rightarrow> bytes" where
  "authenticate_encode m =
     SIGNATURE @ put_u32_le 3 @ concat (map field_write (place (of_nat AUTH_HEADER_LEN) (auth_parts m))) @
     put_u32_le (a_flags m) @ a_version m @ a_mic m @ concat (auth_parts m)"

definition compute_mic :: "primitives \<Rightarrow> bytes \<Rightarrow> bytes \<Rightarrow> bytes \<Rightarrow> authenticate_message \<Rightarrow> authenticate_message" where
  "compute_mic P exported_session_key negotiate challenge m =
     (let m = m\<lparr>a_mic := replicate 16 0\<rparr>; auth_zeroed = authenticate_encode m
      in m\<lparr>a_mic := p_hmac_md5 P exported_session_key (negotiate @ challenge @ auth_zeroed)\<rparr>)"

definition authenticate_decode :: "bytes \<Rightarrow> authenticate_message result" where
  "authenticate_decode msg =
     and_then (check_signature msg 3) (\<lambda>buf.
     and_then (field_read buf) (\<lambda>(lm_f, buf).
     and_then (field_read buf) (\<lambda>(nt_f, buf).
     and_then (field_read buf) (\<lambda>(dom_f, buf).
     and_then (field_read buf) (\<lambda>(user_f, buf).
     and_then (field_read buf) (\<lambda>(ws_f, buf).
     and_then (field_read buf) (\<lambda>(key_f, buf).
     and_then (get_u32_le buf) (\<lambda>(flags, buf).
     and_then (need_bytes (8 + 16) buf) (\<lambda>_.
     and_then (slice_to buf 8) (\<lambda>version.
     and_then (advance 8 buf) (\<lambda>buf.
     and_then (slice_to buf 16) (\<lambda>mic.
     and_then (field_slice dom_f msg) (\<lambda>domain.
     and_then (field_slice user_f msg) (\<lambda>user.
     and_then (field_slice ws_f msg) (\<lambda>workstation.
     and_then (field_slice lm_f msg) (\<lambda>lm_response.
     and_then (field_slice nt_f msg) (\<lambda>nt_response.
     and_then (field_slice key_f msg) (\<lambda>key.
       Ok \<lparr>a_flags = flags, a_domain = domain, a_user = user, a_workstation = workstation,
           a_lm_response = lm_response, a_nt_response = nt_response, a_encrypted_session_key = key,
           a_version = version, a_mic = mic\<rparr>))))))))))))))))))"

section \<open>AV pairs\<close>

function parse_av_pairs :: "bytes \<Rightarrow> (u16 \<times> bytes) list" where
  "parse_av_pairs ti =
     (case ti of
        i0 # i1 # l0 # l1 # rest \<Rightarrow>
          (let av = u16_from_le_bytes i0 i1; len = unat (u16_from_le_bytes l0 l1)
           in if av = AV_EOL then []
              else if length rest < len then []
              else (av, take len rest) # parse_av_pairs (drop len rest))
      | _ \<Rightarrow> [])"
  by pat_completeness auto
termination by (relation "measure length") auto

declare parse_av_pairs.simps [simp del]

section \<open>Round trips\<close>

lemma length_SIGNATURE [simp]: "length SIGNATURE = 8"
  by (simp add: SIGNATURE_def)

lemma length_field_write [simp]: "length (field_write f) = 8"
  by (simp add: field_write_def)

lemma field_read_write [simp, parse_simps]: "field_read (field_write f @ r) = Ok (f, r)"
  by (simp add: field_read_def field_write_def)

lemma field_read_write_nil [simp, parse_simps]: "field_read (field_write f) = Ok (f, [])"
  using field_read_write [of f "[]"] by simp

lemma field_read_length: "field_read buf = Ok (f, r) \<Longrightarrow> length buf = 8 + length r"
  by (auto simp: field_read_def and_then_eq_Ok dest!: get_lens)

lemma field_read_not_Err [simp]: "field_read buf \<noteq> Err e"
  by (auto simp: field_read_def and_then_eq_Err)

lemma field_read_Panic [simp]: "field_read buf = Panic \<longleftrightarrow> length buf < 8"
proof
  show "field_read buf = Panic \<Longrightarrow> length buf < 8" by (auto simp: field_read_def dest!: get_lens)
  show "length buf < 8 \<Longrightarrow> field_read buf = Panic"
    by (cases "field_read buf") (auto dest: field_read_length)
qed

lemma field_slice_no_panic [simp]: "field_slice f msg \<noteq> Panic"
  by (simp add: field_slice_def Let_def)

lemma check_signature_ok [simp, parse_simps]:
  "check_signature (SIGNATURE @ put_u32_le ty @ r) ty = Ok r"
  by (simp add: check_signature_def)

lemma check_signature_no_panic [simp]: "check_signature buf ty \<noteq> Panic"
  by (auto simp: check_signature_def advance_eq_Ok dest!: get_lens)

lemma check_signature_length: "check_signature buf ty = Ok r \<Longrightarrow> length buf = 12 + length r"
  by (auto simp: check_signature_def and_then_eq_Ok advance_eq_Ok dest!: get_lens split: if_splits)

lemma negotiate_roundtrip:
  assumes "case n_version m of None \<Rightarrow> True | Some v \<Rightarrow> length v = 8 \<and> flag_has (n_flags m) F_VERSION"
  shows "negotiate_decode (negotiate_encode m) = Ok m"
  using assms
  by (cases "n_version m") (simp_all add: negotiate_decode_def negotiate_encode_def Let_def)

text \<open>Each descriptor of \<open>place\<close> selects its part of the payload.\<close>

lemma field_slice_part:
  assumes "length hdr < 2 ^ 32" and "length bs < 65536"
  shows "field_slice \<lparr>f_len = of_nat (length bs), f_offset = of_nat (length hdr)\<rparr> (hdr @ bs @ tail) = Ok bs"
  using assms by (simp add: field_slice_def Let_def)

lemma place_slices:
  assumes "length (hdr @ concat parts) < 2 ^ 32" and "list_all (\<lambda>p. length p < 65536) parts"
  shows "list_all2 (\<lambda>f p. field_slice f (hdr @ concat parts) = Ok p) (place (of_nat (length hdr)) parts) parts"
  using assms
proof (induction parts arbitrary: hdr)
  case (Cons bs parts)
  have "list_all2 (\<lambda>f p. field_slice f ((hdr @ bs) @ concat parts) = Ok p)
      (place (of_nat (length (hdr @ bs))) parts) parts"
    using Cons.prems by (intro Cons.IH) simp_all
  then show ?case using Cons.prems field_slice_part [of hdr bs "concat parts"] by simp
qed simp

definition auth_ok :: "authenticate_message \<Rightarrow> bool" where
  "auth_ok m \<longleftrightarrow> length (a_version m) = 8 \<and> length (a_mic m) = 16 \<and>
     list_all (\<lambda>p. length p < 65536) (auth_parts m)"

lemma authenticate_roundtrip:
  assumes "auth_ok m"
  shows "authenticate_decode (authenticate_encode m) = Ok m"
proof -
  obtain f1 f2 f3 f4 f5 f6 where fs: "place (of_nat AUTH_HEADER_LEN) (auth_parts m) = [f1, f2, f3, f4, f5, f6]"
    by (simp add: auth_parts_def)
  let ?hdr = "SIGNATURE @ put_u32_le 3 @ concat (map field_write [f1, f2, f3, f4, f5, f6]) @
      put_u32_le (a_flags m) @ a_version m @ a_mic m"
  let ?msg = "?hdr @ concat (auth_parts m)"
  have enc: "authenticate_encode m = ?msg" by (simp add: authenticate_encode_def fs)
  have hdr: "length ?hdr = AUTH_HEADER_LEN" using assms by (simp add: auth_ok_def AUTH_HEADER_LEN_def)
  have parts: "list_all (\<lambda>p. length p < 65536) (auth_parts m)" using assms by (simp add: auth_ok_def)
  then have "length (concat (auth_parts m)) < 6 * 65536" by (simp add: auth_parts_def)
  then have "length ?msg < 2 ^ 32" using hdr by (simp add: AUTH_HEADER_LEN_def)
  from place_slices [OF this parts] have
    "list_all2 (\<lambda>f p. field_slice f ?msg = Ok p) [f1, f2, f3, f4, f5, f6] (auth_parts m)"
    unfolding hdr fs .
  then have sl: "field_slice f1 ?msg = Ok (a_lm_response m)" "field_slice f2 ?msg = Ok (a_nt_response m)"
    "field_slice f3 ?msg = Ok (a_domain m)" "field_slice f4 ?msg = Ok (a_user m)"
    "field_slice f5 ?msg = Ok (a_workstation m)" "field_slice f6 ?msg = Ok (a_encrypted_session_key m)"
    by (simp_all add: auth_parts_def)
  show ?thesis
    unfolding enc authenticate_decode_def
    using sl assms by (simp add: auth_ok_def need_bytes_def)
qed

text \<open>The MIC is at its fixed offset, and covers the message with the MIC zeroed.\<close>

lemma mic_at_offset:
  assumes "auth_ok m"
  shows "take 16 (drop MIC_OFFSET (authenticate_encode m)) = a_mic m"
proof -
  have "length (SIGNATURE @ put_u32_le 3 @ concat (map field_write (place (of_nat AUTH_HEADER_LEN) (auth_parts m))) @
      put_u32_le (a_flags m) @ a_version m) = MIC_OFFSET"
    using assms by (simp add: auth_ok_def MIC_OFFSET_def auth_parts_def)
  then have "drop MIC_OFFSET (authenticate_encode m) = a_mic m @ concat (auth_parts m)"
    unfolding authenticate_encode_def by (metis append_assoc append_eq_conv_conj)
  then show ?thesis using assms by (simp add: auth_ok_def)
qed

definition challenge_ok :: "challenge_message \<Rightarrow> bool" where
  "challenge_ok m \<longleftrightarrow> length (c_server_challenge m) = 8 \<and> length (c_target_name m) < 65536 \<and>
     length (c_target_info m) < 65536"

lemma challenge_roundtrip:
  assumes "challenge_ok m"
  shows "challenge_decode (challenge_encode m) = Ok m"
proof -
  define tn where "tn = \<lparr>f_len = of_nat (length (c_target_name m)), f_offset = 48\<rparr>"
  define ti where "ti = \<lparr>f_len = of_nat (length (c_target_info m)),
      f_offset = 48 + of_nat (length (c_target_name m))\<rparr>"
  define hdr where "hdr = SIGNATURE @ put_u32_le 2 @ field_write tn @ put_u32_le (c_flags m) @
      c_server_challenge m @ put_u64_le 0 @ field_write ti"
  have enc: "challenge_encode m = hdr @ c_target_name m @ c_target_info m"
    by (simp add: challenge_encode_def hdr_def tn_def ti_def)
  have hdr: "length hdr = 48" using assms by (simp add: hdr_def challenge_ok_def)
  have name: "field_slice tn (hdr @ c_target_name m @ c_target_info m) = Ok (c_target_name m)"
    using field_slice_part [of hdr "c_target_name m" "c_target_info m"] hdr assms
    by (simp add: tn_def challenge_ok_def)
  have info: "field_slice ti (hdr @ c_target_name m @ c_target_info m) = Ok (c_target_info m)"
    using field_slice_part [of "hdr @ c_target_name m" "c_target_info m" "[]"] hdr assms
    by (simp add: ti_def challenge_ok_def)
  show ?thesis
    using name info assms unfolding enc challenge_decode_def
    by (subst hdr_def) (simp add: challenge_ok_def need_bytes_def)
qed

section \<open>Truncated messages\<close>

lemma challenge_decode_Panic:
  "challenge_decode msg = Panic \<longleftrightarrow>
     (\<exists>rest. check_signature msg 2 = Ok rest \<and>
        (length rest < 12 \<or> 28 \<le> length rest \<and> length rest < 36))"
proof -
  have step: "\<And>rest. (and_then (field_read rest) (\<lambda>(tn, buf).
     and_then (get_u32_le buf) (\<lambda>(flags, buf).
     and_then (need_bytes 16 buf) (\<lambda>_.
     and_then (slice_to buf 8) (\<lambda>sc.
     and_then (advance 8 buf) (\<lambda>buf.
     and_then (advance 8 buf) (\<lambda>buf.
     and_then (field_read buf) (\<lambda>(ti, buf).
     and_then (or_default [] (field_slice tn msg)) (\<lambda>target_name.
     and_then (or_default [] (field_slice ti msg)) (\<lambda>target_info.
       Ok \<lparr>c_flags = flags, c_server_challenge = sc, c_target_name = target_name,
           c_target_info = target_info\<rparr>))))))))) = Panic) \<longleftrightarrow>
     (length rest < 12 \<or> 28 \<le> length rest \<and> length rest < 36)" (is "\<And>rest. ?P rest \<longleftrightarrow> ?Q rest")
  proof -
    fix rest :: bytes
    show "?P rest \<longleftrightarrow> ?Q rest"
    proof (cases "length rest < 12")
      case True
      then show ?thesis
        by (cases "field_read rest") (auto dest: field_read_length)
    next
      case False
      then obtain f r1 where f: "field_read rest = Ok (f, r1)"
        by (cases "field_read rest") auto
      have l1: "length rest = 8 + length r1" by (rule field_read_length [OF f])
      then obtain fl r2 where g: "get_u32_le r1 = Ok (fl, r2)"
        using False by (cases "get_u32_le r1") auto
      have l2: "length r1 = 4 + length r2" by (rule c32le.get_length_exact [OF g])
      show ?thesis
        using f g l1 l2 False by (cases "16 \<le> length r2") (auto simp: need_bytes_def advance_def)
    qed
  qed
  show ?thesis unfolding challenge_decode_def and_then_eq_Panic using step by auto
qed

text \<open>Twelve bytes suffice: a valid signature and type with nothing after them.\<close>

lemma challenge_truncated_panics: "challenge_decode (SIGNATURE @ put_u32_le 2) = Panic"
  using challenge_decode_Panic check_signature_ok [of 2 "[]"] by simp

section \<open>AV pairs\<close>

definition av_encode :: "(u16 \<times> bytes) list \<Rightarrow> bytes" where
  "av_encode pairs =
     concat (map (\<lambda>(i, v). put_u16_le i @ put_u16_le (of_nat (length v)) @ v) pairs) @
     put_u16_le AV_EOL @ put_u16_le 0"

lemma parse_av_pair:
  "i \<noteq> AV_EOL \<Longrightarrow> length v < 65536 \<Longrightarrow>
   parse_av_pairs (put_u16_le i @ put_u16_le (of_nat (length v)) @ v @ r) = (i, v) # parse_av_pairs r"
  by (subst parse_av_pairs.simps) (simp add: put_u16_le_def)

lemma parse_av_encode:
  "list_all (\<lambda>(i, v). i \<noteq> AV_EOL \<and> length v < 65536) pairs \<Longrightarrow> parse_av_pairs (av_encode pairs) = pairs"
proof (induction pairs)
  case Nil
  then show ?case by (subst parse_av_pairs.simps) (simp add: av_encode_def put_u16_le_def AV_EOL_def u16_from_le_bytes_def)
next
  case (Cons p pairs)
  then show ?case using parse_av_pair [of "fst p" "snd p"] by (cases p) (simp add: av_encode_def)
qed

end
