(* ===== verification/Sspi.thy ===== *)
theory Sspi
  imports Ntlmv2
begin

text \<open>
  Message confidentiality (\<open>src/nla/sspi.rs\<close>): two contexts derived from one session key, one
  per role. Their contract is an interface: what one side seals, the other opens, and both
  stay in step; it holds in both directions and along any sequence of messages.
\<close>

definition CLIENT_SIGN_MAGIC :: bytes where
  "CLIENT_SIGN_MAGIC = into_bytes (rstr ''session key to client-to-server signing key magic constant'') @ [0]"
definition SERVER_SIGN_MAGIC :: bytes where
  "SERVER_SIGN_MAGIC = into_bytes (rstr ''session key to server-to-client signing key magic constant'') @ [0]"
definition CLIENT_SEAL_MAGIC :: bytes where
  "CLIENT_SEAL_MAGIC = into_bytes (rstr ''session key to client-to-server sealing key magic constant'') @ [0]"
definition SERVER_SEAL_MAGIC :: bytes where
  "SERVER_SEAL_MAGIC = into_bytes (rstr ''session key to server-to-client sealing key magic constant'') @ [0]"

datatype role = Client | Server

definition derive_key :: "primitives \<Rightarrow> bytes \<Rightarrow> bytes \<Rightarrow> bytes" where
  "derive_key P exported magic = p_md5 P (exported @ magic)"

record security_context =
  own_signing :: bytes
  peer_signing :: bytes
  own_seal :: cipher
  peer_seal :: cipher
  send_seq :: u32
  recv_seq :: u32

definition security_context_new :: "primitives \<Rightarrow> role \<Rightarrow> bytes \<Rightarrow> security_context" where
  "security_context_new P role exported =
     (let client_sign = derive_key P exported CLIENT_SIGN_MAGIC;
          server_sign = derive_key P exported SERVER_SIGN_MAGIC;
          client_seal = derive_key P exported CLIENT_SEAL_MAGIC;
          server_seal = derive_key P exported SERVER_SEAL_MAGIC;
          (own_sign, peer_sign, own_seal_key, peer_seal_key) =
            (case role of
               Client \<Rightarrow> (client_sign, server_sign, client_seal, server_seal)
             | Server \<Rightarrow> (server_sign, client_sign, server_seal, client_seal))
      in \<lparr>own_signing = own_sign, peer_signing = peer_sign, own_seal = cipher_new own_seal_key,
          peer_seal = cipher_new peer_seal_key, send_seq = 0, recv_seq = 0\<rparr>)"

definition checksum :: "primitives \<Rightarrow> bytes \<Rightarrow> u32 \<Rightarrow> bytes \<Rightarrow> cipher \<Rightarrow> bytes \<times> cipher" where
  "checksum P signing seq plaintext handle =
     (let full = p_hmac_md5 P signing (put_u32_le seq @ plaintext)
      in apply_keystream P handle (take 8 full))"

definition seal :: "primitives \<Rightarrow> bytes \<Rightarrow> security_context \<Rightarrow> bytes \<times> security_context" where
  "seal P message c =
     (let (ciphertext, handle) = apply_keystream P (own_seal c) message;
          (cs, handle) = checksum P (own_signing c) (send_seq c) message handle
      in (put_u32_le 1 @ cs @ put_u32_le (send_seq c) @ ciphertext,
          c\<lparr>own_seal := handle, send_seq := send_seq c + 1\<rparr>))"

definition unseal :: "primitives \<Rightarrow> bytes \<Rightarrow> (security_context, bytes) io" where
  "unseal P blob c =
     (if length blob < 16 then (Err (Short 16 (length blob)), c)
      else
        let signature = take 16 blob; ciphertext = drop 16 blob;
            (plaintext, handle) = apply_keystream P (peer_seal c) ciphertext;
            (wanted, handle) = checksum P (peer_signing c) (recv_seq c) plaintext handle;
            c = c\<lparr>peer_seal := handle\<rparr>
        in if take 8 (drop 4 signature) \<noteq> wanted
           then (Err (Protocol ''NTLM message signature mismatch''), c)
           else (Ok plaintext, c\<lparr>recv_seq := recv_seq c + 1\<rparr>))"

section \<open>The interface of a secured channel\<close>

text \<open>A conversation: who speaks (\<open>True\<close>: the first party), and what is said; the outcomes.\<close>

fun converse ::
    "(bytes \<Rightarrow> 'c \<Rightarrow> bytes \<times> 'c) \<Rightarrow> (bytes \<Rightarrow> ('c, bytes) io) \<Rightarrow> (bool \<times> bytes) list \<Rightarrow> 'c \<Rightarrow> 'c \<Rightarrow>
     bytes result list" where
  "converse sl us [] x y = []"
| "converse sl us ((fwd, m) # ms) x y =
     (if fwd then
        (case sl m x of (b, x') \<Rightarrow> case us b y of (r, y') \<Rightarrow> r # converse sl us ms x' y')
      else
        (case sl m y of (b, y') \<Rightarrow> case us b x of (r, x') \<Rightarrow> r # converse sl us ms x' y'))"

text \<open>
  \<open>paired x y\<close>: what \<open>x\<close> seals next, \<open>y\<close> opens. Sealing does not disturb what the sealer can
  open, nor opening what the opener seals.
\<close>

locale sealed_channel =
  fixes sl :: "bytes \<Rightarrow> 'c \<Rightarrow> bytes \<times> 'c"
    and us :: "bytes \<Rightarrow> ('c, bytes) io"
    and paired :: "'c \<Rightarrow> 'c \<Rightarrow> bool"
  assumes open_seal: "paired x y \<Longrightarrow> sl m x = (b, x') \<Longrightarrow> \<exists>y'. us b y = (Ok m, y') \<and> paired x' y'"
    and seal_keeps: "paired y x \<Longrightarrow> sl m x = (b, x') \<Longrightarrow> paired y x'"
    and open_keeps: "us b y = (r, y') \<Longrightarrow> paired y z \<Longrightarrow> paired y' z"
begin

lemma transfer:
  assumes "paired x y" and "paired y x" and "sl m x = (b, x')"
  shows "\<exists>y'. us b y = (Ok m, y') \<and> paired x' y' \<and> paired y' x'"
proof -
  obtain y' where y': "us b y = (Ok m, y')" "paired x' y'"
    using open_seal assms by blast
  have "paired y' x'" using seal_keeps [OF assms(2,3)] open_keeps [OF y'(1)] by blast
  with y' show ?thesis by blast
qed

text \<open>Every message of a conversation arrives.\<close>

lemma converse_delivers: "paired x y \<Longrightarrow> paired y x \<Longrightarrow> converse sl us ms x y = map (\<lambda>(d, m). Ok m) ms"
proof (induction ms arbitrary: x y)
  case (Cons dm ms)
  obtain d m where dm: "dm = (d, m)" by (cases dm)
  show ?case
  proof (cases d)
    case True
    obtain b x' where s: "sl m x = (b, x')" by (cases "sl m x")
    from transfer [OF Cons.prems s] obtain y' where "us b y = (Ok m, y')" "paired x' y'" "paired y' x'" by blast
    with Cons.IH [of x' y'] s True dm show ?thesis by simp
  next
    case False
    obtain b y' where s: "sl m y = (b, y')" by (cases "sl m y")
    from transfer [OF Cons.prems(2,1) s] obtain x'
      where "us b x = (Ok m, x')" "paired y' x'" "paired x' y'" by blast
    with Cons.IH [of x' y'] s False dm show ?thesis by simp
  qed
qed simp

end

section \<open>The contexts provide it\<close>

definition in_step :: "security_context \<Rightarrow> security_context \<Rightarrow> bool" where
  "in_step x y \<longleftrightarrow>
     own_signing x = peer_signing y \<and> own_seal x = peer_seal y \<and> send_seq x = recv_seq y"

lemma checksum_length:
  "sized P \<Longrightarrow> checksum P k n m h = (cs, h') \<Longrightarrow> length cs = 8"
  by (auto simp: checksum_def Let_def dest!: apply_keystream_length)

lemma unseal_seal:
  assumes "sized P" and "in_step x y" and "seal P m x = (b, x')"
  shows "\<exists>y'. unseal P b y = (Ok m, y') \<and> in_step x' y'"
proof -
  obtain ct h where ct: "apply_keystream P (own_seal x) m = (ct, h)" by fastforce
  obtain cs h' where cs: "checksum P (own_signing x) (send_seq x) m h = (cs, h')" by fastforce
  have b: "b = put_u32_le 1 @ cs @ put_u32_le (send_seq x) @ ct"
    and x': "x' = x\<lparr>own_seal := h', send_seq := send_seq x + 1\<rparr>"
    using assms(3) ct cs by (simp_all add: seal_def)
  have len: "length cs = 8" by (rule checksum_length [OF assms(1) cs])
  have inverse: "apply_keystream P (peer_seal y) ct = (m, h)"
    using apply_keystream_twice [OF ct] assms(2) by (simp add: in_step_def)
  have again: "checksum P (peer_signing y) (recv_seq y) m h = (cs, h')"
    using cs assms(2) by (simp add: in_step_def)
  have parts: "length b = 16 + length ct" "drop 16 b = ct" "take 8 (drop 4 (take 16 b)) = cs"
    using len by (simp_all add: b)
  show ?thesis
    using parts inverse again assms(2) by (simp add: unseal_def Let_def in_step_def x')
qed

lemma seal_in_step: "in_step y x \<Longrightarrow> seal P m x = (b, x') \<Longrightarrow> in_step y x'"
  by (auto simp: seal_def in_step_def Let_def split: prod.splits)

lemma unseal_in_step: "unseal P b y = (r, y') \<Longrightarrow> in_step y z \<Longrightarrow> in_step y' z"
  by (auto simp: unseal_def in_step_def Let_def split: prod.splits if_splits)

text \<open>The digests are a parameter, so the provider is stated for every one of the right size.\<close>

lemma contexts_sealed_channel: "sized P \<Longrightarrow> sealed_channel (seal P) (unseal P) in_step"
  by (unfold_locales) (use unseal_seal seal_in_step unseal_in_step in blast)+

lemma roles_in_step:
  "in_step (security_context_new P Client key) (security_context_new P Server key)"
  "in_step (security_context_new P Server key) (security_context_new P Client key)"
  by (simp_all add: in_step_def security_context_new_def Let_def)

text \<open>A digest of the right size, whatever the primitives.\<close>

definition pad_to :: "nat \<Rightarrow> bytes \<Rightarrow> bytes" where
  "pad_to n bs = take n (bs @ replicate n 0)"

definition fixed_size :: "primitives \<Rightarrow> primitives" where
  "fixed_size P = P\<lparr>p_md5 := \<lambda>d. pad_to 16 (p_md5 P d), p_hmac_md5 := \<lambda>k d. pad_to 16 (p_hmac_md5 P k d),
     p_sha256 := \<lambda>d. pad_to 32 (p_sha256 P d)\<rparr>"

lemma sized_fixed_size [simp]: "sized (fixed_size P)"
  unfolding sized_def fixed_size_def by (auto simp: pad_to_def min_def simp del: sizedD)

lemma fixed_size_id: "sized P \<Longrightarrow> fixed_size P = P"
  by (rule primitives.equality) (auto simp: fixed_size_def pad_to_def fun_eq_iff)

interpretation contexts: sealed_channel "seal (fixed_size P)" "unseal (fixed_size P)" in_step for P
  by (rule contexts_sealed_channel) simp

lemma sealed_conversation:
  assumes "sized P"
  shows "converse (seal P) (unseal P) ms (security_context_new P Client key) (security_context_new P Server key)
    = map (\<lambda>(d, m). Ok m) ms"
  using contexts.converse_delivers [OF roles_in_step [of P key], of P ms] by (simp add: fixed_size_id [OF assms])

text \<open>
  Anything but the right checksum is refused; in particular a message whose checksum was
  replaced. Opening never panics.
\<close>

lemma unseal_wrong_checksum:
  assumes "sized P" and "in_step x y" and "seal P m x = (put_u32_le v @ cs @ rest, x')" and "length cs = 8"
    and "length cs' = 8" and "cs' \<noteq> cs"
  shows "fst (unseal P (put_u32_le v @ cs' @ rest) y) = Err (Protocol ''NTLM message signature mismatch'')"
proof -
  obtain ct h where ct: "apply_keystream P (own_seal x) m = (ct, h)" by fastforce
  obtain c h' where c: "checksum P (own_signing x) (send_seq x) m h = (c, h')" by fastforce
  have lc: "length c = 8" by (rule checksum_length [OF assms(1) c])
  have "put_u32_le 1 @ c @ put_u32_le (send_seq x) @ ct = put_u32_le v @ cs @ rest"
    using assms(3) ct c by (simp add: seal_def)
  then have eq: "cs = c" "rest = put_u32_le (send_seq x) @ ct"
    using lc assms(4) unfolding c32le.put_inj_app by auto
  have "apply_keystream P (peer_seal y) ct = (m, h)"
    using apply_keystream_twice [OF ct] assms(2) by (simp add: in_step_def)
  moreover have "checksum P (peer_signing y) (recv_seq y) m h = (c, h')"
    using c assms(2) by (simp add: in_step_def)
  moreover have "length (put_u32_le v @ cs' @ rest) = 16 + length ct" "drop 16 (put_u32_le v @ cs' @ rest) = ct"
    "take 8 (drop 4 (take 16 (put_u32_le v @ cs' @ rest))) = cs'"
    using assms(5) by (simp_all add: eq)
  ultimately show ?thesis using assms(6) eq by (simp add: unseal_def Let_def)
qed

lemma unseal_no_panic: "fst (unseal P b y) \<noteq> Panic"
  by (simp add: unseal_def Let_def split: prod.splits)

end
