(* ===== verification/Credssp_Client.thy ===== *)
theory Credssp_Client
  imports Credssp Ntlm Sspi
begin

text \<open>
  The CredSSP client (\<open>src/nla/client.rs\<close>): three steps on a client state. The server side is
  specified as the mirror image of the client, from the same primitives, as the crate's own
  full-flow test does; the lemmas run the two against each other and say when credentials are
  released.
\<close>

definition CREDSSP_VERSION :: u32 where "CREDSSP_VERSION = 6"
definition NTLM_VERSION :: bytes where "NTLM_VERSION = [10, 0, 0x4A, 0x4A, 0, 0, 0, 0x0F]"

record entropy =
  e_client_challenge :: bytes
  e_nonce :: bytes
  e_exported_session_key :: bytes

text \<open>The array types of the fields.\<close>

definition entropy_ok :: "entropy \<Rightarrow> bool" where
  "entropy_ok e \<longleftrightarrow> length (e_client_challenge e) = 8 \<and> length (e_nonce e) = 32 \<and>
     length (e_exported_session_key e) = 16"

definition client_flags :: u32 where
  "client_flags =
     foldl flag_with 0
       [F_UNICODE, F_NTLM, F_EXTENDED_SESSIONSECURITY, F_ALWAYS_SIGN, F_SIGN, F_SEAL, F_KEY_EXCH,
        F_TARGET_INFO, F_VERSION, F_NEGOTIATE_128, F_NEGOTIATE_56]"

record credssp_client =
  k_domain :: rstring
  k_username :: rstring
  k_password :: rstring
  k_server_public_key :: bytes
  k_entropy :: entropy
  k_flags :: u32
  k_negotiate_bytes :: bytes
  k_security :: "security_context option"

definition with_entropy :: "rstring \<Rightarrow> rstring \<Rightarrow> rstring \<Rightarrow> bytes \<Rightarrow> entropy \<Rightarrow> credssp_client" where
  "with_entropy domain username password server_public_key e =
     \<lparr>k_domain = domain, k_username = username, k_password = password,
      k_server_public_key = server_public_key, k_entropy = e, k_flags = client_flags,
      k_negotiate_bytes = [], k_security = None\<rparr>"

text \<open>
  \<open>Entropy::random\<close> and \<open>CredSspClient::new\<close>, over the operating system's generator: \<open>fill n\<close>
  yields \<open>n\<close> bytes, in the order in which the fields are filled.
\<close>

definition entropy_random :: "(nat \<Rightarrow> ('r, bytes) io) \<Rightarrow> ('r, entropy) io" where
  "entropy_random fill =
     io_bind (fill 8) (\<lambda>challenge.
     io_bind (fill 32) (\<lambda>nonce.
     io_bind (fill 16) (\<lambda>key.
       io_ok \<lparr>e_client_challenge = challenge, e_nonce = nonce, e_exported_session_key = key\<rparr>)))"

definition credssp_client_new ::
    "(nat \<Rightarrow> ('r, bytes) io) \<Rightarrow> rstring \<Rightarrow> rstring \<Rightarrow> rstring \<Rightarrow> bytes \<Rightarrow> ('r, credssp_client) io" where
  "credssp_client_new fill domain username password server_public_key =
     io_bind (entropy_random fill) (\<lambda>e. io_ok (with_entropy domain username password server_public_key e))"

lemma entropy_random_ok:
  assumes "\<And>n r b r'. fill n r = (Ok b, r') \<Longrightarrow> length b = n" and "entropy_random fill r = (Ok e, r')"
  shows "entropy_ok e"
  using assms(2) by (auto simp: entropy_random_def entropy_ok_def io_bind_eq_Ok io_ok_def dest: assms(1))

section \<open>The three steps\<close>

definition nla_start :: "credssp_client \<Rightarrow> bytes \<times> credssp_client" where
  "nla_start c =
     (let neg = \<lparr>n_flags = k_flags c, n_version = Some NTLM_VERSION\<rparr>;
          c = c\<lparr>k_negotiate_bytes := negotiate_encode neg\<rparr>;
          req = (ts_request_new CREDSSP_VERSION)\<lparr>ts_nego_tokens := [k_negotiate_bytes c]\<rparr>
      in (ts_request_encode req, c))"

fun find_timestamp :: "(u16 \<times> bytes) list \<Rightarrow> bytes \<times> bool" where
  "find_timestamp [] = (replicate 8 0, False)"
| "find_timestamp ((av, value) # pairs) =
     (if av = AV_TIMESTAMP \<and> length value = 8 then (value, True) else find_timestamp pairs)"

definition extract_timestamp :: "bytes \<Rightarrow> bytes \<times> bool" where
  "extract_timestamp target_info = find_timestamp (parse_av_pairs target_info)"

text \<open>The AUTHENTICATE message for a challenge.\<close>

definition authenticate_for ::
    "primitives \<Rightarrow> bytes \<Rightarrow> challenge_message \<Rightarrow> credssp_client \<Rightarrow> authenticate_message" where
  "authenticate_for P challenge_bytes challenge c =
     (let ntowf = ntowf_v2 P (k_password c) (k_username c) (k_domain c);
          (timestamp, has_timestamp) = extract_timestamp (c_target_info challenge);
          t = ntlm_temp timestamp (e_client_challenge (k_entropy c)) (c_target_info challenge);
          proof_str = nt_proof_str P ntowf (c_server_challenge challenge) t;
          nt_response = nt_challenge_response proof_str t;
          lm_response =
            (if has_timestamp then replicate 24 0
             else lm_challenge_response P ntowf (c_server_challenge challenge)
                    (e_client_challenge (k_entropy c)));
          sbk = session_base_key P ntowf proof_str;
          exported = e_exported_session_key (k_entropy c)
      in compute_mic P exported (k_negotiate_bytes c) challenge_bytes
           \<lparr>a_flags = k_flags c, a_domain = unicode (k_domain c), a_user = unicode (k_username c),
            a_workstation = [], a_lm_response = lm_response, a_nt_response = nt_response,
            a_encrypted_session_key = encrypted_random_session_key P sbk exported,
            a_version = NTLM_VERSION, a_mic = replicate 16 0\<rparr>)"

definition first_token :: "ts_request \<Rightarrow> bytes result" where
  "first_token q =
     (case ts_nego_tokens q of
        [] \<Rightarrow> Err (Protocol ''server TSRequest has no CHALLENGE token'')
      | t # ts \<Rightarrow> Ok t)"

definition process_challenge :: "primitives \<Rightarrow> bytes \<Rightarrow> (credssp_client, bytes) io" where
  "process_challenge P server_ts_request =
     io_bind (io_lift (ts_request_decode server_ts_request)) (\<lambda>server_req.
     io_bind (io_lift (first_token server_req)) (\<lambda>challenge_bytes.
     io_bind (io_lift (challenge_decode challenge_bytes)) (\<lambda>challenge. \<lambda>c.
       let authenticate_bytes = authenticate_encode (authenticate_for P challenge_bytes challenge c);
           ctx = security_context_new P Client (e_exported_session_key (k_entropy c));
           hash = client_server_binding_hash P (e_nonce (k_entropy c)) (k_server_public_key c);
           (pub_key_auth, ctx) = seal P hash ctx;
           c = c\<lparr>k_security := Some ctx\<rparr>;
           req = (ts_request_new CREDSSP_VERSION)
             \<lparr>ts_nego_tokens := [authenticate_bytes], ts_pub_key_auth := Some pub_key_auth,
              ts_client_nonce := Some (e_nonce (k_entropy c))\<rparr>
       in (Ok (ts_request_encode req), c))))"

definition check_error_code :: "ts_request \<Rightarrow> unit result" where
  "check_error_code q =
     (case ts_error_code q of
        Some code \<Rightarrow> if code \<noteq> 0 then Err (NegotiationFailure ''server returned CredSSP errorCode'') else Ok ()
      | None \<Rightarrow> Ok ())"

definition ok_or :: "string \<Rightarrow> 'a option \<Rightarrow> 'a result" where
  "ok_or msg v = (case v of None \<Rightarrow> Err (Protocol msg) | Some x \<Rightarrow> Ok x)"

definition client_creds :: "credssp_client \<Rightarrow> password_creds" where
  "client_creds c = \<lparr>pc_domain = k_domain c, pc_username = k_username c, pc_password = k_password c\<rparr>"

text \<open>The part of \<open>process_pubkey\<close> from the security context on.\<close>

definition release_credentials :: "primitives \<Rightarrow> bytes \<Rightarrow> (credssp_client, bytes) io" where
  "release_credentials P sealed c =
     (case k_security c of
        None \<Rightarrow> (Err (Protocol ''no security context''), c)
      | Some ctx \<Rightarrow>
          (case unseal P sealed ctx of
             (Err e, ctx) \<Rightarrow> (Err e, c\<lparr>k_security := Some ctx\<rparr>)
           | (Panic, ctx) \<Rightarrow> (Panic, c\<lparr>k_security := Some ctx\<rparr>)
           | (Ok server_hash, ctx) \<Rightarrow>
               if server_hash \<noteq> server_client_binding_hash P (e_nonce (k_entropy c)) (k_server_public_key c)
               then (Err (Protocol ''server pubKeyAuth binding hash mismatch''), c\<lparr>k_security := Some ctx\<rparr>)
               else
                 (let (auth_info, ctx) = seal P (ts_credentials_password (client_creds c)) ctx;
                      req = (ts_request_new CREDSSP_VERSION)\<lparr>ts_auth_info := Some auth_info\<rparr>
                  in (Ok (ts_request_encode req), c\<lparr>k_security := Some ctx\<rparr>))))"

definition process_pubkey :: "primitives \<Rightarrow> bytes \<Rightarrow> (credssp_client, bytes) io" where
  "process_pubkey P server_ts_request =
     io_bind (io_lift (ts_request_decode server_ts_request)) (\<lambda>server_req.
     io_bind (io_lift (check_error_code server_req)) (\<lambda>_.
     io_bind (io_lift (ok_or ''server TSRequest has no pubKeyAuth'' (ts_pub_key_auth server_req)))
       (release_credentials P)))"

section \<open>When credentials are released\<close>

text \<open>
  The step that emits the sealed credentials succeeds only on a reply that carries no error,
  and whose pubKeyAuth opens, under the session's keys, to the binding hash of the public key
  of the TLS certificate.
\<close>

lemma release_credentials_Ok:
  assumes "release_credentials P sealed c = (Ok out, c')"
  shows "\<exists>ctx ctx'. k_security c = Some ctx \<and>
    unseal P sealed ctx =
      (Ok (server_client_binding_hash P (e_nonce (k_entropy c)) (k_server_public_key c)), ctx') \<and>
    out = ts_request_encode ((ts_request_new CREDSSP_VERSION)
      \<lparr>ts_auth_info := Some (fst (seal P (ts_credentials_password (client_creds c)) ctx'))\<rparr>) \<and>
    c' = c\<lparr>k_security := Some (snd (seal P (ts_credentials_password (client_creds c)) ctx'))\<rparr>"
proof (cases "k_security c")
  case (Some ctx)
  obtain r ctx' where u: "unseal P sealed ctx = (r, ctx')" by fastforce
  show ?thesis
    using assms Some u
    by (cases r) (auto simp: release_credentials_def Let_def split: if_splits prod.splits)
qed (use assms in \<open>simp add: release_credentials_def\<close>)

lemma process_pubkey_Ok:
  assumes "process_pubkey P b c = (Ok out, c')"
  shows "\<exists>q sealed. ts_request_decode b = Ok q \<and> ts_error_code q \<in> {None, Some 0} \<and>
    ts_pub_key_auth q = Some sealed \<and> release_credentials P sealed c = (Ok out, c')"
proof -
  obtain q sealed where q: "ts_request_decode b = Ok q" "check_error_code q = Ok ()"
      "ok_or ''server TSRequest has no pubKeyAuth'' (ts_pub_key_auth q) = Ok sealed"
      "release_credentials P sealed c = (Ok out, c')"
    using assms by (auto simp: process_pubkey_def io_bind_eq_Ok dest!: sym [of "Ok _"])
  have "ts_error_code q \<in> {None, Some 0}"
    using q(2) by (cases "ts_error_code q") (simp_all add: check_error_code_def split: if_splits)
  moreover have "ts_pub_key_auth q = Some sealed"
    using q(3) by (cases "ts_pub_key_auth q") (simp_all add: ok_or_def)
  ultimately show ?thesis using q by blast
qed

lemma unseal_not_Panic [simp]: "unseal P s x \<noteq> (Panic, y)"
  using unseal_no_panic [of P s x] by auto

lemma release_credentials_no_panic: "fst (release_credentials P s c) \<noteq> Panic"
  by (auto simp: release_credentials_def Let_def split: option.splits prod.splits result.splits)

lemma process_pubkey_no_context:
  assumes "k_security c = None"
  shows "\<exists>e. process_pubkey P b c = (Err e, c)"
  using assms ts_request_decode_no_panic [of b]
  by (cases "ts_request_decode b")
    (auto simp: process_pubkey_def release_credentials_def io_bind_def io_lift_def check_error_code_def ok_or_def
      split: option.splits if_splits)

lemma process_pubkey_no_panic: "fst (process_pubkey P b c) \<noteq> Panic"
  using ts_request_decode_no_panic [of b] release_credentials_no_panic
  by (auto simp: process_pubkey_def io_bind_def io_lift_def check_error_code_def ok_or_def
      split: option.splits if_splits result.splits prod.splits)

section \<open>What the steps leave alone\<close>

definition same_identity :: "credssp_client \<Rightarrow> credssp_client \<Rightarrow> bool" where
  "same_identity c c' \<longleftrightarrow> k_domain c' = k_domain c \<and> k_username c' = k_username c \<and>
     k_password c' = k_password c \<and> k_server_public_key c' = k_server_public_key c \<and>
     k_entropy c' = k_entropy c \<and> k_flags c' = k_flags c"

text \<open>A call of a step, whatever its outcome and whatever the peer sent.\<close>

inductive nla_step :: "primitives \<Rightarrow> credssp_client \<Rightarrow> credssp_client \<Rightarrow> bool" for P where
  start: "nla_start c = (out, c') \<Longrightarrow> nla_step P c c'"
| challenge: "process_challenge P b c = (r, c') \<Longrightarrow> nla_step P c c'"
| pubkey: "process_pubkey P b c = (r, c') \<Longrightarrow> nla_step P c c'"

inductive nla_reachable :: "primitives \<Rightarrow> credssp_client \<Rightarrow> credssp_client \<Rightarrow> bool" for P c0 where
  init: "nla_reachable P c0 c0"
| step: "nla_reachable P c0 c \<Longrightarrow> nla_step P c c' \<Longrightarrow> nla_reachable P c0 c'"

lemma process_challenge_frame:
  "process_challenge P b c = (r, c') \<Longrightarrow> same_identity c c' \<and> k_negotiate_bytes c' = k_negotiate_bytes c"
  by (auto simp: process_challenge_def io_bind_def io_lift_def same_identity_def Let_def
      split: result.splits prod.splits)

lemma release_credentials_frame:
  "release_credentials P b c = (r, c') \<Longrightarrow> same_identity c c' \<and> k_negotiate_bytes c' = k_negotiate_bytes c"
  by (auto simp: release_credentials_def same_identity_def Let_def
      split: result.splits prod.splits option.splits if_splits)

lemma process_pubkey_frame:
  "process_pubkey P b c = (r, c') \<Longrightarrow> same_identity c c' \<and> k_negotiate_bytes c' = k_negotiate_bytes c"
  by (auto simp: process_pubkey_def io_bind_def io_lift_def same_identity_def
      split: result.splits dest!: release_credentials_frame)

lemma nla_step_identity: "nla_step P c c' \<Longrightarrow> same_identity c c'"
  by (induction rule: nla_step.induct)
    (auto simp: nla_start_def Let_def same_identity_def dest: process_challenge_frame process_pubkey_frame)

lemma nla_reachable_identity: "nla_reachable P c0 c \<Longrightarrow> same_identity c0 c"
  by (induction rule: nla_reachable.induct) (auto dest!: nla_step_identity simp: same_identity_def)

section \<open>An honest server\<close>

text \<open>
  A server that knows \<open>ntowf\<close> (the NTLMv2 hash of the user) and its own public key. It recovers
  the session key from the AUTHENTICATE message, opens the client's pubKeyAuth, compares the
  binding hash and answers with its own.
\<close>

definition server_challenge_request :: "challenge_message \<Rightarrow> bytes" where
  "server_challenge_request ch =
     ts_request_encode ((ts_request_new CREDSSP_VERSION)\<lparr>ts_nego_tokens := [challenge_encode ch]\<rparr>)"

definition server_exported_key :: "primitives \<Rightarrow> bytes \<Rightarrow> authenticate_message \<Rightarrow> bytes" where
  "server_exported_key P ntowf auth =
     rc4 P (session_base_key P ntowf (take 16 (a_nt_response auth))) (a_encrypted_session_key auth)"

definition server_proof_ok :: "primitives \<Rightarrow> bytes \<Rightarrow> challenge_message \<Rightarrow> authenticate_message \<Rightarrow> bool" where
  "server_proof_ok P ntowf ch auth \<longleftrightarrow>
     take 16 (a_nt_response auth) = nt_proof_str P ntowf (c_server_challenge ch) (drop 16 (a_nt_response auth))"

definition server_mic_ok :: "primitives \<Rightarrow> bytes \<Rightarrow> bytes \<Rightarrow> bytes \<Rightarrow> authenticate_message \<Rightarrow> bool" where
  "server_mic_ok P key neg chal auth \<longleftrightarrow> a_mic (compute_mic P key neg chal auth) = a_mic auth"

text \<open>The server's answer and its context, or what it objects to.\<close>

definition server_answer ::
    "primitives \<Rightarrow> bytes \<Rightarrow> bytes \<Rightarrow> bytes \<Rightarrow> challenge_message \<Rightarrow> bytes \<Rightarrow> (bytes \<times> security_context) result"
where
  "server_answer P ntowf pk neg ch b =
     and_then (ts_request_decode b) (\<lambda>q.
     and_then (first_token q) (\<lambda>tok.
     and_then (authenticate_decode tok) (\<lambda>auth.
     and_then (ok_or ''no pubKeyAuth'' (ts_pub_key_auth q)) (\<lambda>sealed.
     and_then (ok_or ''no nonce'' (ts_client_nonce q)) (\<lambda>nonce.
       let key = server_exported_key P ntowf auth;
           (r, ctx) = unseal P sealed (security_context_new P Server key)
       in if \<not> server_proof_ok P ntowf ch auth then Err (Protocol ''wrong password'')
          else if \<not> server_mic_ok P key neg (challenge_encode ch) auth then Err (Protocol ''bad MIC'')
          else and_then r (\<lambda>hash.
            if hash \<noteq> client_server_binding_hash P nonce pk then Err (Protocol ''binding hash'')
            else
              (case seal P (server_client_binding_hash P nonce pk) ctx of (pka, ctx) \<Rightarrow>
                 Ok (ts_request_encode ((ts_request_new CREDSSP_VERSION)\<lparr>ts_pub_key_auth := Some pka\<rparr>), ctx))))))))"

definition server_credentials :: "primitives \<Rightarrow> bytes \<Rightarrow> security_context \<Rightarrow> bytes result" where
  "server_credentials P b ctx =
     and_then (ts_request_decode b) (\<lambda>q.
     and_then (ok_or ''no authInfo'' (ts_auth_info q)) (\<lambda>sealed. fst (unseal P sealed ctx)))"

section \<open>The exchange\<close>

text \<open>Sizes: the fields of the messages hold what the client puts into them.\<close>

definition client_ok :: "credssp_client \<Rightarrow> bool" where
  "client_ok c \<longleftrightarrow> entropy_ok (k_entropy c) \<and> length (unicode (k_domain c)) < 65536 \<and>
     length (unicode (k_username c)) < 65536 \<and> length (unicode (k_password c)) < 65536 \<and>
     k_flags c = client_flags"

definition server_ok :: "challenge_message \<Rightarrow> bool" where
  "server_ok ch \<longleftrightarrow> challenge_ok ch \<and> length (c_target_info ch) < 65000"

lemma find_timestamp_length: "length (fst (find_timestamp ps)) = 8"
  by (induction ps rule: find_timestamp.induct) auto

lemma length_ntlm_temp: "length (ntlm_temp t cc ti) = 16 + length t + length cc + length ti"
  by (simp add: ntlm_temp_def)

lemma length_nt_proof_str [simp]: "sized P \<Longrightarrow> length (nt_proof_str P ntowf sc t) = 16"
  by (simp add: nt_proof_str_def)

lemma length_lm_challenge_response: "sized P \<Longrightarrow> length (lm_challenge_response P ntowf sc cc) = 16 + length cc"
  by (simp add: lm_challenge_response_def)

lemma compute_mic_simps [simp]:
  "a_flags (compute_mic P k n ch m) = a_flags m" "a_domain (compute_mic P k n ch m) = a_domain m"
  "a_user (compute_mic P k n ch m) = a_user m" "a_workstation (compute_mic P k n ch m) = a_workstation m"
  "a_lm_response (compute_mic P k n ch m) = a_lm_response m"
  "a_nt_response (compute_mic P k n ch m) = a_nt_response m"
  "a_encrypted_session_key (compute_mic P k n ch m) = a_encrypted_session_key m"
  "a_version (compute_mic P k n ch m) = a_version m"
  by (simp_all add: compute_mic_def Let_def)

lemma length_mic [simp]: "sized P \<Longrightarrow> length (a_mic (compute_mic P k n ch m)) = 16"
  by (simp add: compute_mic_def Let_def)

lemma compute_mic_again: "compute_mic P k n ch (compute_mic P k n ch m) = compute_mic P k n ch m"
  by (simp add: compute_mic_def Let_def)

text \<open>What a server finds in the client's AUTHENTICATE message.\<close>

lemma authenticate_for_server:
  assumes "sized P" and "ntowf = ntowf_v2 P (k_password c) (k_username c) (k_domain c)"
  shows "server_exported_key P ntowf (authenticate_for P cb ch c) = e_exported_session_key (k_entropy c)"
    and "server_proof_ok P ntowf ch (authenticate_for P cb ch c)"
    and "server_mic_ok P (e_exported_session_key (k_entropy c)) (k_negotiate_bytes c) cb (authenticate_for P cb ch c)"
proof -
  obtain ts has where t: "extract_timestamp (c_target_info ch) = (ts, has)" by fastforce
  let ?t = "ntlm_temp ts (e_client_challenge (k_entropy c)) (c_target_info ch)"
  have nt: "a_nt_response (authenticate_for P cb ch c) =
      nt_proof_str P ntowf (c_server_challenge ch) ?t @ ?t"
    using t assms(2) by (simp add: authenticate_for_def Let_def nt_challenge_response_def)
  have key: "a_encrypted_session_key (authenticate_for P cb ch c) =
      encrypted_random_session_key P (session_base_key P ntowf (nt_proof_str P ntowf (c_server_challenge ch) ?t))
        (e_exported_session_key (k_entropy c))"
    using t assms(2) by (simp add: authenticate_for_def Let_def)
  show "server_exported_key P ntowf (authenticate_for P cb ch c) = e_exported_session_key (k_entropy c)"
    using assms(1) by (simp add: server_exported_key_def nt key encrypted_key_recovered)
  show "server_proof_ok P ntowf ch (authenticate_for P cb ch c)"
    using assms(1) by (simp add: server_proof_ok_def nt)
  show "server_mic_ok P (e_exported_session_key (k_entropy c)) (k_negotiate_bytes c) cb (authenticate_for P cb ch c)"
    using t by (simp add: server_mic_ok_def authenticate_for_def Let_def compute_mic_again)
qed

lemma authenticate_for_ok:
  assumes "sized P" and "client_ok c" and "server_ok ch"
  shows "auth_ok (authenticate_for P cb ch c)"
proof -
  obtain ts has where t: "extract_timestamp (c_target_info ch) = (ts, has)" by fastforce
  have "length ts = 8" using find_timestamp_length t unfolding extract_timestamp_def by (metis fst_conv)
  then show ?thesis
    using assms t
    by (simp add: auth_ok_def auth_parts_def authenticate_for_def Let_def NTLM_VERSION_def client_ok_def
        entropy_ok_def server_ok_def nt_challenge_response_def length_ntlm_temp length_lm_challenge_response)
qed

lemma length_authenticate: "auth_ok m \<Longrightarrow> small (authenticate_encode m)"
proof -
  assume m: "auth_ok m"
  then have "length (concat (auth_parts m)) < 6 * 65536" by (simp add: auth_ok_def auth_parts_def)
  then show "small (authenticate_encode m)"
    using m by (simp add: small_def authenticate_encode_def auth_ok_def auth_parts_def)
qed

lemma length_challenge: "challenge_ok ch \<Longrightarrow> small (challenge_encode ch)"
  by (simp add: small_def challenge_encode_def challenge_ok_def Let_def)

lemma length_seal: "sized P \<Longrightarrow> seal P m x = (b, x') \<Longrightarrow> length b = 16 + length m"
  by (auto simp: seal_def checksum_def Let_def split: prod.splits dest!: apply_keystream_length)

lemma length_creds:
  assumes "length (unicode (pc_domain c)) < 65536" and "length (unicode (pc_username c)) < 65536"
    and "length (unicode (pc_password c)) < 65536"
  shows "length (ts_credentials_password c) < 2 ^ 20"
proof -
  have f: "length (der_context n (der_octet_string (unicode w))) < 65536 + 12"
    if "length (unicode w) < 65536" for n w
    using length_ts_octets [of "unicode w" n] that by simp
  have "length (password_creds_encode c) < 3 * (65536 + 12) + 6"
    using length_tlv [of "der_context 0 (der_octet_string (unicode (pc_domain c))) @
        der_context 1 (der_octet_string (unicode (pc_username c))) @
        der_context 2 (der_octet_string (unicode (pc_password c)))" TAG_SEQUENCE]
      f [OF assms(1), of 0] f [OF assms(2), of 1] f [OF assms(3), of 2]
    by (simp add: password_creds_encode_def der_sequence_def)
  then have o: "length (der_context 1 (der_octet_string (password_creds_encode c))) < 3 * (65536 + 12) + 18"
    using length_ts_octets [of "password_creds_encode c" 1] by simp
  have "length (der_context 0 (der_integer 1)) \<le> 21"
    using length_der_integer [of 1] length_context [of "der_integer 1" 0] by simp
  then show ?thesis
    using o length_tlv [of "der_context 0 (der_integer 1) @ der_context 1 (der_octet_string (password_creds_encode c))"
        TAG_SEQUENCE]
    by (simp add: ts_credentials_password_def der_sequence_def)
qed

lemma ts_new_ok:
  "ts_request_ok ((ts_request_new v)\<lparr>ts_nego_tokens := [t]\<rparr>) \<longleftrightarrow> small t"
  "ts_request_ok ((ts_request_new v)\<lparr>ts_pub_key_auth := Some p\<rparr>) \<longleftrightarrow> small p"
  "ts_request_ok ((ts_request_new v)\<lparr>ts_auth_info := Some a\<rparr>) \<longleftrightarrow> small a"
  "ts_request_ok ((ts_request_new v)\<lparr>ts_nego_tokens := [t], ts_pub_key_auth := Some p, ts_client_nonce := Some n\<rparr>)
     \<longleftrightarrow> small t \<and> small p \<and> length n = 32"
  by (simp_all add: ts_request_ok_def ts_request_new_def)

lemma ts_request_roundtrip_nil: "ts_request_ok q \<Longrightarrow> ts_request_decode (ts_request_encode q) = Ok q"
  using ts_request_roundtrip [of q "[]"] by simp

text \<open>Step 3: the client's answer to a challenge.\<close>

definition challenge_answer :: "primitives \<Rightarrow> challenge_message \<Rightarrow> credssp_client \<Rightarrow> ts_request \<times> security_context" where
  "challenge_answer P ch c =
     (case seal P (client_server_binding_hash P (e_nonce (k_entropy c)) (k_server_public_key c))
             (security_context_new P Client (e_exported_session_key (k_entropy c))) of
        (pka, ctx) \<Rightarrow>
          ((ts_request_new CREDSSP_VERSION)
             \<lparr>ts_nego_tokens := [authenticate_encode (authenticate_for P (challenge_encode ch) ch c)],
              ts_pub_key_auth := Some pka, ts_client_nonce := Some (e_nonce (k_entropy c))\<rparr>, ctx))"

lemma process_challenge_answer:
  assumes "server_ok ch"
  shows "process_challenge P (server_challenge_request ch) c =
    (Ok (ts_request_encode (fst (challenge_answer P ch c))), c\<lparr>k_security := Some (snd (challenge_answer P ch c))\<rparr>)"
proof -
  have ch: "challenge_ok ch" using assms by (simp add: server_ok_def)
  have "ts_request_decode (server_challenge_request ch) =
      Ok ((ts_request_new CREDSSP_VERSION)\<lparr>ts_nego_tokens := [challenge_encode ch]\<rparr>)"
    unfolding server_challenge_request_def
    by (rule ts_request_roundtrip_nil) (simp add: ts_new_ok length_challenge [OF ch])
  then show ?thesis
    by (simp add: process_challenge_def io_lift_def io_bind_def first_token_def challenge_roundtrip [OF ch]
        challenge_answer_def Let_def split: prod.splits)
qed

text \<open>Steps 3 and 4: the server accepts, and the two contexts are in step.\<close>

lemma server_answer_accepts:
  assumes "sized P" and "client_ok c" and "server_ok ch"
    and "ntowf = ntowf_v2 P (k_password c) (k_username c) (k_domain c)" and "pk = k_server_public_key c"
  shows "\<exists>pka sctx cctx. server_answer P ntowf pk (k_negotiate_bytes c) ch (ts_request_encode (fst (challenge_answer P ch c))) =
      Ok (ts_request_encode ((ts_request_new CREDSSP_VERSION)\<lparr>ts_pub_key_auth := Some pka\<rparr>), sctx) \<and>
    small pka \<and>
    unseal P pka (snd (challenge_answer P ch c)) =
      (Ok (server_client_binding_hash P (e_nonce (k_entropy c)) pk), cctx) \<and>
    in_step sctx cctx \<and> in_step cctx sctx"
proof -
  let ?key = "e_exported_session_key (k_entropy c)" and ?nonce = "e_nonce (k_entropy c)"
  let ?auth = "authenticate_for P (challenge_encode ch) ch c"
  let ?hash = "client_server_binding_hash P ?nonce pk" and ?shash = "server_client_binding_hash P ?nonce pk"
  have ch: "sealed_channel (seal P) (unseal P) in_step" by (rule contexts_sealed_channel [OF assms(1)])
  obtain b x where s: "seal P ?hash (security_context_new P Client ?key) = (b, x)" by fastforce
  obtain y where y: "unseal P b (security_context_new P Server ?key) = (Ok ?hash, y)" "in_step x y" "in_step y x"
    using sealed_channel.transfer [OF ch roles_in_step s] by blast
  obtain pka z where z: "seal P ?shash y = (pka, z)" by fastforce
  obtain w where w: "unseal P pka x = (Ok ?shash, w)" "in_step z w" "in_step w z"
    using sealed_channel.transfer [OF ch y(3,2) z] by blast
  have sm: "small b" "small pka"
    using length_seal [OF assms(1) s] length_seal [OF assms(1) z] assms(1)
    by (simp_all add: small_def client_server_binding_hash_def server_client_binding_hash_def binding_hash_def)
  moreover have "length ?nonce = 32" using assms(2) by (simp add: client_ok_def entropy_ok_def)
  moreover have au: "auth_ok ?auth" by (rule authenticate_for_ok [OF assms(1,2,3)])
  moreover have ca: "fst (challenge_answer P ch c) = (ts_request_new CREDSSP_VERSION)
      \<lparr>ts_nego_tokens := [authenticate_encode ?auth], ts_pub_key_auth := Some b, ts_client_nonce := Some ?nonce\<rparr>"
    "snd (challenge_answer P ch c) = x"
    using s assms(5) by (simp_all add: challenge_answer_def)
  moreover note authenticate_for_server [OF assms(1,4), where ch = ch and cb = "challenge_encode ch"]
  ultimately have "server_answer P ntowf pk (k_negotiate_bytes c) ch (ts_request_encode (fst (challenge_answer P ch c))) =
      Ok (ts_request_encode ((ts_request_new CREDSSP_VERSION)\<lparr>ts_pub_key_auth := Some pka\<rparr>), z)"
    using y z
    by (simp add: server_answer_def ts_request_roundtrip_nil ts_new_ok length_authenticate first_token_def ok_or_def
        authenticate_roundtrip Let_def)
  then show ?thesis using w sm(2) ca(2) by blast
qed

text \<open>Step 5.\<close>

lemma process_pubkey_reply:
  assumes "small pka"
  shows "process_pubkey P (ts_request_encode ((ts_request_new v)\<lparr>ts_pub_key_auth := Some pka\<rparr>)) c =
    release_credentials P pka c"
proof -
  have "ts_request_decode (ts_request_encode ((ts_request_new v)\<lparr>ts_pub_key_auth := Some pka\<rparr>)) =
      Ok ((ts_request_new v)\<lparr>ts_pub_key_auth := Some pka\<rparr>)"
    by (rule ts_request_roundtrip_nil) (simp add: ts_new_ok assms)
  then show ?thesis
    by (simp add: process_pubkey_def io_lift_def io_bind_def check_error_code_def ok_or_def ts_request_new_def)
qed

lemma process_pubkey_accepts:
  assumes "sized P" and "client_ok c" and "small pka" and "k_security c = Some ctx"
    and "unseal P pka ctx = (Ok (server_client_binding_hash P (e_nonce (k_entropy c)) (k_server_public_key c)), cctx)"
    and "in_step cctx sctx"
  shows "\<exists>out c'. process_pubkey P (ts_request_encode ((ts_request_new CREDSSP_VERSION)\<lparr>ts_pub_key_auth := Some pka\<rparr>)) c =
      (Ok out, c') \<and> server_credentials P out sctx = Ok (ts_credentials_password (client_creds c))"
proof -
  let ?creds = "ts_credentials_password (client_creds c)"
  obtain ai x where s: "seal P ?creds cctx = (ai, x)" by fastforce
  obtain y where y: "unseal P ai sctx = (Ok ?creds, y)" using unseal_seal [OF assms(1,6) s] by blast
  have "length ?creds < 2 ^ 20"
    using assms(2) by (intro length_creds) (simp_all add: client_creds_def client_ok_def)
  then have "small ai" using length_seal [OF assms(1) s] by (simp add: small_def)
  then have "ts_request_decode (ts_request_encode ((ts_request_new CREDSSP_VERSION)\<lparr>ts_auth_info := Some ai\<rparr>)) =
      Ok ((ts_request_new CREDSSP_VERSION)\<lparr>ts_auth_info := Some ai\<rparr>)"
    by (intro ts_request_roundtrip_nil) (simp add: ts_new_ok)
  then have "server_credentials P (ts_request_encode ((ts_request_new CREDSSP_VERSION)\<lparr>ts_auth_info := Some ai\<rparr>)) sctx =
      Ok ?creds"
    using y by (simp add: server_credentials_def ok_or_def)
  then show ?thesis
    unfolding process_pubkey_reply [OF assms(3)]
    using assms(4,5) s by (simp add: release_credentials_def Let_def)
qed

lemma nla_exchange:
  assumes "sized P" and "client_ok c0" and "server_ok ch"
    and "ntowf = ntowf_v2 P (k_password c0) (k_username c0) (k_domain c0)"
  shows "\<exists>out1 c2 reply sctx out2 c3.
    process_challenge P (server_challenge_request ch) (snd (nla_start c0)) = (Ok out1, c2) \<and>
    server_answer P ntowf (k_server_public_key c0) (k_negotiate_bytes (snd (nla_start c0))) ch out1 = Ok (reply, sctx) \<and>
    process_pubkey P reply c2 = (Ok out2, c3) \<and>
    server_credentials P out2 sctx = Ok (ts_credentials_password (client_creds c0))"
proof -
  let ?c = "snd (nla_start c0)"
  have same: "client_ok ?c" "k_password ?c = k_password c0" "k_username ?c = k_username c0" "k_domain ?c = k_domain c0"
    "k_server_public_key ?c = k_server_public_key c0" "client_creds ?c = client_creds c0"
    using assms(2) by (simp_all add: nla_start_def Let_def client_ok_def client_creds_def)
  let ?c2 = "?c\<lparr>k_security := Some (snd (challenge_answer P ch ?c))\<rparr>"
  obtain pka sctx cctx where a:
    "server_answer P ntowf (k_server_public_key c0) (k_negotiate_bytes ?c) ch (ts_request_encode (fst (challenge_answer P ch ?c))) =
      Ok (ts_request_encode ((ts_request_new CREDSSP_VERSION)\<lparr>ts_pub_key_auth := Some pka\<rparr>), sctx)"
    "small pka" "unseal P pka (snd (challenge_answer P ch ?c)) =
      (Ok (server_client_binding_hash P (e_nonce (k_entropy ?c)) (k_server_public_key c0)), cctx)"
    "in_step cctx sctx"
    using server_answer_accepts [OF assms(1) same(1) assms(3), of ntowf "k_server_public_key c0"] assms(4) same by auto
  have "client_ok ?c2" using same(1) by (simp add: client_ok_def)
  then obtain out2 c3 where
    "process_pubkey P (ts_request_encode ((ts_request_new CREDSSP_VERSION)\<lparr>ts_pub_key_auth := Some pka\<rparr>)) ?c2 = (Ok out2, c3)"
    "server_credentials P out2 sctx = Ok (ts_credentials_password (client_creds ?c2))"
    using process_pubkey_accepts [OF assms(1), of ?c2 pka "snd (challenge_answer P ch ?c)" cctx sctx] a same(5) by auto
  moreover have "client_creds ?c2 = client_creds c0" using same(6) by (simp add: client_creds_def)
  ultimately show ?thesis
    using process_challenge_answer [OF assms(3), of P ?c] a(1) by metis
qed

text \<open>A server that answers with any other hash gets no credentials.\<close>

lemma process_pubkey_mismatch:
  assumes "sized P" and "k_security c = Some ctx" and "in_step s ctx" and "seal P h s = (pka, s')" and "small pka"
    and "h \<noteq> server_client_binding_hash P (e_nonce (k_entropy c)) (k_server_public_key c)"
  shows "fst (process_pubkey P (ts_request_encode ((ts_request_new CREDSSP_VERSION)\<lparr>ts_pub_key_auth := Some pka\<rparr>)) c) =
    Err (Protocol ''server pubKeyAuth binding hash mismatch'')"
proof -
  obtain y where "unseal P pka ctx = (Ok h, y)" using unseal_seal [OF assms(1,3,4)] by blast
  then show ?thesis
    unfolding process_pubkey_reply [OF assms(5)]
    using assms(2,6) by (simp add: release_credentials_def)
qed

text \<open>The first message, as a server reads it.\<close>

lemma nla_start_negotiates:
  assumes "k_flags c = client_flags"
  shows "\<exists>q tok. ts_request_decode (fst (nla_start c)) = Ok q \<and> ts_version q = CREDSSP_VERSION \<and>
    ts_nego_tokens q = [tok] \<and> tok = k_negotiate_bytes (snd (nla_start c)) \<and>
    negotiate_decode tok = Ok \<lparr>n_flags = client_flags, n_version = Some NTLM_VERSION\<rparr>"
proof -
  let ?neg = "\<lparr>n_flags = client_flags, n_version = Some NTLM_VERSION\<rparr>"
  have d: "negotiate_decode (negotiate_encode ?neg) = Ok ?neg"
    by (rule negotiate_roundtrip)
      (simp add: NTLM_VERSION_def flag_has_def client_flags_def flag_with_def ntlm_flags)
  have "small (negotiate_encode ?neg)" by (simp add: small_def negotiate_encode_def Let_def NTLM_VERSION_def)
  then have "ts_request_decode (ts_request_encode ((ts_request_new CREDSSP_VERSION)\<lparr>ts_nego_tokens := [negotiate_encode ?neg]\<rparr>))
      = Ok ((ts_request_new CREDSSP_VERSION)\<lparr>ts_nego_tokens := [negotiate_encode ?neg]\<rparr>)"
    by (intro ts_request_roundtrip_nil) (simp add: ts_new_ok)
  then show ?thesis
    using assms d by (simp add: nla_start_def Let_def) (simp add: ts_request_new_def)
qed

text \<open>A challenge cut short in its header aborts the client.\<close>

lemma process_challenge_truncated:
  "process_challenge P
     (ts_request_encode ((ts_request_new CREDSSP_VERSION)\<lparr>ts_nego_tokens := [SIGNATURE @ put_u32_le 2]\<rparr>)) c = (Panic, c)"
proof -
  have "small (SIGNATURE @ put_u32_le 2)" by (simp add: small_def)
  then have "ts_request_decode (ts_request_encode ((ts_request_new CREDSSP_VERSION)\<lparr>ts_nego_tokens := [SIGNATURE @ put_u32_le 2]\<rparr>))
      = Ok ((ts_request_new CREDSSP_VERSION)\<lparr>ts_nego_tokens := [SIGNATURE @ put_u32_le 2]\<rparr>)"
    by (intro ts_request_roundtrip_nil) (simp add: ts_new_ok)
  then show ?thesis
    by (simp add: process_challenge_def io_lift_def io_bind_def first_token_def challenge_truncated_panics)
qed

end
