(* ===== verification/Emt.thy ===== *)
theory Emt
  imports Prelude
begin

text \<open>The multitransport tunnel PDUs (\<open>src/emt.rs\<close>).\<close>

definition ACTION_CREATEREQUEST :: u8 where "ACTION_CREATEREQUEST = 0x0"
definition ACTION_CREATERESPONSE :: u8 where "ACTION_CREATERESPONSE = 0x1"
definition ACTION_DATA :: u8 where "ACTION_DATA = 0x2"
definition MIN_HEADER_LEN :: nat where "MIN_HEADER_LEN = 4"

lemmas emt_consts =
  ACTION_CREATEREQUEST_def ACTION_CREATERESPONSE_def ACTION_DATA_def MIN_HEADER_LEN_def

definition tunnel_pdu :: "u8 \<Rightarrow> bytes \<Rightarrow> bytes" where
  "tunnel_pdu action body =
     put_u8 (action AND 0x0f) @ put_u16_le (of_nat (length body)) @ put_u8 (of_nat MIN_HEADER_LEN) @ body"

definition create_request :: "u32 \<Rightarrow> bytes \<Rightarrow> bytes" where
  "create_request request_id security_cookie =
     tunnel_pdu ACTION_CREATEREQUEST (put_u32_le request_id @ put_u32_le 0 @ security_cookie)"

definition tunnel_data :: "bytes \<Rightarrow> bytes" where
  "tunnel_data higher_layer = tunnel_pdu ACTION_DATA higher_layer"

datatype tunnel_message =
    CreateResponse u32
  | TunnelData bytes
  | OtherTunnel u8

definition emt_parse :: "bytes \<Rightarrow> tunnel_message result" where
  "emt_parse pdu =
     and_then (need_bytes MIN_HEADER_LEN pdu) (\<lambda>_.
     and_then (get_u8 pdu) (\<lambda>(b0, b).
     and_then (get_u16_le b) (\<lambda>(payload_len, b).
     and_then (get_u8 b) (\<lambda>(header_len, b).
       let action = b0 AND 0x0f; payload_len = unat payload_len; header_len = unat header_len
       in if header_len < MIN_HEADER_LEN \<or> length pdu < header_len + payload_len
          then Err (Protocol ''bad RDP_TUNNEL_HEADER length'')
          else and_then (slice pdu header_len (header_len + payload_len)) (\<lambda>body.
            if action = ACTION_CREATERESPONSE then
              and_then (need_bytes 4 body) (\<lambda>_.
              and_then (index body 0) (\<lambda>a. and_then (index body 1) (\<lambda>b.
              and_then (index body 2) (\<lambda>c. and_then (index body 3) (\<lambda>d.
                Ok (CreateResponse (u32_from_le_bytes a b c d)))))))
            else if action = ACTION_DATA then Ok (TunnelData body)
            else Ok (OtherTunnel action))))))"

section \<open>Round trips\<close>

text \<open>A tunnel PDU with subheaders, which a receiver skips over.\<close>

definition tunnel_frame :: "u8 \<Rightarrow> bytes \<Rightarrow> bytes \<Rightarrow> bytes" where
  "tunnel_frame b0 sub body =
     b0 # put_u16_le (of_nat (length body)) @ (of_nat (4 + length sub) # sub @ body)"

definition tunnel_body :: "u8 \<Rightarrow> bytes \<Rightarrow> tunnel_message result" where
  "tunnel_body action body =
     (if action = ACTION_CREATERESPONSE then
        (if length body < 4 then Err (Short 4 (length body))
         else Ok (CreateResponse (u32_from_le_bytes (body ! 0) (body ! 1) (body ! 2) (body ! 3))))
      else if action = ACTION_DATA then Ok (TunnelData body)
      else Ok (OtherTunnel action))"

lemma emt_parse_frame:
  assumes "length body < 65536" and "length sub < 252"
  shows "emt_parse (tunnel_frame b0 sub body @ r) = tunnel_body (b0 AND 0x0f) body"
proof -
  have n: "unat (of_nat (4 + length sub) :: u8) = 4 + length sub" using assms(2) by (intro unat_of_nat_u8) simp
  have m: "unat (of_nat (length body) :: u16) = length body" using assms(1) by simp
  have sl: "slice (b0 # put_u16_le (of_nat (length body)) @ (of_nat (4 + length sub) # sub @ body) @ r)
      (4 + length sub) (4 + length sub + length body) = Ok body"
    by (simp add: put_u16_le_def add.commute [of 4] del: of_nat_add flip: drop_drop)
  have ne: "\<not> length body < 4 \<Longrightarrow> body \<noteq> []" by auto
  show ?thesis
    using n m sl ne
    by (simp add: emt_parse_def tunnel_frame_def MIN_HEADER_LEN_def Let_def tunnel_body_def need_bytes_def
        del: of_nat_add)
qed

lemma tunnel_pdu_frame: "tunnel_pdu action body = tunnel_frame (action AND 0x0f) [] body"
  by (simp add: tunnel_pdu_def tunnel_frame_def put_u8_def MIN_HEADER_LEN_def)

lemma emt_parse_data: "length d < 65536 \<Longrightarrow> emt_parse (tunnel_data d) = Ok (TunnelData d)"
  using emt_parse_frame [of d "[]" "ACTION_DATA AND 0x0f" "[]"]
  by (simp add: tunnel_data_def tunnel_pdu_frame tunnel_body_def emt_consts)

lemma emt_parse_no_panic [no_panic]: "emt_parse pdu \<noteq> Panic"
  by (auto simp: emt_parse_def Let_def MIN_HEADER_LEN_def dest!: get_lens)

text \<open>The client's request is 28 bytes for the 16-byte cookie, and carries it last.\<close>

lemma create_request_layout:
  assumes "length cookie = 16"
  shows "create_request i cookie = [0x00, 0x18, 0x00, 0x04] @ put_u32_le i @ [0, 0, 0, 0] @ cookie"
  using assms
  by (simp add: create_request_def tunnel_pdu_def put_u8_def emt_consts) (simp add: put_u16_le_def put_u32_le_def)

end
