(* ===== verification/Udp_Tunnel.thy ===== *)
theory Udp_Tunnel
  imports Emt Tls Multitransport
begin

text \<open>
  The tunnel over the UDP side-band (\<open>src/udp_tunnel.rs\<close>), on the \<open>byte_stream\<close> interface of
  the live transport: here the stream is TLS over the reliable RDP-UDP transport, both of
  which belong to other crates. Opening that stream is a parameter of \<open>tunnel_establish\<close>.
\<close>

definition read_tunnel_pdu :: "(nat \<Rightarrow> ('s, bytes) io) \<Rightarrow> ('s, bytes) io" where
  "read_tunnel_pdu rd =
     io_bind (rd 4) (\<lambda>header.
     io_bind (io_lift (index header 1)) (\<lambda>l0.
     io_bind (io_lift (index header 2)) (\<lambda>l1.
     io_bind (io_lift (index header 3)) (\<lambda>h.
       let payload_len = unat (u16_from_le_bytes l0 l1); header_len = unat h
       in if header_len < 4 then io_lift (Err (Protocol ''bad tunnel HeaderLength''))
          else io_bind (rd ((header_len - 4) + payload_len)) (\<lambda>rest. io_ok (header @ rest))))))"

text \<open>The reply to the create request.\<close>

definition accept_reply :: "tunnel_message \<Rightarrow> unit result" where
  "accept_reply reply =
     (case reply of
        CreateResponse hr \<Rightarrow>
          if hr = 0 then Ok () else Err (NegotiationFailure ''UDP tunnel create rejected'')
      | _ \<Rightarrow> Err (Protocol ''unexpected UDP tunnel reply''))"

definition tunnel_establish ::
    "('s, bool) io \<Rightarrow> (nat \<Rightarrow> ('s, bytes) io) \<Rightarrow> (bytes \<Rightarrow> ('s, unit) io) \<Rightarrow> initiate_request \<Rightarrow> ('s, unit) io"
where
  "tunnel_establish open_transport rd wr request =
     io_bind open_transport (\<lambda>connected.
       if \<not> connected then io_lift (Err (Protocol ''RDP-UDP SYN got no SYN+ACK from server''))
       else
         io_bind (wr (create_request (ir_request_id request) (ir_security_cookie request))) (\<lambda>_.
         io_bind (read_tunnel_pdu rd) (\<lambda>response.
         io_bind (io_lift (emt_parse response)) (\<lambda>reply. io_lift (accept_reply reply)))))"

definition tunnel_send_pdu :: "(bytes \<Rightarrow> ('s, unit) io) \<Rightarrow> bytes \<Rightarrow> ('s, unit) io" where
  "tunnel_send_pdu wr rdp_pdu = wr (tunnel_data rdp_pdu)"

text \<open>
  \<open>loop { .. continue }\<close> ends only with a data PDU or an error, so the number of passes is
  fuel, and \<open>None\<close> means more are needed.
\<close>

fun tunnel_recv_pdu :: "(nat \<Rightarrow> ('s, bytes) io) \<Rightarrow> nat \<Rightarrow> ('s, bytes option) io" where
  "tunnel_recv_pdu rd 0 = io_ok None"
| "tunnel_recv_pdu rd (Suc fuel) =
     io_bind (read_tunnel_pdu rd) (\<lambda>pdu.
     io_bind (io_lift (emt_parse pdu)) (\<lambda>t.
       case t of TunnelData d \<Rightarrow> io_ok (Some d) | _ \<Rightarrow> tunnel_recv_pdu rd fuel))"

section \<open>Over any byte stream\<close>

definition frame_fits :: "bytes \<Rightarrow> bytes \<Rightarrow> bool" where
  "frame_fits sub body \<longleftrightarrow> length body < 65536 \<and> length sub < 252"

text \<open>PDUs that carry no data are skipped.\<close>

definition skip_frame :: "u8 \<times> bytes \<times> bytes \<Rightarrow> bytes" where
  "skip_frame f = (case f of (b0, sub, body) \<Rightarrow> tunnel_frame b0 sub body)"

definition skippable :: "u8 \<times> bytes \<times> bytes \<Rightarrow> bool" where
  "skippable f = (case f of (b0, sub, body) \<Rightarrow>
     frame_fits sub body \<and> b0 AND 0x0f \<noteq> ACTION_DATA \<and>
     (b0 AND 0x0f = ACTION_CREATERESPONSE \<longrightarrow> 4 \<le> length body))"

context byte_stream
begin

lemma read_tunnel_pdu_frame:
  assumes "frame_fits sub body"
  shows "reads pending written (read_tunnel_pdu rd) (tunnel_frame b0 sub body) (Ok (tunnel_frame b0 sub body))"
proof -
  let ?m = "of_nat (length body) :: u16" and ?n = "of_nat (4 + length sub) :: u8"
  let ?h = "[b0, ucast ?m, ucast (drop_bit 8 ?m), ?n]"
  have n: "unat ?n = 4 + length sub" using assms by (intro unat_of_nat_u8) (simp add: frame_fits_def)
  have m: "unat ?m = length body" using assms by (simp add: frame_fits_def)
  have frame: "tunnel_frame b0 sub body = ?h @ (sub @ body)"
    by (simp add: tunnel_frame_def put_u16_le_def del: of_nat_add)
  have rest: "reads pending written (io_bind (rd (length sub + length body)) (\<lambda>rest. io_ok (?h @ rest)))
      ((sub @ body) @ []) (Ok (?h @ (sub @ body)))"
    by (rule rd_bind) auto
  have "reads pending written (read_tunnel_pdu rd) (?h @ (sub @ body)) (Ok (?h @ (sub @ body)))"
    unfolding read_tunnel_pdu_def
    by (rule rd_bind, simp)
      (use rest n m in \<open>simp add: io_lift_def io_bind_def reads_def Let_def del: of_nat_add\<close>)
  then show ?thesis unfolding frame .
qed

lemma tunnel_recv_reads:
  assumes "list_all skippable fs" and "frame_fits sub body" and "b0 AND 0x0f = ACTION_DATA"
    and "length fs < fuel"
  shows "reads pending written (tunnel_recv_pdu rd fuel)
    (concat (map skip_frame fs) @ tunnel_frame b0 sub body) (Ok (Some body))"
  using assms(1,4)
proof (induction fs arbitrary: fuel)
  case Nil
  then obtain k where k: "fuel = Suc k" by (cases fuel) auto
  have "reads pending written (tunnel_recv_pdu rd fuel) (tunnel_frame b0 sub body @ []) (Ok (Some body))"
    unfolding k tunnel_recv_pdu.simps
  proof (rule reads_bindI [OF read_tunnel_pdu_frame [OF assms(2)]])
    have "emt_parse (tunnel_frame b0 sub body) = Ok (TunnelData body)"
      using emt_parse_frame [of body sub b0 "[]"] assms(2,3)
      by (simp add: frame_fits_def tunnel_body_def emt_consts)
    then show "reads pending written (io_bind (io_lift (emt_parse (tunnel_frame b0 sub body)))
        (\<lambda>t. case t of TunnelData d \<Rightarrow> io_ok (Some d) | _ \<Rightarrow> tunnel_recv_pdu rd k)) [] (Ok (Some body))"
      by (rule reads_lift_bind) auto
  qed simp
  then show ?case by simp
next
  case (Cons f fs)
  obtain c sb bd where f: "f = (c, sb, bd)" by (cases f)
  have sk: "frame_fits sb bd" "c AND 0x0f \<noteq> ACTION_DATA" "c AND 0x0f = ACTION_CREATERESPONSE \<longrightarrow> 4 \<le> length bd"
    using Cons.prems(1) by (simp_all add: f skippable_def)
  obtain k where k: "fuel = Suc k" using Cons.prems(2) by (cases fuel) auto
  obtain t where t: "emt_parse (tunnel_frame c sb bd) = Ok t" "\<forall>d. t \<noteq> TunnelData d"
    using emt_parse_frame [of bd sb c "[]"] sk 
    by (cases "c AND 0x0f = ACTION_CREATERESPONSE") (auto simp: frame_fits_def tunnel_body_def)
  have rest: "reads pending written (tunnel_recv_pdu rd k)
      (concat (map skip_frame fs) @ tunnel_frame b0 sub body) (Ok (Some body))"
    using Cons by (simp add: k)
  have "reads pending written (tunnel_recv_pdu rd fuel)
      (tunnel_frame c sb bd @ concat (map skip_frame fs) @ tunnel_frame b0 sub body) (Ok (Some body))"
    unfolding k tunnel_recv_pdu.simps
    by (rule reads_bindI [OF read_tunnel_pdu_frame [OF sk(1)]], rule reads_lift_bind [OF t(1)])
      (use rest t(2) in \<open>auto split: tunnel_message.splits\<close>)
  moreover have "skip_frame f = tunnel_frame c sb bd" by (simp add: f skip_frame_def)
  ultimately show ?case by simp
qed

text \<open>The handshake: one request, and the server's verdict.\<close>

lemma tunnel_establish_verdict:
  assumes "op s = (Ok True, t)" and "written t = sent"
    and "frame_fits sub body" and "pending t = tunnel_frame b0 sub body @ r"
  shows "\<exists>u. tunnel_establish op rd wr req s =
      (and_then (tunnel_body (b0 AND 0x0f) body) accept_reply, u) \<and>
    pending u = r \<and> written u = sent @ create_request (ir_request_id req) (ir_security_cookie req)"
proof -
  let ?cr = "create_request (ir_request_id req) (ir_security_cookie req)"
  obtain t2 where t2: "wr ?cr t = (Ok (), t2)" "pending t2 = pending t" "written t2 = sent @ ?cr"
    using wr_all [of ?cr t] assms(2) by auto
  obtain t3 where t3: "read_tunnel_pdu rd t2 = (Ok (tunnel_frame b0 sub body), t3)" "pending t3 = r"
      "written t3 = written t2"
    using read_tunnel_pdu_frame [OF assms(3)] t2(2) assms(4) unfolding reads_def by metis
  have "emt_parse (tunnel_frame b0 sub body) = tunnel_body (b0 AND 0x0f) body"
    using emt_parse_frame [of body sub b0 "[]"] assms(3) by (simp add: frame_fits_def)
  then show ?thesis
    using assms(1) t2 t3 by (cases "tunnel_body (b0 AND 0x0f) body") (simp_all add: tunnel_establish_def io_lift_def io_bind_def)
qed

lemma tunnel_send_writes:
  "\<exists>t. tunnel_send_pdu wr p s = (Ok (), t) \<and> pending t = pending s \<and> written t = written s @ tunnel_data p"
  unfolding tunnel_send_pdu_def by (rule wr_all)

end

end
