(* ===== verification/Session.thy ===== *)
theory Session
  imports Tls Display Input Credssp_Client Udp_Tunnel
begin

text \<open>
  The session (\<open>src/session.rs\<close>): connecting, the NLA phase, the pump and the input path, over
  the byte stream operations \<open>rd\<close> and \<open>wr\<close> of the live transport. Read timeouts only bound how
  long a read may block and are not modelled.
\<close>

record session_params =
  sp_host :: rstring
  sp_port :: u16
  sp_domain :: rstring
  sp_username :: rstring
  sp_password :: rstring
  sp_width :: u16
  sp_height :: u16

definition session_params_new :: "rstring \<Rightarrow> rstring \<Rightarrow> rstring \<Rightarrow> session_params" where
  "session_params_new host username password =
     \<lparr>sp_host = host, sp_port = 3389, sp_domain = [], sp_username = username,
      sp_password = password, sp_width = 1280, sp_height = 800\<rparr>"

text \<open>\<open>'s\<close> is the transport, \<open>'u\<close> the UDP tunnel.\<close>

record ('s, 'u) rdp_session =
  rs_transport :: 's
  rs_session :: session
  rs_display :: display
  rs_udp :: "'u option"

section \<open>Connecting\<close>

definition run_nla_inner ::
    "primitives \<Rightarrow> (nat \<Rightarrow> ('s, bytes) io) \<Rightarrow> (bytes \<Rightarrow> ('s, unit) io) \<Rightarrow> credssp_client \<Rightarrow> ('s, unit) io" where
  "run_nla_inner P rd wr nla =
     (let (negotiate_ts, nla) = nla_start nla
      in io_bind (write_raw wr negotiate_ts) (\<lambda>_.
         io_bind (read_credssp rd) (\<lambda>challenge.
           let (authenticate_ts, nla) = process_challenge P challenge nla
           in io_bind (io_lift authenticate_ts) (\<lambda>ts.
              io_bind (write_raw wr ts) (\<lambda>_.
              io_bind (read_credssp rd) (\<lambda>pubkey_reply.
                io_bind (io_lift (fst (process_pubkey P pubkey_reply nla))) (write_raw wr)))))))"

definition run_nla ::
    "primitives \<Rightarrow> entropy \<Rightarrow> (nat \<Rightarrow> ('s, bytes) io) \<Rightarrow> (bytes \<Rightarrow> ('s, unit) io) \<Rightarrow> bytes \<Rightarrow>
     session_params \<Rightarrow> ('s, unit) io" where
  "run_nla P e rd wr server_public_key params =
     run_nla_inner P rd wr
       (with_entropy (sp_domain params) (sp_username params) (sp_password params) server_public_key e)"

definition session_cfg :: "session_params \<Rightarrow> u32 \<Rightarrow> session_config" where
  "session_cfg params protocol =
     \<lparr>sc_width = sp_width params, sc_height = sp_height params, sc_domain = sp_domain params,
      sc_username = sp_username params, sc_selected_protocol = protocol,
      sc_channels = [\<lparr>ch_name = rstr ''drdynvc'', ch_options = 0xC0000000\<rparr>]\<rparr>"

definition session_connect ::
    "bool \<Rightarrow> primitives \<Rightarrow> entropy \<Rightarrow> (nat \<Rightarrow> ('s, bytes) io) \<Rightarrow> (bytes \<Rightarrow> ('s, unit) io) \<Rightarrow>
     ('s, bytes option) io \<Rightarrow> session_params \<Rightarrow> 's \<Rightarrow> ('s, 'u) rdp_session result \<times> 's" where
  "session_connect oc P e rd wr handshake params =
     io_bind (tls_connect rd wr handshake (PROTO_SSL OR PROTO_HYBRID) (Some (sp_username params)))
       (\<lambda>(protocol, server_public_key).
     io_bind (if protocol AND PROTO_HYBRID \<noteq> 0 then run_nla P e rd wr server_public_key params else io_ok ())
       (\<lambda>_.
     io_bind (establish oc (tls_send wr) (tls_recv rd) (session_cfg params protocol)) (\<lambda>session. \<lambda>t.
       (Ok \<lparr>rs_transport = t, rs_session = session,
            rs_display = display_new (unat (sp_width params)) (unat (sp_height params)), rs_udp = None\<rparr>, t))))"

section \<open>The live session\<close>

definition on_transport :: "('s, 'a) io \<Rightarrow> (('s, 'u) rdp_session, 'a) io" where
  "on_transport m s = (case m (rs_transport s) of (r, t) \<Rightarrow> (r, s\<lparr>rs_transport := t\<rparr>))"

definition on_display :: "(display, 'a) io \<Rightarrow> (('s, 'u) rdp_session, 'a) io" where
  "on_display m s = (case m (rs_display s) of (r, d) \<Rightarrow> (r, s\<lparr>rs_display := d\<rparr>))"

definition enable_udp :: "'u result \<Rightarrow> (('s, 'u) rdp_session, unit) io" where
  "enable_udp tunnel = io_bind (io_lift tunnel) (\<lambda>u s. (Ok (), s\<lparr>rs_udp := Some u\<rparr>))"

definition is_on_udp :: "('s, 'u) rdp_session \<Rightarrow> bool" where
  "is_on_udp s \<longleftrightarrow> rs_udp s \<noteq> None"

definition multitransport_request :: "('s, 'u) rdp_session \<Rightarrow> initiate_request option" where
  "multitransport_request s = se_multitransport_request (rs_session s)"

definition handle_frame :: "bool \<Rightarrow> frame option \<Rightarrow> (('s, 'u) rdp_session, unit) io" where
  "handle_frame da f =
     (case f of
        Some (FastPath pdu) \<Rightarrow>
          io_bind (io_lift (parse_output_pdu pdu)) (\<lambda>updates. on_display (display_apply_all da updates))
      | Some (SlowPath mcs) \<Rightarrow> io_ok ()
      | None \<Rightarrow> io_ok ())"

definition pump ::
    "bool \<Rightarrow> (nat \<Rightarrow> ('s, bytes) io) \<Rightarrow> ('s, read_outcome) io \<Rightarrow> (('s, 'u) rdp_session, bool) io" where
  "pump da rd rd1 s =
     io_bind (on_transport (poll_frame rd rd1)) (\<lambda>f.
     io_bind (handle_frame da f) (\<lambda>_ s. (Ok (dirty (rs_display s)), s)))
       (s\<lparr>rs_display := (rs_display s)\<lparr>dirty := False\<rparr>\<rparr>)"

definition send_input :: "(bytes \<Rightarrow> ('s, unit) io) \<Rightarrow> bytes list \<Rightarrow> (('s, 'u) rdp_session, unit) io" where
  "send_input wr events = on_transport (wr (input_pdu events))"

definition session_framebuffer :: "('s, 'u) rdp_session \<Rightarrow> framebuffer" where
  "session_framebuffer s = d_framebuffer (rs_display s)"

definition session_cursor :: "('s, 'u) rdp_session \<Rightarrow> cursor option" where
  "session_cursor s = d_cursor (rs_display s)"

section \<open>A frame painted\<close>

text \<open>The fast-path PDU of the graphics layer is a frame of the transport.\<close>

lemma or_128: "k < 128 \<Longrightarrow> (of_nat k OR 0x80 :: u8) = of_nat (0x80 + k)"
proof -
  have "list_all (\<lambda>k. (of_nat k OR 0x80 :: u8) = of_nat (0x80 + k)) [0..<128]" by code_simp
  then show "k < 128 \<Longrightarrow> (of_nat k OR 0x80 :: u8) = of_nat (0x80 + k)"
    unfolding list_all_iff by (simp del: of_nat_add)
qed

lemma output_pdu_frame:
  assumes "length (concat (map update_encode us)) + 3 < 0x8000"
  shows "output_pdu_encode us = fast_frame 0x00 (concat (map update_encode us))"
proof -
  let ?n = "length (concat (map update_encode us))"
  have "(?n + 3) div 256 < 128" using assms by (simp add: div_less_iff_less_mult)
  from or_128 [OF this] show ?thesis
    by (auto simp: output_pdu_encode_def fast_frame_def Let_def fp_length_encode_def fast_length_def
        simp del: of_nat_add)
qed

text \<open>The single read of \<open>poll_frame\<close>, on the in-memory stream: \<open>Ok(0)\<close> at its end.\<close>

definition mem_poll :: "(mem_stream, read_outcome) io" where
  "mem_poll s =
     (case ms_in s of
        [] \<Rightarrow> (Ok Closed, s)
      | b # bs \<Rightarrow> (Ok (Got b), s\<lparr>ms_in := bs\<rparr>))"

context byte_stream
begin

lemma pump_fast_path:
  assumes "rd1 (rs_transport s) = (Ok (Got 0x00), t)" and "pending t = tl (output_pdu_encode us) @ r"
    and "list_all update_ok us" and "length (concat (map update_encode us)) + 3 < 0x8000"
    and "display_apply_all da us ((rs_display s)\<lparr>dirty := False\<rparr>) = (res, d)"
  shows "\<exists>u. pump da rd rd1 s =
      (and_then res (\<lambda>_. Ok (dirty d)), s\<lparr>rs_transport := u, rs_display := d\<rparr>) \<and>
    pending u = r \<and> written u = written t"
proof -
  let ?body = "concat (map update_encode us)"
  have frame: "output_pdu_encode us = fast_frame 0x00 ?body" by (rule output_pdu_frame [OF assms(4)])
  then have "pending t = (fast_length (length ?body) @ ?body) @ r" using assms(2) by (simp add: fast_frame_def)
  moreover have "reads pending written (read_frame_body rd 0x00) (fast_length (length ?body) @ ?body)
      (Ok (FastPath (output_pdu_encode us)))"
    unfolding frame using assms(4) by (intro read_frame_body_fast) simp_all
  ultimately obtain u where u: "read_frame_body rd 0x00 t = (Ok (FastPath (output_pdu_encode us)), u)"
      "pending u = r" "written u = written t" unfolding reads_def by blast
  have poll: "poll_frame rd rd1 (rs_transport s) = (Ok (Some (FastPath (output_pdu_encode us))), u)"
    using assms(1) u(1) by (simp add: poll_frame_def io_ok_def)
  have "parse_output_pdu (output_pdu_encode us) = Ok us"
    using parse_output_pdu_encode [OF assms(3,4), of "[]"] by simp
  then have "pump da rd rd1 s = (and_then res (\<lambda>_. Ok (dirty d)), s\<lparr>rs_transport := u, rs_display := d\<rparr>)"
    using poll assms(5)
    by (cases res) (simp_all add: pump_def on_transport_def on_display_def handle_frame_def io_bind_def io_lift_def)
  with u show ?thesis by blast
qed

lemma read_der_tlv_request:
  assumes "ts_request_ok q"
  shows "reads pending written (read_der_tlv rd) (ts_request_encode q) (Ok (ts_request_encode q))"
proof -
  have "ts_request_encode q = tlv TAG_SEQUENCE (ts_body q)"
    by (simp add: ts_request_encode_def ts_body_def der_sequence_def)
  then show ?thesis using read_der_tlv_reads [of "ts_body q" TAG_SEQUENCE] length_ts_body [OF assms] by simp
qed

end

end
