(* ===== verification/Session_Spec.thy ===== *)
theory Session_Spec
  imports Session
begin

text \<open>
  The session against an honest server, over any byte stream: the CredSSP exchange of
  \<open>run_nla\<close>, the connection from the negotiation to the active session, and the pump, whose
  outcome is stated for each kind of frame.
\<close>

section \<open>CredSSP on the wire\<close>

text \<open>What a server that knows the password answers to the client's AUTHENTICATE.\<close>

definition nla_answer :: "primitives \<Rightarrow> challenge_message \<Rightarrow> credssp_client \<Rightarrow> (bytes \<times> security_context) result" where
  "nla_answer P ch c =
     (let c1 = snd (nla_start c)
      in server_answer P (ntowf_v2 P (k_password c) (k_username c) (k_domain c)) (k_server_public_key c)
           (k_negotiate_bytes c1) ch (ts_request_encode (fst (challenge_answer P ch c1))))"

definition nla_reply :: "primitives \<Rightarrow> challenge_message \<Rightarrow> credssp_client \<Rightarrow> bytes" where
  "nla_reply P ch c = (case nla_answer P ch c of Ok (reply, ctx) \<Rightarrow> reply | _ \<Rightarrow> [])"

text \<open>What the server reads out of the client's last message.\<close>

definition nla_received :: "primitives \<Rightarrow> challenge_message \<Rightarrow> credssp_client \<Rightarrow> bytes \<Rightarrow> bytes result" where
  "nla_received P ch c out = and_then (nla_answer P ch c) (\<lambda>(reply, ctx). server_credentials P out ctx)"

text \<open>The client's three messages.\<close>

definition nla_sent :: "primitives \<Rightarrow> challenge_message \<Rightarrow> credssp_client \<Rightarrow> bytes list" where
  "nla_sent P ch c =
     (let (m0, c1) = nla_start c;
          (m1, c2) = process_challenge P (server_challenge_request ch) c1;
          (m2, c3) = process_pubkey P (nla_reply P ch c) c2
      in [m0, case m1 of Ok b \<Rightarrow> b | _ \<Rightarrow> [], case m2 of Ok b \<Rightarrow> b | _ \<Rightarrow> []])"

definition nla_pending :: "primitives \<Rightarrow> challenge_message \<Rightarrow> credssp_client \<Rightarrow> bytes" where
  "nla_pending P ch c = server_challenge_request ch @ nla_reply P ch c"

lemma nla_start_keeps:
  "client_ok (snd (nla_start c)) = client_ok c" "k_server_public_key (snd (nla_start c)) = k_server_public_key c"
  "k_password (snd (nla_start c)) = k_password c" "k_username (snd (nla_start c)) = k_username c"
  "k_domain (snd (nla_start c)) = k_domain c" "client_creds (snd (nla_start c)) = client_creds c"
  by (simp_all add: nla_start_def Let_def client_ok_def client_creds_def)

text \<open>The messages of the two sides fit together.\<close>

lemma nla_messages:
  assumes "sized P" and "client_ok c" and "server_ok ch"
  obtains pka sctx m1 c2 m2 c3 where
    "nla_reply P ch c = ts_request_encode ((ts_request_new CREDSSP_VERSION)\<lparr>ts_pub_key_auth := Some pka\<rparr>)"
    "small pka" "nla_answer P ch c = Ok (nla_reply P ch c, sctx)"
    "process_challenge P (server_challenge_request ch) (snd (nla_start c)) = (Ok m1, c2)"
    "process_pubkey P (nla_reply P ch c) c2 = (Ok m2, c3)"
    "server_credentials P m2 sctx = Ok (ts_credentials_password (client_creds c))"
    "nla_sent P ch c = [fst (nla_start c), m1, m2]"
proof -
  let ?c1 = "snd (nla_start c)"
  have ok: "client_ok ?c1" using assms(2) by (simp add: nla_start_keeps)
  obtain pka sctx cctx where a: "nla_answer P ch c =
        Ok (ts_request_encode ((ts_request_new CREDSSP_VERSION)\<lparr>ts_pub_key_auth := Some pka\<rparr>), sctx)" "small pka"
      "unseal P pka (snd (challenge_answer P ch ?c1)) =
        (Ok (server_client_binding_hash P (e_nonce (k_entropy ?c1)) (k_server_public_key c)), cctx)"
      "in_step cctx sctx"
    using server_answer_accepts [OF assms(1) ok assms(3) refl refl]
    by (auto simp: nla_answer_def Let_def nla_start_keeps)
  then have r: "nla_reply P ch c = ts_request_encode ((ts_request_new CREDSSP_VERSION)\<lparr>ts_pub_key_auth := Some pka\<rparr>)"
    by (simp add: nla_reply_def)
  let ?c2 = "?c1\<lparr>k_security := Some (snd (challenge_answer P ch ?c1))\<rparr>"
  have p: "process_challenge P (server_challenge_request ch) ?c1 =
      (Ok (ts_request_encode (fst (challenge_answer P ch ?c1))), ?c2)"
    by (rule process_challenge_answer [OF assms(3)])
  have "client_ok ?c2" using ok by (simp add: client_ok_def)
  moreover have "unseal P pka (snd (challenge_answer P ch ?c1)) =
      (Ok (server_client_binding_hash P (e_nonce (k_entropy ?c2)) (k_server_public_key ?c2)), cctx)"
    using a(3) by (simp add: nla_start_keeps)
  ultimately obtain m2 c3 where q: "process_pubkey P (nla_reply P ch c) ?c2 = (Ok m2, c3)"
      "server_credentials P m2 sctx = Ok (ts_credentials_password (client_creds ?c2))"
    using process_pubkey_accepts [OF assms(1) _ a(2), of ?c2 "snd (challenge_answer P ch ?c1)" cctx sctx] a(4)
    unfolding r by auto
  have "client_creds ?c2 = client_creds c" by (simp add: client_creds_def nla_start_keeps)
  with q(2) have creds: "server_credentials P m2 sctx = Ok (ts_credentials_password (client_creds c))" by simp
  have "nla_sent P ch c = [fst (nla_start c), ts_request_encode (fst (challenge_answer P ch ?c1)), m2]"
    using p q(1) by (simp add: nla_sent_def Let_def split_beta)
  then show thesis using that [OF r a(2) _ p q(1) creds] a(1) r by simp
qed

lemma nla_sent_credentials:
  assumes "sized P" and "client_ok c" and "server_ok ch"
  shows "nla_received P ch c (last (nla_sent P ch c)) = Ok (ts_credentials_password (client_creds c))"
  by (rule nla_messages [OF assms]) (simp add: nla_received_def)

context byte_stream
begin

lemma run_nla_inner_honest:
  assumes "sized P" and "client_ok c" and "server_ok ch" and "pending s = nla_pending P ch c @ r"
  shows "\<exists>t. run_nla_inner P rd wr c s = (Ok (), t) \<and> pending t = r \<and>
    written t = written s @ concat (nla_sent P ch c)"
proof (rule nla_messages [OF assms(1-3)])
  fix pka sctx m1 c2 m2 c3
  assume m: "nla_reply P ch c = ts_request_encode ((ts_request_new CREDSSP_VERSION)\<lparr>ts_pub_key_auth := Some pka\<rparr>)"
    "small pka" "process_challenge P (server_challenge_request ch) (snd (nla_start c)) = (Ok m1, c2)"
    "process_pubkey P (nla_reply P ch c) c2 = (Ok m2, c3)" "nla_sent P ch c = [fst (nla_start c), m1, m2]"
  have small: "small (challenge_encode ch)" using assms(3) by (simp add: server_ok_def length_challenge)
  have r1: "reads pending written (read_der_tlv rd) (server_challenge_request ch) (Ok (server_challenge_request ch))"
    unfolding server_challenge_request_def by (rule read_der_tlv_request) (simp add: ts_new_ok small)
  have r2: "reads pending written (read_der_tlv rd) (nla_reply P ch c) (Ok (nla_reply P ch c))"
    unfolding m(1) by (rule read_der_tlv_request) (simp add: ts_new_ok m(2))
  obtain t0 where t0: "wr (fst (nla_start c)) s = (Ok (), t0)" "pending t0 = nla_pending P ch c @ r"
      "written t0 = written s @ fst (nla_start c)" using wr_all assms(4) by metis
  obtain t1 where t1: "read_der_tlv rd t0 = (Ok (server_challenge_request ch), t1)"
      "pending t1 = nla_reply P ch c @ r" "written t1 = written t0"
    using r1 t0(2) unfolding reads_def nla_pending_def by (metis append_assoc)
  obtain t2 where t2: "wr m1 t1 = (Ok (), t2)" "pending t2 = pending t1" "written t2 = written t1 @ m1"
    using wr_all by blast
  obtain t3 where t3: "read_der_tlv rd t2 = (Ok (nla_reply P ch c), t3)" "pending t3 = r" "written t3 = written t2"
    using r2 t1(2) t2(2) unfolding reads_def by metis
  obtain t4 where t4: "wr m2 t3 = (Ok (), t4)" "pending t4 = pending t3" "written t4 = written t3 @ m2"
    using wr_all by blast
  have "run_nla_inner P rd wr c s = (Ok (), t4)"
    using t0(1) t1(1) t2(1) t3(1) t4(1) m(3,4)
    by (simp add: run_nla_inner_def split_beta io_bind_def io_lift_def)
  then show ?thesis using t0 t1 t2 t3 t4 m(5) by auto
qed

end

section \<open>From the negotiation to the active session\<close>

text \<open>The CredSSP client of a session whose server showed the certificate \<open>x\<close>.\<close>

definition login_client :: "session_params \<Rightarrow> entropy \<Rightarrow> x509 \<Rightarrow> credssp_client" where
  "login_client params e x = with_entropy (sp_domain params) (sp_username params) (sp_password params) (x_key x) e"

text \<open>What each side says in a connection that selects \<open>protocol\<close>.\<close>

definition connect_incoming ::
    "primitives \<Rightarrow> entropy \<Rightarrow> session_params \<Rightarrow> x509 \<Rightarrow> u8 \<Rightarrow> u32 \<Rightarrow> challenge_message \<Rightarrow> server_run \<Rightarrow> bytes" where
  "connect_incoming P e params x flags protocol ch v =
     tpkt_bytes (connection_confirm_encode \<lparr>cc_nego = Some (Selected flags protocol)\<rparr>) @
     (if protocol AND PROTO_HYBRID \<noteq> 0 then nla_pending P ch (login_client params e x) else []) @
     concat (map tls_frame (server_messages v))"

definition connect_outgoing ::
    "primitives \<Rightarrow> entropy \<Rightarrow> session_params \<Rightarrow> x509 \<Rightarrow> u32 \<Rightarrow> challenge_message \<Rightarrow> server_run \<Rightarrow> bytes" where
  "connect_outgoing P e params x protocol ch v =
     tpkt_bytes (cr_bytes (PROTO_SSL OR PROTO_HYBRID) (Some (sp_username params))) @
     (if protocol AND PROTO_HYBRID \<noteq> 0 then concat (nla_sent P ch (login_client params e x)) else []) @
     concat (map tls_frame (client_messages (session_cfg params protocol) v))"

definition new_session :: "session_params \<Rightarrow> session \<Rightarrow> 's \<Rightarrow> ('s, 'u) rdp_session" where
  "new_session params session t =
     \<lparr>rs_transport = t, rs_session = session,
      rs_display = display_new (unat (sp_width params)) (unat (sp_height params)), rs_udp = None\<rparr>"

text \<open>The sizes that make every message fit its frame.\<close>

definition connect_ok ::
    "bool \<Rightarrow> primitives \<Rightarrow> entropy \<Rightarrow> session_params \<Rightarrow> x509 \<Rightarrow> u32 \<Rightarrow> challenge_message \<Rightarrow> server_run \<Rightarrow> bool" where
  "connect_ok oc P e params x protocol ch v \<longleftrightarrow>
     length (cr_bytes (PROTO_SSL OR PROTO_HYBRID) (Some (sp_username params))) + 4 \<le> 65535 \<and> x509_ok x \<and>
     sized P \<and> client_ok (login_client params e x) \<and> server_ok ch \<and> honest_server oc v \<and>
     list_all tls_fits (server_messages v) \<and> list_all tls_fits (client_messages (session_cfg params protocol) v)"

context byte_stream
begin

lemma session_connect_runs:
  assumes ok: "connect_ok oc P e params x protocol ch v"
    and handshake: "\<And>s. \<exists>t. handshake s = (Ok (Some (x509_encode x)), t) \<and> pending t = pending s \<and> written t = written s"
    and "pending s = connect_incoming P e params x flags protocol ch v @ r"
  shows "\<exists>t. session_connect oc P e rd wr handshake params s = (Ok (new_session params (server_session v) t), t) \<and>
    pending t = r \<and> written t = written s @ connect_outgoing P e params x protocol ch v"
proof -
  let ?cc = "\<lparr>cc_nego = Some (Selected flags protocol)\<rparr>" and ?c = "login_client params e x"
  let ?frames = "concat (map tls_frame (server_messages v)) @ r"
  let ?nla = "(if protocol AND PROTO_HYBRID \<noteq> 0 then nla_pending P ch ?c else []) @ ?frames"
  note k = ok [unfolded connect_ok_def]
  obtain t1 where t1: "negotiate rd wr (PROTO_SSL OR PROTO_HYBRID) (Some (sp_username params)) s = (Ok protocol, t1)"
      "pending t1 = ?nla"
      "written t1 = written s @ tpkt_bytes (cr_bytes (PROTO_SSL OR PROTO_HYBRID) (Some (sp_username params)))"
    using negotiate_reads [of "PROTO_SSL OR PROTO_HYBRID" "Some (sp_username params)" s ?cc ?nla] k assms(3)
    by (auto simp: connect_incoming_def selected_protocol_def)
  obtain t2 where t2: "handshake t1 = (Ok (Some (x509_encode x)), t2)" "pending t2 = pending t1" "written t2 = written t1"
    using handshake by blast
  have key: "subject_public_key (x509_encode x) = Ok (x_key x)"
    using subject_public_key_encode [of x "[]"] k by simp
  have tls: "tls_connect rd wr handshake (PROTO_SSL OR PROTO_HYBRID) (Some (sp_username params)) s =
      (Ok (protocol, x_key x), t2)"
    using t1(1) t2(1) key by (simp add: tls_connect_def io_bind_def io_lift_def io_ok_def)
  obtain t3 where t3:
      "(if protocol AND PROTO_HYBRID \<noteq> 0 then run_nla P e rd wr (x_key x) params else io_ok ()) t2 = (Ok (), t3)"
      "pending t3 = ?frames"
      "written t3 = written t2 @ (if protocol AND PROTO_HYBRID \<noteq> 0 then concat (nla_sent P ch ?c) else [])"
  proof (cases "protocol AND PROTO_HYBRID = 0")
    case True
    then show thesis using that [of t2] t1(2) t2(2) by (simp add: io_ok_def)
  next
    case False
    have "\<exists>t. run_nla P e rd wr (x_key x) params t2 = (Ok (), t) \<and> pending t = ?frames \<and>
        written t = written t2 @ concat (nla_sent P ch ?c)"
      unfolding run_nla_def login_client_def [symmetric]
      using k t1(2) t2(2) False by (intro run_nla_inner_honest) simp_all
    then show thesis using that False by auto
  qed
  have "tls_ready pending written (written t3) r t3 (server_messages v @ []) []"
    using t3(2) k by (simp add: tls_ready_def)
  moreover have "runs (tls_ready pending written (written t3) r) (establish oc (tls_send wr) (tls_recv rd) (session_cfg params protocol))
      (server_messages v) (Ok (server_session v)) (client_messages (session_cfg params protocol) v)"
    using k by (intro tls.establish_runs) simp_all
  ultimately obtain t4 where t4:
      "establish oc (tls_send wr) (tls_recv rd) (session_cfg params protocol) t3 = (Ok (server_session v), t4)"
      "tls_ready pending written (written t3) r t4 [] ([] @ client_messages (session_cfg params protocol) v)"
    unfolding runs_def by blast
  have "session_connect oc P e rd wr handshake params s = (Ok (new_session params (server_session v) t4), t4)"
    using tls t3(1) t4(1) by (simp add: session_connect_def io_bind_def new_session_def)
  then show ?thesis
    using t1(3) t2(3) t3(3) t4(2) by (auto simp: tls_ready_def connect_outgoing_def)
qed

end

section \<open>The pump\<close>

text \<open>The display stays well-formed and of its size, whatever the transport delivers.\<close>

lemma handle_frame_ok:
  assumes "display_ok (rs_display s)" and "handle_frame da f s = (r, s')"
  shows "display_ok (rs_display s') \<and> same_size (rs_display s) (rs_display s')"
  using assms display_apply_all_ok [OF assms(1)]
  by (auto simp: handle_frame_def on_display_def io_bind_def io_lift_def io_ok_def same_size_def
      split: option.splits frame.splits result.splits prod.splits)

lemma pump_ok:
  assumes "display_ok (rs_display s)" and "pump da rd rd1 s = (r, s')"
  shows "display_ok (rs_display s') \<and> same_size (rs_display s) (rs_display s')"
proof -
  let ?s0 = "s\<lparr>rs_display := (rs_display s)\<lparr>dirty := False\<rparr>\<rparr>"
  obtain q t where p: "poll_frame rd rd1 (rs_transport ?s0) = (q, t)" by fastforce
  let ?s1 = "?s0\<lparr>rs_transport := t\<rparr>"
  have ok: "display_ok (rs_display ?s1)" "same_size (rs_display s) (rs_display ?s1)"
    using assms(1) by (simp_all add: display_ok_def same_size_def)
  show ?thesis
  proof (cases q)
    case (Ok f)
    obtain h s2 where h: "handle_frame da f ?s1 = (h, s2)" by fastforce
    have "s' = s2" using assms(2) p h Ok
      by (auto simp: pump_def on_transport_def io_bind_def split: result.splits)
    then show ?thesis using handle_frame_ok [OF ok(1) h] ok(2) by (simp add: same_size_def)
  qed (use assms(2) p ok in \<open>auto simp: pump_def on_transport_def io_bind_def\<close>)
qed

text \<open>A quiet server, a closed connection, and a frame of the slow path.\<close>

lemma pump_idle:
  assumes "rd1 (rs_transport s) = (Ok TimedOut, t)"
  shows "pump da rd rd1 s = (Ok False, s\<lparr>rs_transport := t, rs_display := (rs_display s)\<lparr>dirty := False\<rparr>\<rparr>)"
  using assms
  by (simp add: pump_def on_transport_def poll_frame_def handle_frame_def io_bind_def io_ok_def)

lemma pump_closed:
  assumes "rd1 (rs_transport s) = (Ok Closed, t)"
  shows "pump da rd rd1 s =
    (Err (Io ''UnexpectedEof''), s\<lparr>rs_transport := t, rs_display := (rs_display s)\<lparr>dirty := False\<rparr>\<rparr>)"
  using assms
  by (simp add: pump_def on_transport_def poll_frame_def io_bind_def io_lift_def)

end
