(* ===== verification/Egfx.thy ===== *)
theory Egfx
  imports Framebuffer Planar_Spec
begin

text \<open>
  The graphics pipeline (\<open>src/egfx.rs\<close>): its commands, the loop that parses a message of
  them (through the \<open>stream_codec\<close> interface), and the surface store. \<open>da\<close> says whether the
  build has debug assertions.
\<close>

definition CMDID_WIRETOSURFACE_1 :: u16 where "CMDID_WIRETOSURFACE_1 = 0x0001"
definition CMDID_WIRETOSURFACE_2 :: u16 where "CMDID_WIRETOSURFACE_2 = 0x0002"
definition CMDID_SOLIDFILL :: u16 where "CMDID_SOLIDFILL = 0x0004"
definition CMDID_CREATESURFACE :: u16 where "CMDID_CREATESURFACE = 0x0009"
definition CMDID_DELETESURFACE :: u16 where "CMDID_DELETESURFACE = 0x000A"
definition CMDID_STARTFRAME :: u16 where "CMDID_STARTFRAME = 0x000B"
definition CMDID_ENDFRAME :: u16 where "CMDID_ENDFRAME = 0x000C"
definition CMDID_FRAMEACKNOWLEDGE :: u16 where "CMDID_FRAMEACKNOWLEDGE = 0x000D"
definition CMDID_RESETGRAPHICS :: u16 where "CMDID_RESETGRAPHICS = 0x000E"
definition CMDID_MAPSURFACETOOUTPUT :: u16 where "CMDID_MAPSURFACETOOUTPUT = 0x000F"
definition CMDID_CAPSADVERTISE :: u16 where "CMDID_CAPSADVERTISE = 0x0012"
definition CMDID_CAPSCONFIRM :: u16 where "CMDID_CAPSCONFIRM = 0x0013"

lemmas cmdids =
  CMDID_WIRETOSURFACE_1_def CMDID_CREATESURFACE_def CMDID_DELETESURFACE_def CMDID_STARTFRAME_def
  CMDID_ENDFRAME_def CMDID_RESETGRAPHICS_def CMDID_MAPSURFACETOOUTPUT_def CMDID_CAPSCONFIRM_def

definition CODECID_UNCOMPRESSED :: u16 where "CODECID_UNCOMPRESSED = 0x0000"
definition CODECID_CAVIDEO_RFX :: u16 where "CODECID_CAVIDEO_RFX = 0x0003"
definition CODECID_ALPHA :: u16 where "CODECID_ALPHA = 0x000C"
definition CODECID_PLANAR :: u16 where "CODECID_PLANAR = 0x000A"
definition CODECID_AVC420 :: u16 where "CODECID_AVC420 = 0x000B"
definition CODECID_AVC444 :: u16 where "CODECID_AVC444 = 0x000E"

lemmas codecids = CODECID_UNCOMPRESSED_def CODECID_PLANAR_def CODECID_AVC420_def CODECID_AVC444_def

definition HEADER_LEN :: nat where "HEADER_LEN = 8"

record rect16 =
  left :: u16
  top :: u16
  right :: u16
  bottom :: u16

text \<open>\<open>saturating_sub\<close>.\<close>

definition rect_width :: "rect16 \<Rightarrow> u16" where
  "rect_width r = (if left r \<le> right r then right r - left r else 0)"

definition rect_height :: "rect16 \<Rightarrow> u16" where
  "rect_height r = (if top r \<le> bottom r then bottom r - top r else 0)"

datatype gfx_command =
    CreateSurface u16 u16 u16 u8 \<comment> \<open>id, width, height, pixel format\<close>
  | DeleteSurface u16
  | MapSurfaceToOutput u16 u32 u32
  | StartFrame u32
  | EndFrame u32
  | ResetGraphics u32 u32
  | WireToSurface1 u16 u16 u8 rect16 bytes \<comment> \<open>id, codec, pixel format, destination, data\<close>
  | CapsConfirm u32
  | OtherCommand u16

section \<open>Commands\<close>

definition parse_body :: "u16 \<Rightarrow> bytes \<Rightarrow> gfx_command result" where
  "parse_body cmd_id body =
     (if cmd_id = CMDID_CREATESURFACE then
        and_then (need_bytes 7 body) (\<lambda>_.
        and_then (get_u16_le body) (\<lambda>(surface_id, body).
        and_then (get_u16_le body) (\<lambda>(width, body).
        and_then (get_u16_le body) (\<lambda>(height, body).
        and_then (get_u8 body) (\<lambda>(pixel_format, body).
          Ok (CreateSurface surface_id width height pixel_format))))))
      else if cmd_id = CMDID_DELETESURFACE then
        and_then (need_bytes 2 body) (\<lambda>_.
        and_then (get_u16_le body) (\<lambda>(surface_id, body). Ok (DeleteSurface surface_id)))
      else if cmd_id = CMDID_MAPSURFACETOOUTPUT then
        and_then (need_bytes 12 body) (\<lambda>_.
        and_then (get_u16_le body) (\<lambda>(surface_id, body).
        and_then (get_u16_le body) (\<lambda>(reserved, body).
        and_then (get_u32_le body) (\<lambda>(x, body).
        and_then (get_u32_le body) (\<lambda>(y, body). Ok (MapSurfaceToOutput surface_id x y))))))
      else if cmd_id = CMDID_STARTFRAME then
        and_then (need_bytes 8 body) (\<lambda>_.
        and_then (get_u32_le body) (\<lambda>(timestamp, body).
        and_then (get_u32_le body) (\<lambda>(frame_id, body). Ok (StartFrame frame_id))))
      else if cmd_id = CMDID_ENDFRAME then
        and_then (need_bytes 4 body) (\<lambda>_.
        and_then (get_u32_le body) (\<lambda>(frame_id, body). Ok (EndFrame frame_id)))
      else if cmd_id = CMDID_RESETGRAPHICS then
        and_then (need_bytes 8 body) (\<lambda>_.
        and_then (get_u32_le body) (\<lambda>(width, body).
        and_then (get_u32_le body) (\<lambda>(height, body). Ok (ResetGraphics width height))))
      else if cmd_id = CMDID_WIRETOSURFACE_1 then
        and_then (need_bytes 17 body) (\<lambda>_.
        and_then (get_u16_le body) (\<lambda>(surface_id, body).
        and_then (get_u16_le body) (\<lambda>(codec_id, body).
        and_then (get_u8 body) (\<lambda>(pixel_format, body).
        and_then (get_u16_le body) (\<lambda>(l, body).
        and_then (get_u16_le body) (\<lambda>(t, body).
        and_then (get_u16_le body) (\<lambda>(r, body).
        and_then (get_u16_le body) (\<lambda>(b, body).
        and_then (get_u32_le body) (\<lambda>(data_len, body).
        and_then (need_bytes (unat data_len) body) (\<lambda>_.
        and_then (slice_to body (unat data_len)) (\<lambda>data.
          Ok (WireToSurface1 surface_id codec_id pixel_format
                \<lparr>left = l, top = t, right = r, bottom = b\<rparr> data))))))))))))
      else if cmd_id = CMDID_CAPSCONFIRM then
        and_then (need_bytes 4 body) (\<lambda>_.
        and_then (get_u32_le body) (\<lambda>(version, body). Ok (CapsConfirm version)))
      else Ok (OtherCommand cmd_id))"

definition parse_command :: "bytes \<Rightarrow> (gfx_command \<times> nat) result" where
  "parse_command buf =
     and_then (need_bytes HEADER_LEN buf) (\<lambda>_.
     and_then (get_u16_le buf) (\<lambda>(cmd_id, h).
     and_then (get_u16_le h) (\<lambda>(flags, h).
     and_then (get_u32_le h) (\<lambda>(pdu_length, h).
       if unat pdu_length < HEADER_LEN \<or> length buf < unat pdu_length
       then Err (Protocol ''bad RDPGFX pduLength'')
       else and_then (slice buf HEADER_LEN (unat pdu_length)) (\<lambda>body.
            and_then (parse_body cmd_id body) (\<lambda>cmd. Ok (cmd, unat pdu_length)))))))"

lemma parse_command_consumed:
  "parse_command buf = Ok (cmd, n) \<Longrightarrow> 8 \<le> n \<and> n \<le> length buf"
  by (auto simp: parse_command_def HEADER_LEN_def and_then_eq_Ok split: if_splits)

function parse_all :: "bytes \<Rightarrow> gfx_command list result" where
  "parse_all buf =
     (if buf = [] then Ok []
      else and_then (parse_command buf) (\<lambda>(cmd, consumed).
        and_then (slice_from buf consumed) (\<lambda>buf.
        and_then (parse_all buf) (\<lambda>cmds. Ok (cmd # cmds)))))"
  by pat_completeness auto
termination by (relation "measure length") (auto dest!: parse_command_consumed)

declare parse_all.simps [simp del]

definition frame_header :: "u16 \<Rightarrow> bytes \<Rightarrow> bytes" where
  "frame_header cmd_id body =
     put_u16_le cmd_id @ put_u16_le 0 @ put_u32_le (of_nat (HEADER_LEN + length body)) @ body"

definition caps_advertise :: "u32 list \<Rightarrow> bytes" where
  "caps_advertise versions =
     frame_header CMDID_CAPSADVERTISE
       (put_u16_le (of_nat (length versions)) @
        concat (map (\<lambda>v. put_u32_le v @ put_u32_le 0) versions))"

definition frame_acknowledge :: "u32 \<Rightarrow> u32 \<Rightarrow> bytes" where
  "frame_acknowledge frame_id total_frames_decoded =
     frame_header CMDID_FRAMEACKNOWLEDGE
       (put_u32_le 0 @ put_u32_le frame_id @ put_u32_le total_frames_decoded)"

section \<open>Surfaces\<close>

record surface_store =
  surfaces :: "u16 \<rightharpoonup> framebuffer"
  mapped :: "u16 \<rightharpoonup> u32 \<times> u32"

definition surface_store_new :: surface_store where
  "surface_store_new = \<lparr>surfaces = Map.empty, mapped = Map.empty\<rparr>"

definition bgrx_px :: "bytes \<Rightarrow> nat \<Rightarrow> bytes result" where
  "bgrx_px data i =
     and_then (index data (i * 4 + 2)) (\<lambda>r.
     and_then (index data (i * 4 + 1)) (\<lambda>g.
     and_then (index data (i * 4)) (\<lambda>b. Ok [r, g, b, 255])))"

definition decode_surface_bits :: "u16 \<Rightarrow> rect16 \<Rightarrow> bytes \<Rightarrow> bytes result" where
  "decode_surface_bits codec_id dest data =
     (let w = unat (rect_width dest); h = unat (rect_height dest)
      in if codec_id = CODECID_UNCOMPRESSED then
           and_then (need_bytes (w * h * 4) data) (\<lambda>_. traverse (bgrx_px data) [0..<w * h])
         else if codec_id = CODECID_PLANAR then planar_decode data w h
         else if codec_id = CODECID_AVC420 \<or> codec_id = CODECID_AVC444 then
           Err (Protocol ''EGFX H.264 codec requires an external decoder'')
         else Err (Protocol ''unsupported EGFX codec''))"

fun store_apply :: "bool \<Rightarrow> gfx_command \<Rightarrow> (surface_store, u16 option) io" where
  "store_apply da (CreateSurface surface_id width height pf) st =
     (Ok None, st\<lparr>surfaces := (surfaces st)(surface_id \<mapsto> framebuffer_new (unat width) (unat height))\<rparr>)"
| "store_apply da (DeleteSurface surface_id) st =
     (Ok None, st\<lparr>surfaces := (surfaces st)(surface_id := None), mapped := (mapped st)(surface_id := None)\<rparr>)"
| "store_apply da (MapSurfaceToOutput surface_id x y) st =
     (Ok None, st\<lparr>mapped := (mapped st)(surface_id \<mapsto> (x, y))\<rparr>)"
| "store_apply da (WireToSurface1 surface_id codec_id pf dest data) st =
     (case surfaces st surface_id of
        None \<Rightarrow> (Err (Protocol ''unknown surface''), st)
      | Some fb \<Rightarrow>
          (case decode_surface_bits codec_id dest data of
             Err e \<Rightarrow> (Err e, st)
           | Panic \<Rightarrow> (Panic, st)
           | Ok rgba \<Rightarrow>
               (case blit_rgba da (unat (left dest)) (unat (top dest))
                       (unat (rect_width dest)) (unat (rect_height dest)) rgba fb of
                  Ok fb \<Rightarrow> (Ok (Some surface_id), st\<lparr>surfaces := (surfaces st)(surface_id \<mapsto> fb)\<rparr>)
                | Err e \<Rightarrow> (Err e, st)
                | Panic \<Rightarrow> (Panic, st))))"
| "store_apply da _ st = (Ok None, st)"

definition surface :: "surface_store \<Rightarrow> u16 \<Rightarrow> framebuffer option" where
  "surface st surface_id = surfaces st surface_id"

definition mapping :: "surface_store \<Rightarrow> u16 \<Rightarrow> (u32 \<times> u32) option" where
  "mapping st surface_id = mapped st surface_id"

section \<open>The stream of commands\<close>

text \<open>The wire form of a command, framed as the crate frames its own.\<close>

definition command_body :: "gfx_command \<Rightarrow> u16 \<times> bytes" where
  "command_body cmd =
     (case cmd of
        CreateSurface i w h pf \<Rightarrow>
          (CMDID_CREATESURFACE, put_u16_le i @ put_u16_le w @ put_u16_le h @ put_u8 pf)
      | DeleteSurface i \<Rightarrow> (CMDID_DELETESURFACE, put_u16_le i)
      | MapSurfaceToOutput i x y \<Rightarrow>
          (CMDID_MAPSURFACETOOUTPUT, put_u16_le i @ put_u16_le 0 @ put_u32_le x @ put_u32_le y)
      | StartFrame f \<Rightarrow> (CMDID_STARTFRAME, put_u32_le 0 @ put_u32_le f)
      | EndFrame f \<Rightarrow> (CMDID_ENDFRAME, put_u32_le f)
      | ResetGraphics w h \<Rightarrow> (CMDID_RESETGRAPHICS, put_u32_le w @ put_u32_le h)
      | WireToSurface1 i c pf d data \<Rightarrow>
          (CMDID_WIRETOSURFACE_1,
           put_u16_le i @ put_u16_le c @ put_u8 pf @ put_u16_le (left d) @ put_u16_le (top d) @
           put_u16_le (right d) @ put_u16_le (bottom d) @ put_u32_le (of_nat (length data)) @ data)
      | CapsConfirm v \<Rightarrow> (CMDID_CAPSCONFIRM, put_u32_le v)
      | OtherCommand c \<Rightarrow> (c, []))"

definition command_encode :: "gfx_command \<Rightarrow> bytes" where
  "command_encode cmd = (case command_body cmd of (c, body) \<Rightarrow> frame_header c body)"

definition known_cmdid :: "u16 \<Rightarrow> bool" where
  "known_cmdid c \<longleftrightarrow> c \<in> {CMDID_CREATESURFACE, CMDID_DELETESURFACE, CMDID_MAPSURFACETOOUTPUT,
     CMDID_STARTFRAME, CMDID_ENDFRAME, CMDID_RESETGRAPHICS, CMDID_WIRETOSURFACE_1, CMDID_CAPSCONFIRM}"

fun command_ok :: "gfx_command \<Rightarrow> bool" where
  "command_ok (WireToSurface1 i c pf d data) \<longleftrightarrow> length data < 4294967296 - 25"
| "command_ok (OtherCommand c) \<longleftrightarrow> \<not> known_cmdid c"
| "command_ok _ \<longleftrightarrow> True"

definition take_command :: "bytes \<Rightarrow> (gfx_command \<times> bytes) result" where
  "take_command buf =
     and_then (parse_command buf) (\<lambda>(cmd, consumed).
     and_then (slice_from buf consumed) (\<lambda>rest. Ok (cmd, rest)))"

lemma parse_body_encode: "command_ok cmd \<Longrightarrow> parse_body (fst (command_body cmd)) (snd (command_body cmd)) = Ok cmd"
  by (cases cmd) (simp_all add: parse_body_def command_body_def cmdids need_bytes_def known_cmdid_def)

lemma command_body_length: "command_ok cmd \<Longrightarrow> length (snd (command_body cmd)) < 4294967288"
  by (cases cmd) (simp_all add: command_body_def)

lemma parse_frame:
  assumes "length body < 4294967288"
  shows "parse_command (frame_header c body @ r) =
    and_then (parse_body c body) (\<lambda>cmd. Ok (cmd, 8 + length body))"
proof -
  have "unat (of_nat (8 + length body) :: u32) = 8 + length body"
    using assms by (intro unat_of_nat_u32) simp
  then show ?thesis
    by (simp add: parse_command_def frame_header_def HEADER_LEN_def need_bytes_def put_u16_le_def put_u32_le_def
        del: of_nat_add)
qed

lemma take_command_encode:
  assumes "command_ok cmd"
  shows "take_command (command_encode cmd @ r) = Ok (cmd, r)"
proof -
  obtain c body where cb: "command_body cmd = (c, body)" by fastforce
  have "parse_command (frame_header c body @ r) = Ok (cmd, 8 + length body)"
    using parse_frame [of body c r] parse_body_encode [OF assms] command_body_length [OF assms] cb by simp
  moreover have "length (frame_header c body) = 8 + length body" by (simp add: frame_header_def)
  ultimately show ?thesis by (simp add: take_command_def command_encode_def cb)
qed

lemma command_encode_nonempty: "command_encode cmd \<noteq> []"
  by (cases "command_body cmd") (simp add: command_encode_def frame_header_def put_u16_le_def)

interpretation gfx: stream_codec command_encode take_command command_ok parse_all
proof unfold_locales
  show "parse_all [] = Ok []" by (simp add: parse_all.simps)
  show "parse_all b = and_then (take_command b) (\<lambda>(m, r). and_then (parse_all r) (\<lambda>ms. Ok (m # ms)))"
    if "b \<noteq> []" for b
    using that by (subst parse_all.simps) (auto simp: take_command_def and_then_assoc intro!: and_then_cong)
  show "length r < length b" if "take_command b = Ok (m, r)" for b m r
    using that by (auto simp: take_command_def and_then_eq_Ok dest!: parse_command_consumed)
  show "take_command (command_encode m @ r) = Ok (m, r)" if "command_ok m" for m r
    by (rule take_command_encode [OF that])
  show "command_encode m \<noteq> []" for m by (rule command_encode_nonempty)
qed

lemma parse_body_no_panic: "parse_body c body \<noteq> Panic"
  unfolding parse_body_def
  by (intro panic_free) (simp_all, (auto dest!: get_lens)+)

lemma parse_command_no_panic: "parse_command buf \<noteq> Panic"
  by (auto simp: parse_command_def HEADER_LEN_def parse_body_no_panic dest!: get_lens)

lemma take_command_no_panic: "take_command buf \<noteq> Panic"
  by (auto simp: take_command_def parse_command_no_panic dest!: parse_command_consumed)

lemma parse_all_no_panic [no_panic]: "parse_all buf \<noteq> Panic"
  by (rule gfx.loop_no_panic [OF take_command_no_panic])

text \<open>What the client sends parses as what it is.\<close>

lemma caps_advertise_parses:
  assumes "length versions < 65536"
  shows "parse_command (caps_advertise versions) =
    Ok (OtherCommand CMDID_CAPSADVERTISE, length (caps_advertise versions))"
proof -
  have "length (concat (map (\<lambda>v. put_u32_le v @ put_u32_le 0) versions)) = 8 * length versions"
    by (induction versions) simp_all
  then show ?thesis
    using assms parse_frame [of "put_u16_le (of_nat (length versions)) @
        concat (map (\<lambda>v. put_u32_le v @ put_u32_le 0) versions)" CMDID_CAPSADVERTISE "[]"]
    by (simp add: caps_advertise_def parse_body_def CMDID_CAPSADVERTISE_def cmdids)
      (simp add: frame_header_def)
qed

section \<open>The surface store\<close>

definition store_ok :: "surface_store \<Rightarrow> bool" where
  "store_ok st \<longleftrightarrow> (\<forall>fb \<in> ran (surfaces st). fb_ok fb)"

lemma store_ok_new: "store_ok surface_store_new"
  by (simp add: store_ok_def surface_store_new_def)

lemma store_ok_update: "store_ok st \<Longrightarrow> fb_ok fb \<Longrightarrow> store_ok (st\<lparr>surfaces := (surfaces st)(i \<mapsto> fb)\<rparr>)"
  by (auto simp: store_ok_def ran_def)

lemma store_ok_remove: "store_ok st \<Longrightarrow> store_ok (st\<lparr>surfaces := (surfaces st)(i := None), mapped := m\<rparr>)"
  by (auto simp: store_ok_def ran_def)

lemma bgrx_traverse:
  assumes "n * 4 \<le> length data"
  shows "traverse (bgrx_px data) [0..<n] =
    Ok (concat (map (\<lambda>i. [data ! (i * 4 + 2), data ! (i * 4 + 1), data ! (i * 4), 255]) [0..<n]))"
  using assms by (intro traverse_Ok) (simp add: bgrx_px_def)

lemma decode_surface_bits_length:
  assumes "decode_surface_bits codec dest data = Ok rgba"
  shows "length rgba = unat (rect_width dest) * unat (rect_height dest) * 4"
proof (cases "codec = CODECID_UNCOMPRESSED")
  case True
  let ?n = "unat (rect_width dest) * unat (rect_height dest)"
  have "?n * 4 \<le> length data"
    using assms True by (auto simp: decode_surface_bits_def Let_def and_then_eq_Ok)
  from bgrx_traverse [OF this] show ?thesis
    using assms True \<open>?n * 4 \<le> length data\<close>
    by (auto simp: decode_surface_bits_def Let_def length_concat comp_def sum_list_triv)
qed (use assms planar_decode_length in \<open>auto simp: decode_surface_bits_def Let_def split: if_splits\<close>)

text \<open>A wire-to-surface command whose bits decode paints its surface; it never aborts the
  session unless it is planar with no rows.\<close>

lemma wire_blit:
  assumes "store_ok st" and "surfaces st i = Some fb" and "decode_surface_bits codec dest data = Ok rgba"
  shows "\<exists>pixels. store_apply da (WireToSurface1 i codec pf dest data) st =
      (Ok (Some i), st\<lparr>surfaces := (surfaces st)(i \<mapsto> fb\<lparr>fb_pixels := pixels\<rparr>)\<rparr>) \<and>
    length pixels = length (fb_pixels fb) \<and>
    (\<forall>j < length pixels. pixels ! j =
       (if in_rows fb (unat (left dest)) (unat (top dest)) (unat (rect_width dest)) 0 (unat (rect_height dest)) j
        then rgba ! src_index (fb_width fb) (unat (left dest)) (unat (top dest)) (unat (rect_width dest)) j
        else fb_pixels fb ! j))"
proof -
  have "fb_ok fb" using assms(1,2) by (auto simp: store_ok_def ran_def)
  from blit_rgba_spec [OF this, of "unat (rect_width dest)" "unat (rect_height dest)" rgba da
      "unat (left dest)" "unat (top dest)"]
  show ?thesis using decode_surface_bits_length [OF assms(3)] assms(2,3) by fastforce
qed

lemma store_apply_wire_ok:
  assumes "store_ok st" and "store_apply da (WireToSurface1 i codec pf dest data) st = (r, st')"
  shows "store_ok st'"
proof (cases "surfaces st i")
  case (Some fb)
  have fb: "fb_ok fb" using assms(1) Some by (auto simp: store_ok_def ran_def)
  show ?thesis
  proof (cases "decode_surface_bits codec dest data")
    case (Ok rgba)
    from wire_blit [OF assms(1) Some Ok, of da pf] obtain pixels where
      "st' = st\<lparr>surfaces := (surfaces st)(i \<mapsto> fb\<lparr>fb_pixels := pixels\<rparr>)\<rparr>"
      "length pixels = length (fb_pixels fb)" using assms(2) by auto
    then show ?thesis using fb assms(1) by (simp add: store_ok_update fb_ok_def)
  qed (use assms Some in auto)
qed (use assms in auto)

lemma store_apply_ok: "store_ok st \<Longrightarrow> store_apply da cmd st = (r, st') \<Longrightarrow> store_ok st'"
proof (cases cmd)
  case (WireToSurface1 i c pf d data)
  then show "store_ok st \<Longrightarrow> store_apply da cmd st = (r, st') \<Longrightarrow> store_ok st'"
    using store_apply_wire_ok by simp
qed (auto simp: store_ok_update store_ok_remove, simp add: store_ok_def)

lemma decode_surface_bits_no_panic:
  assumes "codec = CODECID_PLANAR \<Longrightarrow> rect_height dest \<noteq> 0"
  shows "decode_surface_bits codec dest data \<noteq> Panic"
proof -
  have "0 < unat (rect_height dest)" if "codec = CODECID_PLANAR" using assms that by (simp add: unat_gt_0)
  then show ?thesis
    using planar_decode_safe bgrx_traverse
    by (auto simp: decode_surface_bits_def Let_def need_bytes_def)
qed

lemma store_apply_no_panic:
  assumes "store_ok st" and "\<And>i pf dest data. cmd = WireToSurface1 i CODECID_PLANAR pf dest data \<Longrightarrow> rect_height dest \<noteq> 0"
  shows "fst (store_apply da cmd st) \<noteq> Panic"
proof (cases cmd)
  case (WireToSurface1 i c pf d data)
  have "decode_surface_bits c d data \<noteq> Panic"
    using assms(2) WireToSurface1 by (intro decode_surface_bits_no_panic) blast
  then show ?thesis
    using WireToSurface1 wire_blit [OF assms(1), of i _ c d data _ da pf]
    by (cases "surfaces st i"; cases "decode_surface_bits c d data") fastforce+
qed simp_all

text \<open>A failed command leaves the store as it was.\<close>

lemma store_apply_Err: "store_apply da cmd st = (Err e, st') \<Longrightarrow> st' = st"
  by (cases cmd) (auto split: option.splits result.splits)

end
