(* ===== verification/Dvc.thy ===== *)
theory Dvc
  imports Rust_String
begin

text \<open>
  The dynamic virtual channel PDUs (\<open>src/dvc.rs\<close>). Channel ids and lengths have one, two or
  four bytes, chosen by a two-bit field of the header.
\<close>

definition CMD_CREATE :: u8 where "CMD_CREATE = 0x01"
definition CMD_DATA_FIRST :: u8 where "CMD_DATA_FIRST = 0x02"
definition CMD_DATA :: u8 where "CMD_DATA = 0x03"
definition CMD_CLOSE :: u8 where "CMD_CLOSE = 0x04"
definition CMD_CAPABILITY :: u8 where "CMD_CAPABILITY = 0x05"

lemmas dvc_cmds = CMD_CREATE_def CMD_DATA_FIRST_def CMD_DATA_def CMD_CLOSE_def CMD_CAPABILITY_def

datatype dvc_pdu =
    Capabilities u16
  | Create u32 rstring
  | Data u32 bytes
  | DataFirst u32 u32 bytes
  | Close u32
  | OtherPdu u8

definition header_byte :: "u8 \<Rightarrow> u8 \<Rightarrow> u8 \<Rightarrow> u8" where
  "header_byte cmd sp cb_chid = push_bit 4 cmd OR push_bit 2 (sp AND 0x03) OR (cb_chid AND 0x03)"

definition write_channel_id :: "u32 \<Rightarrow> u8 \<Rightarrow> bytes" where
  "write_channel_id channel_id cb_chid =
     (if cb_chid = 0 then put_u8 (ucast channel_id)
      else if cb_chid = 1 then put_u16_le (ucast channel_id)
      else put_u32_le channel_id)"

definition cb_chid_for :: "u32 \<Rightarrow> u8" where
  "cb_chid_for channel_id = (if channel_id \<le> 0xFF then 0 else if channel_id \<le> 0xFFFF then 1 else 2)"

definition read_channel_id :: "bytes \<Rightarrow> u8 \<Rightarrow> (u32 \<times> bytes) result" where
  "read_channel_id buf cb_chid =
     (let n = (if cb_chid = 0 then 1 else if cb_chid = 1 then 2 else 4)
      in and_then (need_bytes n buf) (\<lambda>_.
           if cb_chid = 0 then and_then (get_u8 buf) (\<lambda>(v, buf). Ok (ucast v, buf))
           else if cb_chid = 1 then and_then (get_u16_le buf) (\<lambda>(v, buf). Ok (ucast v, buf))
           else get_u32_le buf))"

text \<open>\<open>position(|&b| b == 0).unwrap_or(len)\<close>.\<close>

fun find_nul :: "bytes \<Rightarrow> nat" where
  "find_nul [] = 0"
| "find_nul (b # bs) = (if b = 0 then 0 else Suc (find_nul bs))"

definition dvc_parse :: "bytes \<Rightarrow> dvc_pdu result" where
  "dvc_parse pdu =
     (if pdu = [] then Err (Short 1 0)
      else and_then (get_u8 pdu) (\<lambda>(header, buf).
        let cmd = drop_bit 4 header; sp = drop_bit 2 header AND 0x03; cb_chid = header AND 0x03
        in if cmd = CMD_CAPABILITY then
             and_then (need_bytes 3 buf) (\<lambda>_.
             and_then (get_u8 buf) (\<lambda>(pad, buf).
             and_then (get_u16_le buf) (\<lambda>(version, buf). Ok (Capabilities version))))
           else if cmd = CMD_CREATE then
             and_then (read_channel_id buf cb_chid) (\<lambda>(channel_id, buf).
             and_then (slice_to buf (find_nul buf)) (\<lambda>name.
               Ok (Create channel_id (from_utf8_lossy name))))
           else if cmd = CMD_DATA then
             and_then (read_channel_id buf cb_chid) (\<lambda>(channel_id, buf). Ok (Data channel_id buf))
           else if cmd = CMD_DATA_FIRST then
             and_then (read_channel_id buf cb_chid) (\<lambda>(channel_id, buf).
             and_then (read_channel_id buf sp) (\<lambda>(total_length, buf).
               Ok (DataFirst channel_id total_length buf)))
           else if cmd = CMD_CLOSE then
             and_then (read_channel_id buf cb_chid) (\<lambda>(channel_id, buf). Ok (Close channel_id))
           else Ok (OtherPdu cmd)))"

definition capabilities_response :: "u16 \<Rightarrow> bytes" where
  "capabilities_response version = put_u8 (header_byte CMD_CAPABILITY 0 0) @ put_u8 0 @ put_u16_le version"

text \<open>The \<open>i32\<close> status is written as its 32 bits.\<close>

definition create_response :: "u32 \<Rightarrow> u32 \<Rightarrow> bytes" where
  "create_response channel_id status =
     (let cb = cb_chid_for channel_id
      in put_u8 (header_byte CMD_CREATE 0 cb) @ write_channel_id channel_id cb @ put_u32_le status)"

definition dvc_data :: "u32 \<Rightarrow> bytes \<Rightarrow> bytes" where
  "dvc_data channel_id payload =
     (let cb = cb_chid_for channel_id
      in put_u8 (header_byte CMD_DATA 0 cb) @ write_channel_id channel_id cb @ payload)"

section \<open>Identifiers and lengths\<close>

text \<open>The values a width can hold, and the values \<open>cb_chid_for\<close> chooses it for.\<close>

definition fits_width :: "u32 \<Rightarrow> u8 \<Rightarrow> bool" where
  "fits_width w cb \<longleftrightarrow> (cb = 0 \<longrightarrow> unat w < 256) \<and> (cb = 1 \<longrightarrow> unat w < 65536)"

lemma fits_cb_chid_for: "fits_width w (cb_chid_for w)"
  by (auto simp: fits_width_def cb_chid_for_def word_le_nat_alt)

lemma ucast_small:
  fixes w :: u32
  shows "unat w < 256 \<Longrightarrow> (ucast (ucast w :: u8) :: u32) = w"
    and "unat w < 65536 \<Longrightarrow> (ucast (ucast w :: u16) :: u32) = w"
  by (simp_all add: word_unat_eq_iff unsigned_ucast_eq take_bit_eq_mod unat_mod)

lemma read_write_channel_id [simp, parse_simps]:
  "fits_width w cb \<Longrightarrow> read_channel_id (write_channel_id w cb @ r) cb = Ok (w, r)"
  by (simp add: read_channel_id_def write_channel_id_def fits_width_def ucast_small Let_def need_bytes_def)

lemma read_channel_id_no_panic [simp]: "read_channel_id buf cb \<noteq> Panic"
  by (auto simp: read_channel_id_def Let_def dest!: get_lens)

lemma find_nul_bound: "find_nul bs \<le> length bs"
  by (induction bs) auto

lemma find_nul_split: "0 \<notin> set bs \<Longrightarrow> find_nul (bs @ 0 # r) = length bs"
  by (induction bs) auto

lemma find_nul_none: "0 \<notin> set bs \<Longrightarrow> find_nul bs = length bs"
  by (induction bs) auto

lemma header_byte_fields:
  assumes "cmd < 16" and "sp < 4" and "cb < 4"
  shows "drop_bit 4 (header_byte cmd sp cb) = cmd" and "drop_bit 2 (header_byte cmd sp cb) AND 0x03 = sp"
    and "header_byte cmd sp cb AND 0x03 = cb"
proof -
  let ?P = "\<lambda>c s b. drop_bit 4 (header_byte c s b) = c \<and> drop_bit 2 (header_byte c s b) AND 0x03 = s \<and>
      header_byte c s b AND 0x03 = b"
  have all: "list_all (\<lambda>i. list_all (\<lambda>j. list_all (\<lambda>k. ?P (of_nat i) (of_nat j) (of_nat k))
      [0..<4]) [0..<4]) [0..<16]" by code_simp
  have "unat cmd \<in> set [0..<16]" "unat sp \<in> set [0..<4]" "unat cb \<in> set [0..<4]"
    using assms by (simp_all add: word_less_nat_alt)
  with all have "?P (of_nat (unat cmd)) (of_nat (unat sp)) (of_nat (unat cb))"
    unfolding list_all_iff by blast
  moreover have "of_nat (unat cmd) = cmd" "of_nat (unat sp) = sp" "of_nat (unat cb) = cb" by simp_all
  ultimately have "?P cmd sp cb" by (simp only:)
  then show "drop_bit 4 (header_byte cmd sp cb) = cmd" and "drop_bit 2 (header_byte cmd sp cb) AND 0x03 = sp"
    and "header_byte cmd sp cb AND 0x03 = cb" by blast+
qed

section \<open>Round trips\<close>

text \<open>The PDUs as a server sends them: \<open>cb\<close> and \<open>sp\<close> are the widths it picks.\<close>

fun dvc_encode :: "u8 \<Rightarrow> u8 \<Rightarrow> dvc_pdu \<Rightarrow> bytes" where
  "dvc_encode cb sp (Capabilities v) = header_byte CMD_CAPABILITY sp cb # 0 # put_u16_le v"
| "dvc_encode cb sp (Create i name) =
     header_byte CMD_CREATE sp cb # write_channel_id i cb @ into_bytes name @ [0]"
| "dvc_encode cb sp (Data i data) = header_byte CMD_DATA sp cb # write_channel_id i cb @ data"
| "dvc_encode cb sp (DataFirst i n data) =
     header_byte CMD_DATA_FIRST sp cb # write_channel_id i cb @ write_channel_id n sp @ data"
| "dvc_encode cb sp (Close i) = header_byte CMD_CLOSE sp cb # write_channel_id i cb"
| "dvc_encode cb sp (OtherPdu c) = [header_byte c sp cb]"

fun dvc_ok :: "u8 \<Rightarrow> u8 \<Rightarrow> dvc_pdu \<Rightarrow> bool" where
  "dvc_ok cb sp (Capabilities v) \<longleftrightarrow> True"
| "dvc_ok cb sp (Create i name) \<longleftrightarrow> fits_width i cb \<and> list_all scalar name \<and> 0 \<notin> set (into_bytes name)"
| "dvc_ok cb sp (Data i data) \<longleftrightarrow> fits_width i cb"
| "dvc_ok cb sp (DataFirst i n data) \<longleftrightarrow> fits_width i cb \<and> fits_width n sp"
| "dvc_ok cb sp (Close i) \<longleftrightarrow> fits_width i cb"
| "dvc_ok cb sp (OtherPdu c) \<longleftrightarrow>
     c < 16 \<and> c \<notin> {CMD_CREATE, CMD_DATA_FIRST, CMD_DATA, CMD_CLOSE, CMD_CAPABILITY}"

lemma read_write_channel_id_nil:
  "fits_width w cb \<Longrightarrow> read_channel_id (write_channel_id w cb) cb = Ok (w, [])"
  using read_write_channel_id [of w cb "[]"] by simp

lemma dvc_parse_header:
  assumes "cmd < 16" and "sp < 4" and "cb < 4"
  shows "dvc_parse (header_byte cmd sp cb # buf) =
    (if cmd = CMD_CAPABILITY then
       and_then (need_bytes 3 buf) (\<lambda>_.
       and_then (get_u8 buf) (\<lambda>(pad, buf).
       and_then (get_u16_le buf) (\<lambda>(version, buf). Ok (Capabilities version))))
     else if cmd = CMD_CREATE then
       and_then (read_channel_id buf cb) (\<lambda>(channel_id, buf).
       and_then (slice_to buf (find_nul buf)) (\<lambda>name.
         Ok (Create channel_id (from_utf8_lossy name))))
     else if cmd = CMD_DATA then
       and_then (read_channel_id buf cb) (\<lambda>(channel_id, buf). Ok (Data channel_id buf))
     else if cmd = CMD_DATA_FIRST then
       and_then (read_channel_id buf cb) (\<lambda>(channel_id, buf).
       and_then (read_channel_id buf sp) (\<lambda>(total_length, buf).
         Ok (DataFirst channel_id total_length buf)))
     else if cmd = CMD_CLOSE then
       and_then (read_channel_id buf cb) (\<lambda>(channel_id, buf). Ok (Close channel_id))
     else Ok (OtherPdu cmd))"
  by (simp only: dvc_parse_def Let_def list.distinct if_False get_u8.simps and_then.simps prod.case
      header_byte_fields [OF assms])

lemma dvc_roundtrip:
  assumes "dvc_ok cb sp p" and "cb < 4" and "sp < 4"
  shows "dvc_parse (dvc_encode cb sp p) = Ok p"
  using assms
  by (cases p)
    (simp_all add: dvc_parse_header read_write_channel_id_nil dvc_cmds find_nul_split from_utf8_lossy_into_bytes
      need_bytes_def)

lemma cb_chid_for_bound: "cb_chid_for i < 4"
  by (simp add: cb_chid_for_def)

lemma dvc_data_parses: "dvc_parse (dvc_data i payload) = Ok (Data i payload)"
  using dvc_roundtrip [of "cb_chid_for i" 0 "Data i payload"] fits_cb_chid_for [of i] cb_chid_for_bound [of i]
  by (simp add: dvc_data_def Let_def put_u8_def)

lemma capabilities_response_parses: "dvc_parse (capabilities_response v) = Ok (Capabilities v)"
  using dvc_roundtrip [of 0 0 "Capabilities v"] by (simp add: capabilities_response_def put_u8_def)

lemma create_response_reads:
  "\<exists>h. create_response i status = h # write_channel_id i (h AND 0x03) @ put_u32_le status \<and>
     drop_bit 4 h = CMD_CREATE \<and> fits_width i (h AND 0x03)"
  using header_byte_fields [of CMD_CREATE 0 "cb_chid_for i"] fits_cb_chid_for [of i] cb_chid_for_bound [of i]
  by (simp add: create_response_def Let_def put_u8_def CMD_CREATE_def)

lemma dvc_parse_no_panic [no_panic]: "dvc_parse pdu \<noteq> Panic"
  by (cases pdu) (auto simp: dvc_parse_def Let_def find_nul_bound not_less dest!: get_lens)

end
