(* ===== verification/Vchannel.thy ===== *)
theory Vchannel
  imports Prelude
begin

text \<open>
  Static virtual channel framing (\<open>src/vchannel.rs\<close>): a message is cut into chunks of at most
  1600 bytes, and a reassembler puts the chunks together again. The reassembler is also
  described as a step relation over its two modes.
\<close>

definition CHANNEL_CHUNK_LENGTH :: nat where "CHANNEL_CHUNK_LENGTH = 1600"
definition CHANNEL_FLAG_FIRST :: u32 where "CHANNEL_FLAG_FIRST = 0x00000001"
definition CHANNEL_FLAG_SHOW_PROTOCOL :: u32 where "CHANNEL_FLAG_SHOW_PROTOCOL = 0x00000010"
definition CHANNEL_FLAG_LAST :: u32 where "CHANNEL_FLAG_LAST = 0x00000002"

section \<open>Chunking\<close>

definition vc_wrap :: "bytes \<Rightarrow> bytes" where
  "vc_wrap data =
     put_u32_le (of_nat (length data)) @ put_u32_le (CHANNEL_FLAG_FIRST OR CHANNEL_FLAG_LAST) @ data"

text \<open>\<open>while offset < data.len()\<close>; the chunk length is positive, so the offset grows.\<close>

function chunk_loop :: "bytes \<Rightarrow> nat \<Rightarrow> bytes list" where
  "chunk_loop data offset =
     (if offset < length data then
        (let stop = min (offset + CHANNEL_CHUNK_LENGTH) (length data);
             flags = (if offset = 0 then CHANNEL_FLAG_FIRST else 0);
             flags = (if stop = length data then flags OR CHANNEL_FLAG_LAST else flags)
         in (put_u32_le (of_nat (length data)) @ put_u32_le flags @ take (stop - offset) (drop offset data))
            # chunk_loop data stop)
      else [])"
  by pat_completeness auto
termination
  by (relation "measure (\<lambda>(data, offset). length data - offset)") (auto simp: CHANNEL_CHUNK_LENGTH_def)

declare chunk_loop.simps [simp del]

definition chunk :: "bytes \<Rightarrow> bytes list" where
  "chunk data =
     (if length data \<le> CHANNEL_CHUNK_LENGTH then [vc_wrap data] else chunk_loop data 0)"

section \<open>Reassembly\<close>

record reassembler =
  buffer :: bytes
  expected :: nat
  in_progress :: bool

definition reassembler_new :: reassembler where
  "reassembler_new = \<lparr>buffer = [], expected = 0, in_progress = False\<rparr>"

definition push :: "bytes \<Rightarrow> (reassembler, bytes option) io" where
  "push pdu =
     io_bind (io_lift (need_bytes 8 pdu)) (\<lambda>_.
     io_bind (io_lift (get_u32_le pdu)) (\<lambda>(total, b).
     io_bind (io_lift (get_u32_le b)) (\<lambda>(flags, data). \<lambda>r.
       let r = (if flags AND CHANNEL_FLAG_FIRST \<noteq> 0
                then \<lparr>buffer = [], expected = unat total, in_progress = True\<rparr> else r)
       in if \<not> in_progress r then (Err (Protocol ''virtual channel chunk without FIRST''), r)
          else let r = r\<lparr>buffer := buffer r @ data\<rparr>
               in if flags AND CHANNEL_FLAG_LAST \<noteq> 0
                  then (Ok (Some (buffer r)), r\<lparr>in_progress := False, buffer := []\<rparr>)
                  else (Ok None, r))))"

text \<open>Pushing a sequence of PDUs; the messages that complete.\<close>

fun push_all :: "bytes list \<Rightarrow> (reassembler, bytes list) io" where
  "push_all [] = io_ok []"
| "push_all (pdu # pdus) =
     io_bind (push pdu) (\<lambda>m. io_bind (push_all pdus) (\<lambda>ms.
       io_ok (case m of None \<Rightarrow> ms | Some x \<Rightarrow> x # ms)))"

section \<open>One chunk\<close>

definition chunk_pdu :: "u32 \<Rightarrow> bool \<Rightarrow> bool \<Rightarrow> bytes \<Rightarrow> bytes" where
  "chunk_pdu tot is_first is_final data =
     put_u32_le tot @
     put_u32_le ((if is_first then CHANNEL_FLAG_FIRST else 0) OR (if is_final then CHANNEL_FLAG_LAST else 0)) @
     data"

lemma flag_bits:
  "(((if a then CHANNEL_FLAG_FIRST else 0) OR (if b then CHANNEL_FLAG_LAST else 0)) AND CHANNEL_FLAG_FIRST \<noteq> 0) = a"
  "(((if a then CHANNEL_FLAG_FIRST else 0) OR (if b then CHANNEL_FLAG_LAST else 0)) AND CHANNEL_FLAG_LAST \<noteq> 0) = b"
  by (simp_all add: CHANNEL_FLAG_FIRST_def CHANNEL_FLAG_LAST_def)

lemma push_chunk_pdu:
  "push (chunk_pdu tot a b data) r =
     (let r = (if a then \<lparr>buffer = [], expected = unat tot, in_progress = True\<rparr> else r)
      in if \<not> in_progress r then (Err (Protocol ''virtual channel chunk without FIRST''), r)
         else let r = r\<lparr>buffer := buffer r @ data\<rparr>
              in if b then (Ok (Some (buffer r)), r\<lparr>in_progress := False, buffer := []\<rparr>) else (Ok None, r))"
proof -
  define fl where
    "fl = (if a then CHANNEL_FLAG_FIRST else 0) OR (if b then CHANNEL_FLAG_LAST else (0 :: u32))"
  have "(fl AND CHANNEL_FLAG_FIRST \<noteq> 0) = a" "(fl AND CHANNEL_FLAG_LAST \<noteq> 0) = b"
    unfolding fl_def by (rule flag_bits)+
  then show ?thesis
    unfolding chunk_pdu_def fl_def [symmetric]
    by (simp add: push_def need_bytes_def Let_def io_lift_def io_bind_def)
qed

lemma vc_wrap_chunk: "vc_wrap data = chunk_pdu (of_nat (length data)) True True data"
  by (simp add: vc_wrap_def chunk_pdu_def)

lemma chunk_loop_step:
  assumes "offset < length data"
  shows "chunk_loop data offset =
    (let stop = min (offset + CHANNEL_CHUNK_LENGTH) (length data)
     in chunk_pdu (of_nat (length data)) (offset = 0) (stop = length data) (take (stop - offset) (drop offset data))
        # chunk_loop data stop)"
  using assms by (subst chunk_loop.simps) (simp add: chunk_pdu_def Let_def)

lemma chunk_loop_end: "chunk_loop data (length data) = []"
  by (simp add: chunk_loop.simps)

section \<open>Chunks and messages\<close>

lemma push_all_none:
  "push p r = (Ok None, s) \<Longrightarrow> push_all ps s = (Ok ms, t) \<Longrightarrow> push_all (p # ps) r = (Ok ms, t)"
  by (simp add: io_ok_def)

text \<open>From any offset of a message in progress, the remaining chunks complete it.\<close>

lemma push_chunk_loop:
  assumes "offset < length data"
    and "offset = 0 \<or> in_progress r \<and> buffer r = take offset data"
  shows "\<exists>n. push_all (chunk_loop data offset) r =
    (Ok [data], \<lparr>buffer = [], expected = n, in_progress = False\<rparr>)"
  using assms
proof (induction data offset arbitrary: r rule: chunk_loop.induct)
  case (1 data offset)
  let ?stop = "min (offset + CHANNEL_CHUNK_LENGTH) (length data)"
  let ?r = "if offset = 0 then \<lparr>buffer = [], expected = unat (of_nat (length data) :: u32), in_progress = True\<rparr> else r"
  have inp: "in_progress ?r" and buf: "buffer ?r = take offset data" using 1(3) by auto
  have le: "offset \<le> ?stop" "?stop \<le> length data" using 1(2) by auto
  then have app: "take offset data @ take (?stop - offset) (drop offset data) = take ?stop data"
    by (metis le_add_diff_inverse take_add)
  let ?r' = "?r\<lparr>buffer := take ?stop data\<rparr>"
  have gen: "push (chunk_pdu (of_nat (length data)) (offset = 0) f d) r =
      (if f then (Ok (Some (take offset data @ d)), ?r\<lparr>in_progress := False, buffer := []\<rparr>)
       else (Ok None, ?r\<lparr>buffer := take offset data @ d\<rparr>))" for f d
    unfolding push_chunk_pdu Let_def using inp buf by simp
  have push: "push (chunk_pdu (of_nat (length data)) (offset = 0) (?stop = length data)
        (take (?stop - offset) (drop offset data))) r =
      (if ?stop = length data then (Ok (Some (take ?stop data)), ?r\<lparr>in_progress := False, buffer := []\<rparr>)
       else (Ok None, ?r'))"
    using gen [of "?stop = length data" "take (?stop - offset) (drop offset data)"] unfolding app .
  note step = chunk_loop_step [OF 1(2), unfolded Let_def]
  show ?case
  proof (cases "?stop = length data")
    case True
    have eq: "?r\<lparr>in_progress := False, buffer := []\<rparr> = \<lparr>buffer = [], expected = expected ?r, in_progress = False\<rparr>"
      by (rule reassembler.equality) simp_all
    show ?thesis
      using push [unfolded eq] True by (intro exI [of _ "expected ?r"]) (simp add: step chunk_loop_end io_ok_def)
  next
    case False
    then have lt: "?stop < length data" using le by linarith
    have "in_progress ?r' \<and> buffer ?r' = take ?stop data" using inp by simp
    then obtain n where n: "push_all (chunk_loop data ?stop) ?r' =
        (Ok [data], \<lparr>buffer = [], expected = n, in_progress = False\<rparr>)"
      using 1(1) [OF 1(2) refl refl refl lt, of ?r'] by blast
    have none: "push (chunk_pdu (of_nat (length data)) (offset = 0) (?stop = length data)
        (take (?stop - offset) (drop offset data))) r = (Ok None, ?r')"
      using push unfolding if_not_P [OF False] .
    show ?thesis
      unfolding step using push_all_none [OF none n] by blast
  qed
qed

lemma push_chunk:
  "\<exists>n. push_all (chunk data) r = (Ok [data], \<lparr>buffer = [], expected = n, in_progress = False\<rparr>)"
proof (cases "length data \<le> CHANNEL_CHUNK_LENGTH")
  case True
  then show ?thesis by (simp add: chunk_def vc_wrap_chunk push_chunk_pdu Let_def io_ok_def)
next
  case False
  then have "0 < length data" unfolding CHANNEL_CHUNK_LENGTH_def by linarith
  from push_chunk_loop [OF this, of r] False show ?thesis by (simp add: chunk_def)
qed

lemma push_all_append:
  "push_all xs r = (Ok ms, r') \<Longrightarrow> push_all (xs @ ys) r = io_bind (push_all ys) (\<lambda>ms'. io_ok (ms @ ms')) r'"
proof (induction xs arbitrary: r ms)
  case Nil
  then show ?case by (simp add: io_ok_def io_bind_def split: prod.splits result.splits)
next
  case (Cons x xs)
  from Cons.prems obtain m r1 ms1 where p: "push x r = (Ok m, r1)" "push_all xs r1 = (Ok ms1, r')"
    and ms: "ms = (case m of None \<Rightarrow> ms1 | Some x \<Rightarrow> x # ms1)"
    by (auto simp: io_bind_eq_Ok io_ok_def)
  from Cons.IH [OF p(2)] show ?case
    using p(1) ms
    by (cases "push_all ys r'"; cases "fst (push_all ys r')") (auto simp: io_bind_def io_ok_def split: option.splits)
qed

lemma push_chunks:
  "\<exists>r'. push_all (concat (map chunk msgs)) r = (Ok msgs, r')"
proof (induction msgs arbitrary: r)
  case (Cons m msgs)
  obtain n where n: "push_all (chunk m) r = (Ok [m], \<lparr>buffer = [], expected = n, in_progress = False\<rparr>)"
    using push_chunk by blast
  obtain r' where "push_all (concat (map chunk msgs)) \<lparr>buffer = [], expected = n, in_progress = False\<rparr> = (Ok msgs, r')"
    using Cons.IH by blast
  then show ?case using push_all_append [OF n] by (simp add: io_ok_def)
qed (simp add: io_ok_def)

text \<open>Every chunk fits, and is eight bytes of header and at most 1600 of data.\<close>

lemma chunk_loop_sizes: "list_all (\<lambda>c. length c \<le> 8 + CHANNEL_CHUNK_LENGTH) (chunk_loop data offset)"
proof (induction data offset rule: chunk_loop.induct)
  case (1 data offset)
  show ?case
  proof (cases "offset < length data")
    case True
    have "min (offset + CHANNEL_CHUNK_LENGTH) (length data) - offset \<le> CHANNEL_CHUNK_LENGTH" by linarith
    then show ?thesis
      using 1 [OF True refl refl refl] True
      by (simp add: chunk_loop_step [OF True] Let_def chunk_pdu_def)
  qed (simp add: chunk_loop.simps)
qed

lemma chunk_sizes: "list_all (\<lambda>c. length c \<le> 8 + CHANNEL_CHUNK_LENGTH) (chunk data)"
  by (simp add: chunk_def vc_wrap_def chunk_loop_sizes)

section \<open>The reassembler as a step relation\<close>

datatype mode = Idle | Collecting bytes

definition mode_of :: "reassembler \<Rightarrow> mode" where
  "mode_of r = (if in_progress r then Collecting (buffer r) else Idle)"

text \<open>\<open>vc_step m (is_first, is_final, data) out m'\<close>.\<close>

inductive vc_step :: "mode \<Rightarrow> bool \<times> bool \<times> bytes \<Rightarrow> bytes option \<Rightarrow> mode \<Rightarrow> bool" where
  start: "vc_step m (True, False, data) None (Collecting data)"
| single: "vc_step m (True, True, data) (Some data) Idle"
| more: "vc_step (Collecting b) (False, False, data) None (Collecting (b @ data))"
| finish: "vc_step (Collecting b) (False, True, data) (Some (b @ data)) Idle"

inductive_cases vc_step_idleE: "vc_step Idle c out m'"
inductive_simps vc_step_simps: "vc_step m (a, b, data) out m'"

lemma push_vc_step:
  assumes "push (chunk_pdu tot a b data) r = (Ok out, r')"
  shows "vc_step (mode_of r) (a, b, data) out (mode_of r')"
  using assms unfolding push_chunk_pdu vc_step_simps mode_of_def
  by (auto simp: Let_def split: if_splits)

lemma vc_step_push:
  assumes "vc_step (mode_of r) (a, b, data) out m'"
  shows "\<exists>r'. push (chunk_pdu tot a b data) r = (Ok out, r') \<and> mode_of r' = m'"
  using assms unfolding push_chunk_pdu vc_step_simps mode_of_def
  by (auto simp: Let_def split: if_splits)

text \<open>Outside a message only a first chunk is accepted.\<close>

lemma idle_needs_first: "vc_step Idle (a, b, data) out m' \<Longrightarrow> a"
  by (erule vc_step_idleE) auto

lemma push_no_panic: "fst (push pdu r) \<noteq> Panic"
  by (auto simp: push_def io_bind_def io_lift_def Let_def split: result.splits prod.splits dest!: get_lens)

end
