(* ===== verification/Rle_Spec.thy ===== *)
theory Rle_Spec
  imports Rle
begin

text \<open>
  What an RLE stream means: a list of orders, each appending pixels to a growing image whose
  pixels refer to the pixel one row below in the list. The lemmas show that the in-place
  decoder of \<open>Rle\<close> computes exactly this, and that it panics when the orders produce more
  pixels than the image has.
\<close>

section \<open>Pixels as bytes\<close>

definition in_range :: "nat \<Rightarrow> u32 \<Rightarrow> bool" where
  "in_range ps v \<longleftrightarrow> take_bit (8 * ps) v = v"

lemma length_px_bytes [simp]: "length (px_bytes ps v) = ps"
  by (induction ps arbitrary: v) auto

lemma px_value_bytes: "px_value (px_bytes ps v) = take_bit (8 * ps) v"
proof (induction ps arbitrary: v)
  case (Suc ps)
  have "ucast (ucast v :: u8) OR push_bit 8 (take_bit (8 * ps) (drop_bit 8 v)) = take_bit (8 * Suc ps) v"
    by (rule bit_word_eqI) (auto simp: bit_simps)
  with Suc show ?case by simp
qed simp

lemma px_value_in_range [simp]: "in_range ps v \<Longrightarrow> px_value (px_bytes ps v) = v"
  by (simp add: px_value_bytes in_range_def)

lemma in_range_0 [simp]: "in_range ps 0"
  by (simp add: in_range_def)

lemma in_range_xor [simp]: "in_range ps a \<Longrightarrow> in_range ps b \<Longrightarrow> in_range ps (a XOR b)"
  by (simp add: in_range_def)

lemma in_range_white: "pixel_size bpp = Ok ps \<Longrightarrow> in_range ps (white_pixel bpp)"
  by (auto simp: pixel_size_def white_pixel_def in_range_def take_bit_eq_mask mask_eq_exp_minus_1
      split: if_splits)

definition image_bytes :: "nat \<Rightarrow> u32 list \<Rightarrow> bytes" where
  "image_bytes ps out = concat (map (px_bytes ps) out)"

lemma image_bytes_simps [simp]:
  "image_bytes ps [] = []"
  "image_bytes ps (p # out) = px_bytes ps p @ image_bytes ps out"
  "image_bytes ps (out @ out') = image_bytes ps out @ image_bytes ps out'"
  by (simp_all add: image_bytes_def)

lemma length_image_bytes [simp]: "length (image_bytes ps out) = length out * ps"
  by (induction out) auto

lemma image_bytes_pixel:
  "j < length out \<Longrightarrow> take ps (drop (j * ps) (image_bytes ps out @ r)) = px_bytes ps (out ! j)"
proof (induction out arbitrary: j)
  case (Cons p out)
  then show ?case by (cases j) auto
qed simp

section \<open>Appending pixels\<close>

text \<open>The buffer and destination cursor that hold the image \<open>out\<close> of at most \<open>N\<close> pixels.\<close>

definition cur_of :: "nat \<Rightarrow> nat \<Rightarrow> u32 list \<Rightarrow> bytes \<times> nat" where
  "cur_of ps N out =
     (image_bytes ps out @ replicate ((N - length out) * ps) 0, length out * ps)"

fun paint :: "(u32 list \<Rightarrow> u32) list \<Rightarrow> u32 list \<Rightarrow> u32 list" where
  "paint [] out = out"
| "paint (g # gs) out = paint gs (out @ [g out])"

lemma length_paint [simp]: "length (paint gs out) = length out + length gs"
  by (induction gs arbitrary: out) auto

lemma paint_append [simp]: "paint (gs @ gs') out = paint gs' (paint gs out)"
  by (induction gs arbitrary: out) auto

lemma paint_const [simp]: "paint (map (\<lambda>p _. p) ps) out = out @ ps"
  by (induction ps arbitrary: out) auto

fun emit_seq :: "nat \<Rightarrow> (bytes \<Rightarrow> nat \<Rightarrow> u32 result) list \<Rightarrow> bytes \<times> nat \<Rightarrow> (bytes \<times> nat) result" where
  "emit_seq ps [] c = Ok c"
| "emit_seq ps (f # fs) (dst, d) =
     and_then (f dst d) (\<lambda>v. and_then (write_px ps dst d v) (\<lambda>dst. emit_seq ps fs (dst, d + ps)))"

lemma emit_seq_append:
  "emit_seq ps (fs @ fs') c = and_then (emit_seq ps fs c) (emit_seq ps fs')"
  by (induction fs arbitrary: c) (auto simp: and_then_assoc split: prod.splits)

lemma emit_n_seq: "emit_n ps f n c = emit_seq ps (replicate n f) c"
  by (induction n arbitrary: c) auto

lemma emit_dithered_seq:
  "emit_dithered ps a b n c = emit_seq ps (concat (replicate n [\<lambda>_ _. Ok a, \<lambda>_ _. Ok b])) c"
  by (induction n arbitrary: c) auto

text \<open>A pixel function of the decoder and its meaning on images of at least \<open>m\<close> pixels.\<close>

definition px_sim ::
    "nat \<Rightarrow> nat \<Rightarrow> nat \<Rightarrow> (bytes \<Rightarrow> nat \<Rightarrow> u32 result) \<Rightarrow> (u32 list \<Rightarrow> u32) \<Rightarrow> bool" where
  "px_sim ps N m f g \<longleftrightarrow>
     (\<forall>out. m \<le> length out \<and> length out \<le> N \<and> list_all (in_range ps) out \<longrightarrow>
        (case cur_of ps N out of (dst, d) \<Rightarrow> f dst d = Ok (g out)) \<and> in_range ps (g out))"

lemma write_px_cur:
  assumes "length out < N"
  shows "write_px ps (fst (cur_of ps N out)) (snd (cur_of ps N out)) v =
    Ok (fst (cur_of ps N (out @ [v])))"
proof -
  obtain k where k: "N - length out = Suc k" "N - Suc (length out) = k"
    using assms by (metis Suc_diff_Suc)
  show ?thesis by (simp add: cur_of_def write_px_def copy_at_def k)
qed

lemma write_px_over:
  assumes "N \<le> length out" and "0 < ps"
  shows "write_px ps (fst (cur_of ps N out)) (snd (cur_of ps N out)) v = Panic"
  using assms by (simp add: cur_of_def write_px_def copy_at_def)

lemma snd_cur_of_snoc: "snd (cur_of ps N (out @ [v])) = snd (cur_of ps N out) + ps"
  by (simp add: cur_of_def)

lemma emit_seq_sim:
  assumes "list_all2 (px_sim ps N m) fs gs" and "0 < ps"
    and "m \<le> length out" and "length out \<le> N" and "list_all (in_range ps) out"
  shows "emit_seq ps fs (cur_of ps N out) =
      (if length out + length gs \<le> N then Ok (cur_of ps N (paint gs out)) else Panic)
    \<and> (length out + length gs \<le> N \<longrightarrow> list_all (in_range ps) (paint gs out))"
  using assms
proof (induction fs gs arbitrary: out rule: list_all2_induct)
  case Nil
  then show ?case by simp
next
  case (Cons f fs g gs)
  let ?dst = "fst (cur_of ps N out)" and ?d = "snd (cur_of ps N out)"
  have f: "f ?dst ?d = Ok (g out)" "in_range ps (g out)"
    using Cons.hyps(1) Cons.prems by (auto simp: px_sim_def split_beta)
  have step: "emit_seq ps (f # fs) (cur_of ps N out) =
      and_then (write_px ps ?dst ?d (g out)) (\<lambda>dst. emit_seq ps fs (dst, ?d + ps))"
    using f(1) by (cases "cur_of ps N out") simp
  show ?case
  proof (cases "length out < N")
    case True
    have "emit_seq ps (f # fs) (cur_of ps N out) = emit_seq ps fs (cur_of ps N (out @ [g out]))"
      unfolding step write_px_cur [OF True]
      by (simp add: snd_cur_of_snoc [symmetric, of ps N out "g out"])
    then show ?thesis
      using Cons.IH [of "out @ [g out]"] Cons.prems f(2) True by simp
  next
    case False
    then show ?thesis
      unfolding step using write_px_over [of N out ps] Cons.prems by simp
  qed
qed

section \<open>Orders\<close>

datatype order =
    Background nat
  | Foreground "u32 option" nat
  | Dithered nat u32 u32
  | Color_Run nat u32
  | Fgbg "u32 option" nat bytes
  | Color_Image "u32 list"
  | Special_1
  | Special_2
  | White_Pixel
  | Black_Pixel

record img =
  g_out :: "u32 list"
  g_fg :: u32
  g_ins :: bool
  g_first :: bool

definition bg_at :: "nat \<Rightarrow> bool \<Rightarrow> u32 list \<Rightarrow> u32" where
  "bg_at w first out = (if first then 0 else out ! (length out - w))"

definition fg_at :: "nat \<Rightarrow> bool \<Rightarrow> u32 \<Rightarrow> u32 list \<Rightarrow> u32" where
  "fg_at w first fg out = bg_at w first out XOR fg"

definition mask_paint :: "nat \<Rightarrow> bool \<Rightarrow> u32 \<Rightarrow> u8 \<Rightarrow> (u32 list \<Rightarrow> u32) list" where
  "mask_paint w first fg m =
     map (\<lambda>k. if m AND push_bit k 1 \<noteq> 0 then fg_at w first fg else bg_at w first) [0..<8]"

fun new_fg :: "order \<Rightarrow> u32 \<Rightarrow> u32" where
  "new_fg (Foreground (Some p) _) fg = p"
| "new_fg (Fgbg (Some p) _ _) fg = p"
| "new_fg _ fg = fg"

text \<open>The pixels an order appends, each as a function of the image so far.\<close>

fun order_paint ::
    "nat \<Rightarrow> u32 \<Rightarrow> bool \<Rightarrow> u32 \<Rightarrow> bool \<Rightarrow> order \<Rightarrow> (u32 list \<Rightarrow> u32) list" where
  "order_paint w white first fg ins (Background n) =
     (if ins \<and> 0 < n then fg_at w first fg # replicate (n - 1) (bg_at w first)
      else replicate n (bg_at w first))"
| "order_paint w white first fg ins (Foreground _ n) = replicate n (fg_at w first fg)"
| "order_paint w white first fg ins (Dithered n a b) = concat (replicate n [\<lambda>_. a, \<lambda>_. b])"
| "order_paint w white first fg ins (Color_Run n a) = replicate n (\<lambda>_. a)"
| "order_paint w white first fg ins (Fgbg _ n masks) =
     take n (concat (map (mask_paint w first fg) masks))"
| "order_paint w white first fg ins (Color_Image pxs) = map (\<lambda>p _. p) pxs"
| "order_paint w white first fg ins Special_1 = mask_paint w first fg 0x03"
| "order_paint w white first fg ins Special_2 = mask_paint w first fg 0x05"
| "order_paint w white first fg ins White_Pixel = [\<lambda>_. white]"
| "order_paint w white first fg ins Black_Pixel = [\<lambda>_. 0]"

definition img_line :: "nat \<Rightarrow> img \<Rightarrow> img" where
  "img_line w g =
     (if g_first g \<and> w \<le> length (g_out g) then g\<lparr>g_ins := False, g_first := False\<rparr> else g)"

definition is_background :: "order \<Rightarrow> bool" where
  "is_background ord = (case ord of Background _ \<Rightarrow> True | _ \<Rightarrow> False)"

definition img_order :: "nat \<Rightarrow> u32 \<Rightarrow> order \<Rightarrow> img \<Rightarrow> img" where
  "img_order w white ord g =
     (let g = img_line w g; fg = new_fg ord (g_fg g)
      in \<lparr>g_out = paint (order_paint w white (g_first g) fg (g_ins g) ord) (g_out g),
          g_fg = fg, g_ins = is_background ord, g_first = g_first g\<rparr>)"

fun order_len :: "order \<Rightarrow> nat" where
  "order_len (Background n) = n"
| "order_len (Foreground _ n) = n"
| "order_len (Dithered n _ _) = 2 * n"
| "order_len (Color_Run n _) = n"
| "order_len (Fgbg _ n _) = n"
| "order_len (Color_Image pxs) = length pxs"
| "order_len Special_1 = 8"
| "order_len Special_2 = 8"
| "order_len White_Pixel = 1"
| "order_len Black_Pixel = 1"

definition img_init :: "u32 \<Rightarrow> img" where
  "img_init white = \<lparr>g_out = [], g_fg = white, g_ins = False, g_first = True\<rparr>"

definition render :: "nat \<Rightarrow> u32 \<Rightarrow> order list \<Rightarrow> u32 list" where
  "render w white ords = g_out (foldl (\<lambda>g ord. img_order w white ord g) (img_init white) ords)"

section \<open>The stream\<close>

text \<open>Run headers: short, extended, or with a 16-bit length.\<close>

definition run_header :: "u8 \<Rightarrow> u8 \<Rightarrow> nat \<Rightarrow> bytes" where
  "run_header code mega n =
     (if 1 \<le> n \<and> n < 32 then [push_bit 5 code OR of_nat n]
      else if 32 \<le> n \<and> n < 288 then [push_bit 5 code, of_nat (n - 32)]
      else mega # put_u16_le (of_nat n))"

definition lite_header :: "u8 \<Rightarrow> u8 \<Rightarrow> nat \<Rightarrow> bytes" where
  "lite_header code mega n =
     (if 1 \<le> n \<and> n < 16 then [push_bit 4 code OR of_nat n]
      else if 16 \<le> n \<and> n < 272 then [push_bit 4 code, of_nat (n - 16)]
      else mega # put_u16_le (of_nat n))"

definition fgbg_header :: "nat \<Rightarrow> bytes" where
  "fgbg_header n =
     (if n mod 8 = 0 \<and> 1 \<le> n div 8 \<and> n div 8 < 32 then [push_bit 5 FGBG_IMAGE OR of_nat (n div 8)]
      else if 1 \<le> n \<and> n < 257 then [push_bit 5 FGBG_IMAGE, of_nat (n - 1)]
      else MEGA_FGBG_IMAGE # put_u16_le (of_nat n))"

definition lite_fgbg_header :: "nat \<Rightarrow> bytes" where
  "lite_fgbg_header n =
     (if n mod 8 = 0 \<and> 1 \<le> n div 8 \<and> n div 8 < 16
      then [push_bit 4 LITE_SET_FG_FGBG_IMAGE OR of_nat (n div 8)]
      else if 1 \<le> n \<and> n < 257 then [push_bit 4 LITE_SET_FG_FGBG_IMAGE, of_nat (n - 1)]
      else MEGA_SET_FGBG_IMAGE # put_u16_le (of_nat n))"

fun order_encode :: "nat \<Rightarrow> order \<Rightarrow> bytes" where
  "order_encode ps (Background n) = run_header BG_RUN MEGA_BG_RUN n"
| "order_encode ps (Foreground None n) = run_header FG_RUN MEGA_FG_RUN n"
| "order_encode ps (Foreground (Some p) n) =
     lite_header LITE_SET_FG_FG_RUN MEGA_SET_FG_RUN n @ px_bytes ps p"
| "order_encode ps (Dithered n a b) =
     lite_header LITE_DITHERED_RUN MEGA_DITHERED_RUN n @ px_bytes ps a @ px_bytes ps b"
| "order_encode ps (Color_Run n a) = run_header COLOR_RUN MEGA_COLOR_RUN n @ px_bytes ps a"
| "order_encode ps (Fgbg None n masks) = fgbg_header n @ masks"
| "order_encode ps (Fgbg (Some p) n masks) = lite_fgbg_header n @ px_bytes ps p @ masks"
| "order_encode ps (Color_Image pxs) =
     run_header COLOR_IMAGE MEGA_COLOR_IMAGE (length pxs) @ image_bytes ps pxs"
| "order_encode ps Special_1 = [SPECIAL_FGBG_1]"
| "order_encode ps Special_2 = [SPECIAL_FGBG_2]"
| "order_encode ps White_Pixel = [WHITE]"
| "order_encode ps Black_Pixel = [BLACK]"

fun order_ok :: "nat \<Rightarrow> order \<Rightarrow> bool" where
  "order_ok ps (Background n) \<longleftrightarrow> n < 65536"
| "order_ok ps (Foreground p n) \<longleftrightarrow> n < 65536 \<and> pred_option (in_range ps) p"
| "order_ok ps (Dithered n a b) \<longleftrightarrow> n < 65536 \<and> in_range ps a \<and> in_range ps b"
| "order_ok ps (Color_Run n a) \<longleftrightarrow> n < 65536 \<and> in_range ps a"
| "order_ok ps (Fgbg p n masks) \<longleftrightarrow>
     n < 65536 \<and> length masks = (n + 7) div 8 \<and> pred_option (in_range ps) p"
| "order_ok ps (Color_Image pxs) \<longleftrightarrow> length pxs < 65536 \<and> list_all (in_range ps) pxs"
| "order_ok ps _ \<longleftrightarrow> True"

section \<open>Headers read back\<close>

lemma short_run_bits:
  assumes "code \<in> {BG_RUN, FG_RUN, FGBG_IMAGE, COLOR_RUN, COLOR_IMAGE}" and "n < 32"
  shows "code_id (push_bit 5 code OR of_nat n) = code"
    and "unat ((push_bit 5 code OR of_nat n) AND 0x1F) = n"
proof -
  have "list_all (\<lambda>c. list_all (\<lambda>n. code_id (push_bit 5 c OR of_nat n) = c \<and>
      unat ((push_bit 5 c OR of_nat n :: u8) AND 0x1F) = n) [0..<32])
      [BG_RUN, FG_RUN, FGBG_IMAGE, COLOR_RUN, COLOR_IMAGE]"
    by code_simp
  then have "code_id (push_bit 5 code OR of_nat n) = code \<and>
      unat ((push_bit 5 code OR of_nat n) AND 0x1F) = n"
    using assms unfolding list_all_iff by auto
  then show "code_id (push_bit 5 code OR of_nat n) = code"
    and "unat ((push_bit 5 code OR of_nat n) AND 0x1F) = n" by simp_all
qed

lemma lite_run_bits:
  assumes "code \<in> {LITE_SET_FG_FG_RUN, LITE_SET_FG_FGBG_IMAGE, LITE_DITHERED_RUN}" and "n < 16"
  shows "code_id (push_bit 4 code OR of_nat n) = code"
    and "unat ((push_bit 4 code OR of_nat n) AND 0x0F) = n"
proof -
  have "list_all (\<lambda>c. list_all (\<lambda>n. code_id (push_bit 4 c OR of_nat n) = c \<and>
      unat ((push_bit 4 c OR of_nat n :: u8) AND 0x0F) = n) [0..<16])
      [LITE_SET_FG_FG_RUN, LITE_SET_FG_FGBG_IMAGE, LITE_DITHERED_RUN]"
    by code_simp
  then have "code_id (push_bit 4 code OR of_nat n) = code \<and>
      unat ((push_bit 4 code OR of_nat n) AND 0x0F) = n"
    using assms unfolding list_all_iff by auto
  then show "code_id (push_bit 4 code OR of_nat n) = code"
    and "unat ((push_bit 4 code OR of_nat n) AND 0x0F) = n" by simp_all
qed

lemma short_run_bits_0:
  assumes "code \<in> {BG_RUN, FG_RUN, FGBG_IMAGE, COLOR_RUN, COLOR_IMAGE}"
  shows "code_id (push_bit 5 code) = code" and "unat (push_bit 5 code AND 0x1F) = 0"
  using short_run_bits [OF assms, of 0] by simp_all

lemma lite_run_bits_0:
  assumes "code \<in> {LITE_SET_FG_FG_RUN, LITE_SET_FG_FGBG_IMAGE, LITE_DITHERED_RUN}"
  shows "code_id (push_bit 4 code) = code" and "unat (push_bit 4 code AND 0x0F) = 0"
  using lite_run_bits [OF assms, of 0] by simp_all

text \<open>\<open>run_length\<close> by class of code.\<close>

lemma run_length_run:
  "code \<in> {BG_RUN, FG_RUN, COLOR_RUN, COLOR_IMAGE} \<Longrightarrow> run_length code (b # r) =
     (if unat (b AND 0x1F) \<noteq> 0 then Ok (unat (b AND 0x1F), 1)
      else and_then (get1 (b # r)) (\<lambda>v. Ok (v + 32, 2)))"
  by (elim insertE emptyE; simp add: run_length_def rle_codes)

lemma run_length_lite:
  "code \<in> {LITE_SET_FG_FG_RUN, LITE_DITHERED_RUN} \<Longrightarrow> run_length code (b # r) =
     (if unat (b AND 0x0F) \<noteq> 0 then Ok (unat (b AND 0x0F), 1)
      else and_then (get1 (b # r)) (\<lambda>v. Ok (v + 16, 2)))"
  by (elim insertE emptyE; simp add: run_length_def rle_codes)

lemma run_length_fgbg:
  "run_length FGBG_IMAGE (b # r) =
     (if unat (b AND 0x1F) \<noteq> 0 then Ok (unat (b AND 0x1F) * 8, 1)
      else and_then (get1 (b # r)) (\<lambda>v. Ok (v + 1, 2)))"
  "run_length LITE_SET_FG_FGBG_IMAGE (b # r) =
     (if unat (b AND 0x0F) \<noteq> 0 then Ok (unat (b AND 0x0F) * 8, 1)
      else and_then (get1 (b # r)) (\<lambda>v. Ok (v + 1, 2)))"
  by (simp_all add: run_length_def rle_codes)

lemma get1_Cons [simp]: "get1 (a # b # r) = Ok (unat b)"
  by (simp add: get1_def)

text \<open>The header of an order, as \<open>rle_step\<close> dispatches on it.\<close>

definition reads_run :: "bytes \<Rightarrow> u8 \<Rightarrow> nat \<Rightarrow> bool" where
  "reads_run h code n \<longleftrightarrow>
     h \<noteq> [] \<and> code_id (hd h) = code \<and> (\<forall>r. run_length code (h @ r) = Ok (n, length h))"

lemma mega_run:
  assumes "n < 65536" and "mega \<in> {MEGA_BG_RUN, MEGA_FG_RUN, MEGA_FGBG_IMAGE, MEGA_COLOR_RUN,
    MEGA_COLOR_IMAGE, MEGA_SET_FG_RUN, MEGA_SET_FGBG_IMAGE, MEGA_DITHERED_RUN}"
  shows "reads_run (mega # put_u16_le (of_nat n)) mega n"
proof -
  have "run_length mega (mega # a # b # r) = Ok (unat (u16_from_le_bytes a b), 3)" for a b r
    using assms(2) by (elim insertE emptyE; simp add: run_length_def rle_codes)
  moreover have "code_id mega = mega"
    using assms(2) by (elim insertE emptyE; simp add: code_id_def rle_codes)
  ultimately show ?thesis using assms(1) by (simp add: reads_run_def put_u16_le_def)
qed

lemma run_header_reads:
  assumes "n < 65536" and "code \<in> {BG_RUN, FG_RUN, COLOR_RUN, COLOR_IMAGE}"
    and "mega \<in> {MEGA_BG_RUN, MEGA_FG_RUN, MEGA_COLOR_RUN, MEGA_COLOR_IMAGE}"
  shows "reads_run (run_header code mega n) code n \<or> reads_run (run_header code mega n) mega n"
proof -
  have code: "code \<in> {BG_RUN, FG_RUN, FGBG_IMAGE, COLOR_RUN, COLOR_IMAGE}" using assms(2) by blast
  consider "1 \<le> n \<and> n < 32" | "32 \<le> n \<and> n < 288" | "n = 0 \<or> 288 \<le> n" by linarith
  then show ?thesis
  proof cases
    case 1
    then show ?thesis
      using short_run_bits [OF code, of n]
      by (simp add: reads_run_def run_header_def run_length_run [OF assms(2)])
  next
    case 2
    have n: "unat (of_nat (n - 32) :: u8) = n - 32" using 2 by (intro unat_of_nat_u8) linarith
    show ?thesis
      using short_run_bits_0 [OF code] 2 n
      by (simp add: reads_run_def run_header_def run_length_run [OF assms(2)])
  next
    case 3
    then have "run_header code mega n = mega # put_u16_le (of_nat n)" by (auto simp: run_header_def)
    then show ?thesis using mega_run [OF assms(1)] assms(3) by auto
  qed
qed

lemma lite_header_reads:
  assumes "n < 65536" and "code \<in> {LITE_SET_FG_FG_RUN, LITE_DITHERED_RUN}"
    and "mega \<in> {MEGA_SET_FG_RUN, MEGA_DITHERED_RUN}"
  shows "reads_run (lite_header code mega n) code n \<or> reads_run (lite_header code mega n) mega n"
proof -
  have code: "code \<in> {LITE_SET_FG_FG_RUN, LITE_SET_FG_FGBG_IMAGE, LITE_DITHERED_RUN}"
    using assms(2) by blast
  consider "1 \<le> n \<and> n < 16" | "16 \<le> n \<and> n < 272" | "n = 0 \<or> 272 \<le> n" by linarith
  then show ?thesis
  proof cases
    case 1
    then show ?thesis
      using lite_run_bits [OF code, of n]
      by (simp add: reads_run_def lite_header_def run_length_lite [OF assms(2)])
  next
    case 2
    have n: "unat (of_nat (n - 16) :: u8) = n - 16" using 2 by (intro unat_of_nat_u8) linarith
    show ?thesis
      using lite_run_bits_0 [OF code] 2 n
      by (simp add: reads_run_def lite_header_def run_length_lite [OF assms(2)])
  next
    case 3
    then have "lite_header code mega n = mega # put_u16_le (of_nat n)" by (auto simp: lite_header_def)
    then show ?thesis using mega_run [OF assms(1)] assms(3) by auto
  qed
qed

lemma fgbg_header_reads:
  assumes "n < 65536"
  shows "reads_run (fgbg_header n) FGBG_IMAGE n \<or> reads_run (fgbg_header n) MEGA_FGBG_IMAGE n"
proof -
  consider "n mod 8 = 0 \<and> 1 \<le> n div 8 \<and> n div 8 < 32"
    | "\<not> (n mod 8 = 0 \<and> 1 \<le> n div 8 \<and> n div 8 < 32)" "1 \<le> n \<and> n < 257"
    | "n = 0 \<or> 257 \<le> n" "\<not> (n mod 8 = 0 \<and> 1 \<le> n div 8 \<and> n div 8 < 32)" by linarith
  then show ?thesis
  proof cases
    case 1
    then have "n div 8 * 8 = n" by (metis add_0_right div_mult_mod_eq)
    then show ?thesis
      using 1 short_run_bits [of FGBG_IMAGE "n div 8"]
      by (simp add: reads_run_def fgbg_header_def run_length_fgbg)
  next
    case 2
    have n: "unat (of_nat (n - 1) :: u8) = n - 1" using 2 by (intro unat_of_nat_u8) linarith
    have h: "fgbg_header n = [push_bit 5 FGBG_IMAGE, of_nat (n - 1)]"
      unfolding fgbg_header_def if_not_P [OF 2(1)] if_P [OF 2(2)] ..
    show ?thesis
      unfolding h using short_run_bits_0 [of FGBG_IMAGE] 2(2) n by (simp add: reads_run_def run_length_fgbg)
  next
    case 3
    then have "fgbg_header n = MEGA_FGBG_IMAGE # put_u16_le (of_nat n)" by (auto simp: fgbg_header_def)
    then show ?thesis using mega_run [OF assms(1), of MEGA_FGBG_IMAGE] by auto
  qed
qed

lemma lite_fgbg_header_reads:
  assumes "n < 65536"
  shows "reads_run (lite_fgbg_header n) LITE_SET_FG_FGBG_IMAGE n \<or>
    reads_run (lite_fgbg_header n) MEGA_SET_FGBG_IMAGE n"
proof -
  consider "n mod 8 = 0 \<and> 1 \<le> n div 8 \<and> n div 8 < 16"
    | "\<not> (n mod 8 = 0 \<and> 1 \<le> n div 8 \<and> n div 8 < 16)" "1 \<le> n \<and> n < 257"
    | "n = 0 \<or> 257 \<le> n" "\<not> (n mod 8 = 0 \<and> 1 \<le> n div 8 \<and> n div 8 < 16)" by linarith
  then show ?thesis
  proof cases
    case 1
    then have "n div 8 * 8 = n" by (metis add_0_right div_mult_mod_eq)
    then show ?thesis
      using 1 lite_run_bits [of LITE_SET_FG_FGBG_IMAGE "n div 8"]
      by (simp add: reads_run_def lite_fgbg_header_def run_length_fgbg)
  next
    case 2
    have n: "unat (of_nat (n - 1) :: u8) = n - 1" using 2 by (intro unat_of_nat_u8) linarith
    have h: "lite_fgbg_header n = [push_bit 4 LITE_SET_FG_FGBG_IMAGE, of_nat (n - 1)]"
      unfolding lite_fgbg_header_def if_not_P [OF 2(1)] if_P [OF 2(2)] ..
    show ?thesis
      unfolding h using lite_run_bits_0 [of LITE_SET_FG_FGBG_IMAGE] 2(2) n by (simp add: reads_run_def run_length_fgbg)
  next
    case 3
    then have "lite_fgbg_header n = MEGA_SET_FGBG_IMAGE # put_u16_le (of_nat n)"
      by (auto simp: lite_fgbg_header_def)
    then show ?thesis using mega_run [OF assms(1), of MEGA_SET_FGBG_IMAGE] by auto
  qed
qed

section \<open>The decoder's bodies as pixel sequences\<close>

text \<open>The decoder's counterparts of \<open>mask_paint\<close> and \<open>order_paint\<close>.\<close>

definition mask_emit ::
    "nat \<Rightarrow> nat \<Rightarrow> bool \<Rightarrow> u32 \<Rightarrow> u8 \<Rightarrow> (bytes \<Rightarrow> nat \<Rightarrow> u32 result) list" where
  "mask_emit ps row_delta first fg m =
     map (\<lambda>k. if m AND push_bit k 1 \<noteq> 0 then fg_px ps row_delta first fg else bg_px ps row_delta first)
       [0..<8]"

fun order_emit ::
    "nat \<Rightarrow> nat \<Rightarrow> u32 \<Rightarrow> bool \<Rightarrow> u32 \<Rightarrow> bool \<Rightarrow> order \<Rightarrow> (bytes \<Rightarrow> nat \<Rightarrow> u32 result) list" where
  "order_emit ps rd white first fg ins (Background n) =
     (if ins \<and> 0 < n then fg_px ps rd first fg # replicate (n - 1) (bg_px ps rd first)
      else replicate n (bg_px ps rd first))"
| "order_emit ps rd white first fg ins (Foreground _ n) = replicate n (fg_px ps rd first fg)"
| "order_emit ps rd white first fg ins (Dithered n a b) =
     concat (replicate n [\<lambda>_ _. Ok a, \<lambda>_ _. Ok b])"
| "order_emit ps rd white first fg ins (Color_Run n a) = replicate n (\<lambda>_ _. Ok a)"
| "order_emit ps rd white first fg ins (Fgbg _ n masks) =
     take n (concat (map (mask_emit ps rd first fg) masks))"
| "order_emit ps rd white first fg ins (Color_Image pxs) = map (\<lambda>p _ _. Ok p) pxs"
| "order_emit ps rd white first fg ins Special_1 = mask_emit ps rd first fg 0x03"
| "order_emit ps rd white first fg ins Special_2 = mask_emit ps rd first fg 0x05"
| "order_emit ps rd white first fg ins White_Pixel = [\<lambda>_ _. Ok white]"
| "order_emit ps rd white first fg ins Black_Pixel = [\<lambda>_ _. Ok 0]"

lemma length_mask_emit [simp]: "length (mask_emit ps rd first fg m) = 8"
  by (simp add: mask_emit_def)

lemma fgbg_bits_seq:
  "fgbg_bits ps rd first fg m k n c =
   emit_seq ps (map (\<lambda>k. if m AND push_bit k 1 \<noteq> 0 then fg_px ps rd first fg else bg_px ps rd first)
     [k..<k + n]) c"
proof (induction n arbitrary: k c)
  case (Suc n)
  have "[k..<k + Suc n] = k # [Suc k..<Suc k + n]" by (simp add: upt_conv_Cons)
  with Suc show ?case by (cases c) simp
next
  case 0
  show ?case by (cases c) simp
qed

lemma write_fgbg_seq:
  "n \<le> 8 \<Longrightarrow> write_fgbg ps rd first fg m n c = emit_seq ps (take n (mask_emit ps rd first fg m)) c"
  by (simp add: write_fgbg_def fgbg_bits_seq mask_emit_def take_map min_def)

lemma rle_bg_run_seq:
  "rle_bg_run ps rd n st =
   and_then (emit_seq ps (order_emit ps rd white (r_first_line st) (r_fg_pel st) (r_insert_fg st)
       (Background n)) (cur st)) (\<lambda>c. Ok ((put_cur st c)\<lparr>r_insert_fg := True\<rparr>))"
proof (cases "r_insert_fg st \<and> 0 < n")
  case True
  then show ?thesis by (simp add: rle_bg_run_def Let_def emit_n_seq and_then_assoc)
next
  case False
  then have "(if r_insert_fg st \<and> 0 < n then 1 else 0 :: nat) = 0" by simp
  with False show ?thesis unfolding rle_bg_run_def Let_def by (auto simp: emit_n_seq)
qed

lemma emit_seq_image:
  "d \<le> length dst \<Longrightarrow> emit_seq ps (map (\<lambda>p _ _. Ok p) pxs) (dst, d) =
     and_then (copy_at dst d (image_bytes ps pxs)) (\<lambda>dst. Ok (dst, d + length pxs * ps))"
proof (induction pxs arbitrary: dst d)
  case (Cons p pxs)
  show ?case
  proof (cases "d + ps \<le> length dst")
    case True
    let ?dst = "take d dst @ px_bytes ps p @ drop (d + ps) dst"
    have "write_px ps dst d p = Ok ?dst" using True by (simp add: write_px_def copy_at_def)
    moreover have "d + ps \<le> length ?dst" using True by simp
    ultimately show ?thesis
      using Cons.IH [of "d + ps" ?dst] True by (simp add: copy_at_def add_ac)
  next
    case False
    then show ?thesis by (simp add: write_px_def copy_at_def)
  qed
qed (simp add: copy_at_def)

lemma rle_fgbg_image_seq:
  assumes "length masks = (n + 7) div 8" and "r_i st = length pre"
  shows "rle_fgbg_image ps rd (pre @ masks @ post) n st =
    and_then (emit_seq ps (take n (concat (map (mask_emit ps rd (r_first_line st) (r_fg_pel st)) masks)))
        (cur st))
      (\<lambda>c. Ok ((put_cur st c)\<lparr>r_i := length pre + length masks\<rparr>))"
  using assms
proof (induction masks arbitrary: n st pre)
  case Nil
  then have "n = 0" by (simp add: div_eq_0_iff)
  with Nil.prems show ?case by (simp add: rle_fgbg_image.simps put_cur_def)
next
  case (Cons m masks)
  let ?emit = "mask_emit ps rd (r_first_line st) (r_fg_pel st)"
  have n: "n \<noteq> 0" using Cons.prems(1) by (cases n) simp_all
  have len: "length masks = (n - min n 8 + 7) div 8"
  proof (cases "n \<le> 8")
    case True
    then have "(n + 7) div 8 = 1" using n by (intro div_nat_eqI) simp_all
    with Cons.prems(1) True show ?thesis by simp
  next
    case False
    then have "n + 7 = (n - 8 + 7) + 8" by simp
    then have "(n + 7) div 8 = (n - 8 + 7) div 8 + 1" by (metis div_add_self2 zero_neq_numeral)
    with Cons.prems(1) False show ?thesis by simp
  qed
  have src: "need_src (pre @ (m # masks) @ post) (length pre) 1 = Ok ()"
    by (simp add: need_src_def)
  have split: "take n (concat (map ?emit (m # masks))) =
      take (min n 8) (?emit m) @ take (n - min n 8) (concat (map ?emit masks))"
    by (cases "n \<le> 8") simp_all
  have rest: "rle_fgbg_image ps rd (pre @ (m # masks) @ post) (n - min n 8)
        ((put_cur st c)\<lparr>r_i := r_i st + 1\<rparr>) =
      and_then (emit_seq ps (take (n - min n 8) (concat (map ?emit masks))) c)
        (\<lambda>c. Ok ((put_cur st c)\<lparr>r_i := length pre + length (m # masks)\<rparr>))" for c
    using Cons.IH [OF len, of "(put_cur st c)\<lparr>r_i := r_i st + 1\<rparr>" "pre @ [m]"] Cons.prems(2)
    by (simp add: put_cur_def)
  show ?case
    unfolding split emit_seq_append and_then_assoc
    using n src Cons.prems(2) rest
    by (subst rle_fgbg_image.simps) (simp add: write_fgbg_seq Let_def del: concat.simps list.map)
qed

section \<open>One order\<close>

lemma read_px_at:
  "in_range ps v \<Longrightarrow> length pre = i \<Longrightarrow> read_px ps (pre @ px_bytes ps v @ post) i = Ok v"
  by (simp add: read_px_def)

lemma with_run_header:
  assumes "reads_run h code n" and "r_i st = length pre"
  shows "with_run code (pre @ h @ post) st f = f n (st\<lparr>r_i := length pre + length h\<rparr>)"
  using assms by (simp add: with_run_def reads_run_def)

definition step_result ::
    "nat \<Rightarrow> nat \<Rightarrow> u32 \<Rightarrow> nat \<Rightarrow> order \<Rightarrow> rle_state \<Rightarrow> rle_state result" where
  "step_result ps rd white i ord st =
     (let fg = new_fg ord (r_fg_pel st)
      in and_then (emit_seq ps (order_emit ps rd white (r_first_line st) fg (r_insert_fg st) ord) (cur st))
        (\<lambda>c. Ok \<lparr>r_i = i, r_d = snd c, r_dst = fst c, r_fg_pel = fg,
                r_insert_fg = is_background ord, r_first_line = r_first_line st\<rparr>))"

lemma rle_step_dispatch:
  assumes "h \<noteq> []" and "code_id (hd h) = code" and "line_start rd st = s1" and "r_i s1 = length pre"
  shows "rle_step ps rd white (pre @ h @ post) st = rle_order ps rd white (pre @ h @ post) code s1"
  using assms by (cases h) (simp_all add: rle_step_def)

text \<open>
  The state at the start of an order, and the same with \<open>insert_fg\<close> cleared.
\<close>

abbreviation st_at :: "nat \<Rightarrow> nat \<Rightarrow> bytes \<Rightarrow> u32 \<Rightarrow> bool \<Rightarrow> bool \<Rightarrow> rle_state" where
  "st_at i d dst fg ins fl \<equiv>
     \<lparr>r_i = i, r_d = d, r_dst = dst, r_fg_pel = fg, r_insert_fg = ins, r_first_line = fl\<rparr>"

lemma run_dispatch:
  assumes reads: "reads_run h c1 n \<or> reads_run h c2 n"
    and s1: "line_start rd st = st_at (length pre) d dst fg ins fl"
    and rule: "\<And>code. code = c1 \<or> code = c2 \<Longrightarrow>
      (\<And>ins' f. with_run code (pre @ h @ rest) (st_at (length pre) d dst fg ins' fl) f =
         f n (st_at (length pre + length h) d dst fg ins' fl)) \<Longrightarrow>
      rle_order ps rd white (pre @ h @ rest) code (st_at (length pre) d dst fg ins fl) = res"
  shows "rle_step ps rd white (pre @ h @ rest) st = res"
proof -
  obtain code where code: "code = c1 \<or> code = c2" "reads_run h code n" using reads by blast
  then have "h \<noteq> []" "code_id (hd h) = code" by (simp_all add: reads_run_def)
  from rle_step_dispatch [OF this s1, of pre ps white rest] show ?thesis
    using rule [OF code(1)] with_run_header [OF code(2)] by simp
qed

lemma step_background:
  assumes "n < 65536" and s1: "line_start rd st = st_at (length pre) d dst fg ins fl"
  shows "rle_step ps rd white (pre @ order_encode ps (Background n) @ post) st =
    step_result ps rd white (length pre + length (order_encode ps (Background n))) (Background n)
      (st_at (length pre) d dst fg ins fl)"
  unfolding order_encode.simps
  by (rule run_dispatch [OF run_header_reads [OF assms(1)] s1], simp, simp)
    (elim disjE; simp add: rle_order_def rle_bg_run_seq [of _ _ _ _ white] step_result_def
      is_background_def put_cur_def del: order_emit.simps)

lemma step_foreground:
  assumes "n < 65536" and s1: "line_start rd st = st_at (length pre) d dst fg ins fl"
  shows "rle_step ps rd white (pre @ order_encode ps (Foreground None n) @ post) st =
    step_result ps rd white (length pre + length (order_encode ps (Foreground None n)))
      (Foreground None n) (st_at (length pre) d dst fg ins fl)"
  unfolding order_encode.simps
  by (rule run_dispatch [OF run_header_reads [OF assms(1)] s1], simp, simp)
    (elim disjE; simp add: rle_order_def rle_fg_run_def set_fg_def emit_n_seq step_result_def
      is_background_def put_cur_def rle_codes)

lemma step_set_foreground:
  assumes "n < 65536" and p: "in_range ps p" and s1: "line_start rd st = st_at (length pre) d dst fg ins fl"
  shows "rle_step ps rd white (pre @ order_encode ps (Foreground (Some p) n) @ post) st =
    step_result ps rd white (length pre + length (order_encode ps (Foreground (Some p) n)))
      (Foreground (Some p) n) (st_at (length pre) d dst fg ins fl)"
proof -
  let ?h = "lite_header LITE_SET_FG_FG_RUN MEGA_SET_FG_RUN n"
  have px: "read_px ps (pre @ ?h @ px_bytes ps p @ post) (length pre + length ?h) = Ok p"
    using read_px_at [OF p, of "pre @ ?h"] by simp
  show ?thesis
    unfolding order_encode.simps append_assoc
    by (rule run_dispatch [OF lite_header_reads [OF assms(1)] s1], simp, simp)
      (elim disjE; simp add: rle_order_def rle_fg_run_def set_fg_def emit_n_seq step_result_def
        is_background_def put_cur_def rle_codes need_src_def px [unfolded rle_codes] add.assoc)
qed

lemma step_dithered:
  assumes "n < 65536" and ab: "in_range ps a" "in_range ps b"
    and s1: "line_start rd st = st_at (length pre) d dst fg ins fl"
  shows "rle_step ps rd white (pre @ order_encode ps (Dithered n a b) @ post) st =
    step_result ps rd white (length pre + length (order_encode ps (Dithered n a b)))
      (Dithered n a b) (st_at (length pre) d dst fg ins fl)"
proof -
  let ?h = "lite_header LITE_DITHERED_RUN MEGA_DITHERED_RUN n"
  let ?b = "px_bytes ps a @ px_bytes ps b"
  have px: "read_px ps (pre @ ?h @ ?b @ post) (length pre + length ?h) = Ok a"
    "read_px ps (pre @ ?h @ ?b @ post) (length pre + (length ?h + ps)) = Ok b"
    using read_px_at [OF ab(1), of "pre @ ?h" _ "px_bytes ps b @ post"]
      read_px_at [OF ab(2), of "pre @ ?h @ px_bytes ps a" _ post] by simp_all
  show ?thesis
    unfolding order_encode.simps append_assoc
    by (rule run_dispatch [OF lite_header_reads [OF assms(1)] s1], simp, simp)
      (elim disjE; simp add: rle_order_def rle_dithered_def emit_dithered_seq step_result_def
        is_background_def put_cur_def rle_codes need_src_def px [unfolded rle_codes append_assoc] add.assoc mult_2)
qed

lemma step_color_run:
  assumes "n < 65536" and a: "in_range ps a"
    and s1: "line_start rd st = st_at (length pre) d dst fg ins fl"
  shows "rle_step ps rd white (pre @ order_encode ps (Color_Run n a) @ post) st =
    step_result ps rd white (length pre + length (order_encode ps (Color_Run n a)))
      (Color_Run n a) (st_at (length pre) d dst fg ins fl)"
proof -
  let ?h = "run_header COLOR_RUN MEGA_COLOR_RUN n"
  have px: "read_px ps (pre @ ?h @ px_bytes ps a @ post) (length pre + length ?h) = Ok a"
    using read_px_at [OF a, of "pre @ ?h"] by simp
  show ?thesis
    unfolding order_encode.simps append_assoc
    by (rule run_dispatch [OF run_header_reads [OF assms(1)] s1], simp, simp)
      (elim disjE; simp add: rle_order_def rle_color_run_def emit_n_seq step_result_def
        is_background_def put_cur_def rle_codes need_src_def px [unfolded rle_codes] add.assoc)
qed

lemma step_color_image:
  assumes "length pxs < 65536" and d: "d \<le> length dst"
    and s1: "line_start rd st = st_at (length pre) d dst fg ins fl"
  shows "rle_step ps rd white (pre @ order_encode ps (Color_Image pxs) @ post) st =
    step_result ps rd white (length pre + length (order_encode ps (Color_Image pxs)))
      (Color_Image pxs) (st_at (length pre) d dst fg ins fl)"
  unfolding order_encode.simps append_assoc
  by (rule run_dispatch [OF run_header_reads [OF assms(1)] s1], simp, simp)
    (elim disjE; simp add: rle_order_def rle_color_image_def emit_seq_image [OF d] step_result_def
      is_background_def put_cur_def rle_codes need_src_def and_then_assoc add.assoc Let_def)

lemma step_fgbg:
  assumes "n < 65536" and masks: "length masks = (n + 7) div 8"
    and s1: "line_start rd st = st_at (length pre) d dst fg ins fl"
  shows "rle_step ps rd white (pre @ order_encode ps (Fgbg None n masks) @ post) st =
    step_result ps rd white (length pre + length (order_encode ps (Fgbg None n masks)))
      (Fgbg None n masks) (st_at (length pre) d dst fg ins fl)"
proof -
  let ?h = "fgbg_header n"
  have body: "rle_fgbg_image ps rd (pre @ ?h @ masks @ post) n (st_at (length pre + length ?h) d dst fg False fl) =
      step_result ps rd white (length pre + length ?h + length masks) (Fgbg None n masks)
        (st_at (length pre) d dst fg ins fl)"
    using rle_fgbg_image_seq [OF masks, of "st_at (length pre + length ?h) d dst fg False fl" "pre @ ?h" ps rd post]
    by (simp add: step_result_def is_background_def put_cur_def)
  show ?thesis
    unfolding order_encode.simps append_assoc length_append
    by (rule run_dispatch [OF fgbg_header_reads [OF assms(1)] s1])
      (elim disjE; simp add: rle_order_def set_fg_def rle_codes body add.assoc)
qed

lemma step_set_fgbg:
  assumes "n < 65536" and masks: "length masks = (n + 7) div 8" and p: "in_range ps p"
    and s1: "line_start rd st = st_at (length pre) d dst fg ins fl"
  shows "rle_step ps rd white (pre @ order_encode ps (Fgbg (Some p) n masks) @ post) st =
    step_result ps rd white (length pre + length (order_encode ps (Fgbg (Some p) n masks)))
      (Fgbg (Some p) n masks) (st_at (length pre) d dst fg ins fl)"
proof -
  let ?h = "lite_fgbg_header n" and ?p = "px_bytes ps p"
  have body: "rle_fgbg_image ps rd (pre @ ?h @ ?p @ masks @ post) n
        (st_at (length pre + (length ?h + ps)) d dst p False fl) =
      step_result ps rd white (length pre + (length ?h + (ps + length masks))) (Fgbg (Some p) n masks)
        (st_at (length pre) d dst fg ins fl)"
    using rle_fgbg_image_seq [OF masks, of "st_at (length pre + length ?h + ps) d dst p False fl"
        "pre @ ?h @ ?p" ps rd post]
    by (simp add: step_result_def is_background_def put_cur_def add.assoc)
  have px: "read_px ps (pre @ ?h @ ?p @ masks @ post) (length pre + length ?h) = Ok p"
    using read_px_at [OF p, of "pre @ ?h"] by simp
  show ?thesis
    unfolding order_encode.simps append_assoc length_append
    by (rule run_dispatch [OF lite_fgbg_header_reads [OF assms(1)] s1])
      (elim disjE; simp add: rle_order_def set_fg_def rle_codes need_src_def body px add.assoc)
qed

lemma step_single:
  assumes "ord \<in> {Special_1, Special_2, White_Pixel, Black_Pixel}"
    and s1: "line_start rd st = st_at (length pre) d dst fg ins fl"
  shows "rle_step ps rd white (pre @ order_encode ps ord @ post) st =
    step_result ps rd white (length pre + length (order_encode ps ord)) ord
      (st_at (length pre) d dst fg ins fl)"
proof -
  have id: "code_id c = c" if "c \<in> {SPECIAL_FGBG_1, SPECIAL_FGBG_2, WHITE, BLACK}" for c
    using that by (elim insertE emptyE; simp add: code_id_def rle_codes)
  have "rle_step ps rd white (pre @ [c] @ post) st =
      rle_order ps rd white (pre @ [c] @ post) c (st_at (length pre) d dst fg ins fl)"
    if "c \<in> {SPECIAL_FGBG_1, SPECIAL_FGBG_2, WHITE, BLACK}" for c
    by (rule rle_step_dispatch) (use id [OF that] s1 in simp_all)
  note this [simplified]
  then show ?thesis
    using assms(1)
    by (elim insertE emptyE; simp add: rle_order_def rle_codes skip_header_def write_fgbg_seq
        step_result_def is_background_def put_cur_def rle_pixel_def and_then_assoc)
qed

lemma rle_step_order:
  assumes "order_ok ps ord" and "r_i st = length pre" and "r_d st \<le> length (r_dst st)"
  shows "rle_step ps rd white (pre @ order_encode ps ord @ post) st =
    step_result ps rd white (length pre + length (order_encode ps ord)) ord (line_start rd st)"
proof -
  obtain d dst fg ins fl where s1: "line_start rd st = st_at (length pre) d dst fg ins fl"
      and d: "d \<le> length dst"
    using assms(2,3) by (cases "line_start rd st", cases st) (auto simp: line_start_def split: if_splits)
  show ?thesis
    unfolding s1
    using assms(1) d
    by (cases "(ps, ord)" rule: order_encode.cases)
      (simp_all add: step_background [OF _ s1] step_foreground [OF _ s1] step_set_foreground [OF _ _ s1]
        step_dithered [OF _ _ _ s1] step_color_run [OF _ _ s1] step_fgbg [OF _ _ s1]
        step_set_fgbg [OF _ _ _ s1] step_color_image [OF _ _ s1] step_single [OF _ s1]
        del: order_encode.simps)
qed

section \<open>The decoder on a stream of orders\<close>

text \<open>The decoder's state with the image \<open>g\<close> in the buffer and the source cursor at \<open>i\<close>.\<close>

definition conc :: "nat \<Rightarrow> nat \<Rightarrow> nat \<Rightarrow> img \<Rightarrow> rle_state" where
  "conc ps N i g =
     st_at i (snd (cur_of ps N (g_out g))) (fst (cur_of ps N (g_out g))) (g_fg g) (g_ins g) (g_first g)"

definition img_good :: "nat \<Rightarrow> nat \<Rightarrow> nat \<Rightarrow> img \<Rightarrow> bool" where
  "img_good ps N w g \<longleftrightarrow>
     length (g_out g) \<le> N \<and> list_all (in_range ps) (g_out g) \<and> in_range ps (g_fg g) \<and>
     (\<not> g_first g \<longrightarrow> w \<le> length (g_out g))"

lemma px_sim_const: "in_range ps v \<Longrightarrow> px_sim ps N m (\<lambda>_ _. Ok v) (\<lambda>_. v)"
  by (simp add: px_sim_def split_beta)

lemma above_px_cur:
  assumes "0 < w" and "w \<le> length out" and "length out \<le> N" and "list_all (in_range ps) out"
  shows "above_px ps (w * ps) (fst (cur_of ps N out)) (snd (cur_of ps N out)) =
    Ok (out ! (length out - w))"
proof -
  let ?j = "length out - w"
  have j: "?j < length out" using assms by simp
  have d: "length out * ps - w * ps = ?j * ps" by (simp add: diff_mult_distrib)
  have "?j * ps + ps \<le> length out * ps"
    using j by (metis Suc_leI mult_Suc mult_le_mono1 add.commute)
  then have fits: "?j * ps + ps \<le> length (fst (cur_of ps N out))" by (simp add: cur_of_def)
  have px: "take ps (drop (?j * ps) (fst (cur_of ps N out))) = px_bytes ps (out ! ?j)"
    unfolding cur_of_def fst_conv by (rule image_bytes_pixel [OF j])
  have "in_range ps (out ! ?j)" using assms(4) j by (simp add: list_all_length)
  moreover have "w * ps \<le> length out * ps" using assms(2) by simp
  moreover have "snd (cur_of ps N out) = length out * ps" by (simp add: cur_of_def)
  ultimately show ?thesis using fits px d assms(2) by (simp add: above_px_def read_px_def not_less)
qed

lemma px_sim_bg:
  assumes "0 < w" and "\<not> first \<longrightarrow> w \<le> m"
  shows "px_sim ps N m (bg_px ps (w * ps) first) (bg_at w first)"
proof (cases first)
  case False
  then have "bg_px ps (w * ps) first (fst (cur_of ps N out)) (snd (cur_of ps N out)) = Ok (bg_at w first out) \<and>
      in_range ps (bg_at w first out)"
    if "m \<le> length out" "length out \<le> N" "list_all (in_range ps) out" for out
    using above_px_cur [OF assms(1), of out N ps] assms that
    by (simp add: bg_px_def bg_at_def list_all_length)
  then show ?thesis by (simp add: px_sim_def split_beta)
qed (simp add: px_sim_def bg_px_def bg_at_def split_beta)

lemma px_sim_fg:
  assumes "0 < w" and "\<not> first \<longrightarrow> w \<le> m" and "in_range ps fg"
  shows "px_sim ps N m (fg_px ps (w * ps) first fg) (fg_at w first fg)"
  using px_sim_bg [OF assms(1,2), of ps N] assms(3)
  by (cases first) (auto simp: px_sim_def split_beta fg_px_def fg_at_def bg_px_def bg_at_def)

lemma list_all2_replicateI: "R x y \<Longrightarrow> list_all2 R (replicate n x) (replicate n y)"
  by (simp add: list_all2_conv_all_nth)

lemma mask_sim:
  assumes "0 < w" and "\<not> first \<longrightarrow> w \<le> m" and "in_range ps fg"
  shows "list_all2 (px_sim ps N m) (mask_emit ps (w * ps) first fg b) (mask_paint w first fg b)"
  using px_sim_bg [OF assms(1,2), of ps N] px_sim_fg [OF assms, of N]
  by (auto simp: mask_emit_def mask_paint_def list_all2_conv_all_nth)

lemma list_all2_concat_map:
  "(\<And>x. list_all2 R (f x) (g x)) \<Longrightarrow> list_all2 R (concat (map f xs)) (concat (map g xs))"
  by (induction xs) (auto intro: list_all2_appendI)

lemma order_sim:
  assumes "0 < w" and "\<not> first \<longrightarrow> w \<le> m" and "in_range ps fg" and "in_range ps white"
    and "order_ok ps ord"
  shows "list_all2 (px_sim ps N m) (order_emit ps (w * ps) white first fg ins ord)
    (order_paint w white first fg ins ord)"
proof (cases ord)
  case (Fgbg p n masks)
  then show ?thesis
    using list_all2_concat_map [of "px_sim ps N m" "mask_emit ps (w * ps) first fg"
        "mask_paint w first fg" masks, OF mask_sim [OF assms(1-3)]]
    by (simp add: list_all2_takeI)
next
  case (Dithered n a b)
  then show ?thesis
    using assms(5) list_all2_concat_map [of "px_sim ps N m" "\<lambda>_. [\<lambda>_ _. Ok a, \<lambda>_ _. Ok b]" "\<lambda>_. [\<lambda>_. a, \<lambda>_. b]" "replicate n ()"]
    by (simp add: px_sim_const)
next
  case (Color_Image pxs)
  then show ?thesis
    using assms(5) by (auto simp: list_all2_conv_all_nth list_all_length intro: px_sim_const)
qed (use px_sim_bg [OF assms(1,2)] px_sim_fg [OF assms(1-3)] mask_sim [OF assms(1-3)] assms(4,5) in
  \<open>auto intro!: list_all2_replicateI px_sim_const\<close>)

lemma length_mask_paint [simp]: "length (mask_paint w first fg m) = 8"
  by (simp add: mask_paint_def)

lemma length_concat_masks: "length (concat (map (mask_paint w first fg) masks)) = 8 * length masks"
  by (induction masks) simp_all

lemma length_order_paint:
  "order_ok ps ord \<Longrightarrow> length (order_paint w white first fg ins ord) = order_len ord"
proof (cases ord)
  case (Fgbg p n masks)
  assume "order_ok ps ord"
  then have "length masks = (n + 7) div 8" using Fgbg by simp
  then have "n \<le> 8 * length masks" by linarith
  then show ?thesis using Fgbg by (simp add: length_concat_masks)
next
  case (Dithered n a b)
  then show ?thesis by (simp add: length_concat sum_list_replicate)
qed auto

lemma conc_fields: "r_i (conc ps N i g) = i" "r_d (conc ps N i g) \<le> length (r_dst (conc ps N i g))"
  by (simp_all add: conc_def cur_of_def)

lemma line_start_conc:
  assumes "0 < ps"
  shows "line_start (w * ps) (conc ps N i g) = conc ps N i (img_line w g)"
  using assms by (auto simp: line_start_def img_line_def conc_def cur_of_def)

lemma img_line_good: "img_good ps N w g \<Longrightarrow> img_good ps N w (img_line w g)"
  by (auto simp: img_good_def img_line_def)

lemma img_line_first: "img_good ps N w g \<Longrightarrow> \<not> g_first (img_line w g) \<longrightarrow> w \<le> length (g_out g)"
  by (auto simp: img_good_def img_line_def)

lemma img_line_out [simp]: "g_out (img_line w g) = g_out g" "g_fg (img_line w g) = g_fg g"
  by (simp_all add: img_line_def)

lemma new_fg_range: "order_ok ps ord \<Longrightarrow> in_range ps fg \<Longrightarrow> in_range ps (new_fg ord fg)"
  by (cases "(ord, fg)" rule: new_fg.cases) auto

lemma img_order_out_length:
  "order_ok ps ord \<Longrightarrow> length (g_out (img_order w white ord g)) = length (g_out g) + order_len ord"
  by (simp add: img_order_def Let_def length_order_paint)

lemma rle_step_conc:
  assumes g: "img_good ps N w g" and o_ok: "order_ok ps ord" and "0 < w" "0 < ps" "in_range ps white"
  shows "rle_step ps (w * ps) white (pre @ order_encode ps ord @ post) (conc ps N (length pre) g) =
      (if length (g_out g) + order_len ord \<le> N
       then Ok (conc ps N (length pre + length (order_encode ps ord)) (img_order w white ord g))
       else Panic)
    \<and> (length (g_out g) + order_len ord \<le> N \<longrightarrow> img_good ps N w (img_order w white ord g))"
proof -
  let ?g = "img_line w g" and ?fg = "new_fg ord (g_fg g)"
  let ?paint = "order_paint w white (g_first ?g) ?fg (g_ins ?g) ord"
  let ?emit = "order_emit ps (w * ps) white (g_first ?g) ?fg (g_ins ?g) ord"
  have fg: "in_range ps ?fg" using g o_ok by (simp add: img_good_def new_fg_range)
  have sim: "list_all2 (px_sim ps N (length (g_out g))) ?emit ?paint"
    by (rule order_sim) (use assms fg img_line_first [OF g] in auto)
  have len: "length ?paint = order_len ord" by (rule length_order_paint [OF o_ok])
  have emit: "emit_seq ps ?emit (cur_of ps N (g_out g)) =
      (if length (g_out g) + order_len ord \<le> N then Ok (cur_of ps N (paint ?paint (g_out g))) else Panic)"
    and range: "length (g_out g) + order_len ord \<le> N \<longrightarrow> list_all (in_range ps) (paint ?paint (g_out g))"
    using emit_seq_sim [OF sim assms(4)] g unfolding len by (simp_all add: img_good_def)
  have "rle_step ps (w * ps) white (pre @ order_encode ps ord @ post) (conc ps N (length pre) g) =
      step_result ps (w * ps) white (length pre + length (order_encode ps ord)) ord
        (conc ps N (length pre) ?g)"
    using rle_step_order [OF o_ok, of "conc ps N (length pre) g" pre "w * ps" white post]
      conc_fields [of ps N "length pre" g] unfolding line_start_conc [OF assms(4)] by blast
  also have "\<dots> = (if length (g_out g) + order_len ord \<le> N
       then Ok (conc ps N (length pre + length (order_encode ps ord)) (img_order w white ord g))
       else Panic)"
    using emit by (simp add: step_result_def conc_def img_order_def Let_def)
  finally have "rle_step ps (w * ps) white (pre @ order_encode ps ord @ post) (conc ps N (length pre) g) =
      (if length (g_out g) + order_len ord \<le> N
       then Ok (conc ps N (length pre + length (order_encode ps ord)) (img_order w white ord g))
       else Panic)" .
  moreover have "img_good ps N w (img_order w white ord g)" if "length (g_out g) + order_len ord \<le> N"
    using range that fg img_line_first [OF g] len
    by (auto simp: img_good_def img_order_def Let_def)
  ultimately show ?thesis by blast
qed

lemma order_encode_nonempty: "order_encode ps ord \<noteq> []"
  by (cases "(ps, ord)" rule: order_encode.cases)
    (simp_all add: run_header_def lite_header_def fgbg_header_def lite_fgbg_header_def)

lemma rle_loop_conc:
  assumes "list_all (order_ok ps) ords" and "img_good ps N w g"
    and "0 < w" "0 < ps" "in_range ps white"
  shows "rle_loop ps (w * ps) white (pre @ concat (map (order_encode ps) ords)) (conc ps N (length pre) g) =
    (if length (g_out g) + sum_list (map order_len ords) \<le> N
     then Ok (fst (cur_of ps N (g_out (foldl (\<lambda>g ord. img_order w white ord g) g ords))))
     else Panic)"
  using assms(1,2)
proof (induction ords arbitrary: pre g)
  case Nil
  then show ?case by (subst rle_loop.simps) (simp add: conc_def img_good_def)
next
  case (Cons ord ords)
  let ?tail = "concat (map (order_encode ps) ords)"
  let ?data = "pre @ order_encode ps ord @ ?tail"
  have o_ok: "order_ok ps ord" using Cons.prems(1) by simp
  note step = rle_step_conc [OF Cons.prems(2) o_ok assms(3-5), of pre ?tail]
  have unfold: "rle_loop ps (w * ps) white ?data (conc ps N (length pre) g) =
      and_then (rle_step ps (w * ps) white ?data (conc ps N (length pre) g))
        (\<lambda>st. rle_loop ps (w * ps) white ?data st)"
    by (subst rle_loop.simps) (simp add: conc_def order_encode_nonempty)
  show ?case
  proof (cases "length (g_out g) + order_len ord \<le> N")
    case True
    then show ?thesis
      using step unfold Cons.IH [of "img_order w white ord g" "pre @ order_encode ps ord"] Cons.prems(1)
        img_order_out_length [OF o_ok, of w white g]
      by (simp add: add.assoc)
  next
    case False
    then show ?thesis using step unfold by simp
  qed
qed

text \<open>
  The pixels of the rendered orders, then black up to the size of the image; a panic when the
  orders produce more pixels than the image has.
\<close>

lemma decompress_render:
  assumes "pixel_size bpp = Ok ps" and "0 < w" and "list_all (order_ok ps) ords"
  shows "decompress (concat (map (order_encode ps) ords)) w h bpp =
    (let n = sum_list (map order_len ords)
     in if n \<le> w * h
        then Ok (image_bytes ps (render w (white_pixel bpp) ords) @ replicate ((w * h - n) * ps) 0)
        else Panic)"
proof -
  let ?white = "white_pixel bpp" and ?N = "w * h"
  have ps: "0 < ps" using assms(1) by (auto simp: pixel_size_def split: if_splits)
  have white: "in_range ps ?white" using assms(1) by (rule in_range_white)
  have init: "rle_init (w * ps * h) ?white = conc ps ?N 0 (img_init ?white)"
    by (simp add: rle_init_def conc_def img_init_def cur_of_def ac_simps)
  have good: "img_good ps ?N w (img_init ?white)" using white by (simp add: img_good_def img_init_def)
  have len: "length (render w ?white ords) = sum_list (map order_len ords)"
  proof -
    have "length (g_out (foldl (\<lambda>g ord. img_order w ?white ord g) g ords)) =
        length (g_out g) + sum_list (map order_len ords)" for g
      using assms(3) by (induction ords arbitrary: g) (simp_all add: img_order_out_length [of ps])
    then show ?thesis by (simp add: render_def img_init_def)
  qed
  have "decompress (concat (map (order_encode ps) ords)) w h bpp =
      rle_loop ps (w * ps) ?white (concat (map (order_encode ps) ords)) (conc ps ?N 0 (img_init ?white))"
    using assms(1) init by (simp add: decompress_def Let_def)
  also have "\<dots> = (if sum_list (map order_len ords) \<le> ?N
      then Ok (fst (cur_of ps ?N (render w ?white ords))) else Panic)"
    using rle_loop_conc [OF assms(3) good assms(2) ps white, of "[]"]
    by (simp add: img_init_def render_def)
  finally show ?thesis by (simp add: cur_of_def len Let_def)
qed

end
