(* ===== verification/Samples.thy ===== *)
theory Samples
  imports Session_Spec Egfx Dvc Vchannel Rle_Spec "HOL-Library.Code_Target_Nat"
begin

text \<open>
  Concrete values at which the properties are exercised: digests of the right size, one user's
  entropy and certificate, and the messages of a server that accepts a session and offers a UDP
  side-band on the way.
\<close>

section \<open>Primitives, entropy, certificate\<close>

definition sample_primitives :: primitives where
  "sample_primitives =
     \<lparr>p_md4 = pad_to 16, p_md5 = (\<lambda>d. pad_to 16 (rev d)), p_hmac_md5 = (\<lambda>k d. pad_to 16 (rev d @ k)),
      p_sha256 = (\<lambda>d. pad_to 32 (rev d)), p_keystream = (\<lambda>k i. of_nat (length k + i)), p_uppercase = (\<lambda>u. u)\<rparr>"

lemma sized_sample [simp]: "sized sample_primitives"
  by (auto simp: sized_def sample_primitives_def pad_to_def min_def)

definition sample_entropy :: entropy where
  "sample_entropy =
     \<lparr>e_client_challenge = replicate 8 0xAA, e_nonce = replicate 32 7, e_exported_session_key = replicate 16 0x55\<rparr>"

definition sample_params :: session_params where
  "sample_params = (session_params_new (rstr ''host'') (rstr ''User'') (rstr ''Password''))\<lparr>sp_width := 4, sp_height := 3\<rparr>"

definition sample_cert :: x509 where
  "sample_cert =
     \<lparr>x_version = Some [0x02, 0x01, 0x02], x_fields = [(0x02, [5]), (0x30, []), (0x30, []), (0x30, []), (0x30, [])],
      x_algorithm = [0x05, 0x00], x_unused_bits = 0, x_key = [0x30, 3, 2, 1, 7], x_tbs_rest = [], x_signature = []\<rparr>"

definition sample_challenge :: challenge_message where
  "sample_challenge =
     \<lparr>c_flags = client_flags, c_server_challenge = [1, 0x23, 0x45, 0x67, 0x89, 0xab, 0xcd, 0xef],
      c_target_name = [], c_target_info = av_encode [(AV_TIMESTAMP, [1, 2, 3, 4, 5, 6, 7, 8])]\<rparr>"

section \<open>A server's side of the connection sequence\<close>

definition sample_net :: server_network_data where
  "sample_net = \<lparr>sn_io_channel_id = 1003, sn_channel_ids = [1004], sn_message_channel_id = None\<rparr>"

definition sample_offer :: initiate_request where
  "sample_offer = \<lparr>ir_request_id = 1, ir_requested_protocol = PROTOCOL_UDPFECR, ir_security_cookie = replicate 16 9\<rparr>"

definition sample_demand :: demand_active where
  "sample_demand = \<lparr>da_share_id = 0x000103EA, da_capability_sets = [(1, [0, 1, 2, 3])]\<rparr>"

definition indication :: "bytes \<Rightarrow> bytes" where
  "indication = send_data_indication_pdu 1 1003 0x70"

definition sample_final_pdus :: "bytes list" where
  "sample_final_pdus =
     map (\<lambda>ty. share_data 1002 0x000103EA ty [1, 0, 0xEA, 3])
       [PDUTYPE2_SYNCHRONIZE, PDUTYPE2_CONTROL, PDUTYPE2_CONTROL, PDUTYPE2_FONTMAP]"

definition sample_server :: server_run where
  "sample_server =
     (let blocks = ud_block SC_NET (sc_net_body 1003 [1004])
      in \<lparr>sv_connect = connect_response_pdu 0 0 [] (0 # H221_SERVER_KEY @ per_write_length (length blocks) @ blocks),
          sv_net = sample_net,
          sv_attach = attach_user_confirm_pdu 6,
          sv_user = 1007,
          sv_confirms = map (\<lambda>c. channel_join_confirm_pdu 6 c c) [1007, 1003, 1004],
          sv_confirmed = [1007, 1003, 1004],
          sv_strays = [indication (initiate_request_body sample_offer 0)],
          sv_offer = Some sample_offer,
          sv_demand = indication (share_control PDUTYPE_DEMANDACTIVE 1002
            (demand_active_body 0x000103EA [0x52, 0x44, 0x50, 0] [(1, [0, 1, 2, 3])])),
          sv_demand_parsed = sample_demand,
          sv_finals = map indication sample_final_pdus,
          sv_final_pdus = sample_final_pdus\<rparr>)"

lemma sample_honest: "honest_server True sample_server"
  by code_simp

lemma sample_client_ok: "client_ok (login_client sample_params sample_entropy sample_cert)"
  by code_simp

lemma sample_x509_ok: "x509_ok sample_cert"
  by code_simp

lemma sample_server_ok: "server_ok sample_challenge"
  by code_simp

lemma sample_server_fits: "list_all tls_fits (server_messages sample_server)"
  by code_simp

lemma sample_client_fits: "list_all tls_fits (client_messages (session_cfg sample_params PROTO_HYBRID) sample_server)"
  by code_simp

lemma sample_cr_fits: "length (cr_bytes (PROTO_SSL OR PROTO_HYBRID) (Some (sp_username sample_params))) + 4 \<le> 65535"
  by code_simp

lemma sample_connect_ok:
  "connect_ok True sample_primitives sample_entropy sample_params sample_cert PROTO_HYBRID sample_challenge sample_server"
  by (simp add: connect_ok_def sample_honest sample_client_ok sample_x509_ok sample_server_ok sample_server_fits
      sample_client_fits sample_cr_fits [simplified])

end
