(* ===== verification/Security_Props.thy ===== *)
theory Security_Props
  imports Samples
begin

text \<open>
  The properties of network level authentication: the messages, the sealed channel, the CredSSP
  exchange and the release of the credentials.
\<close>

abbreviation sample_client :: credssp_client where
  "sample_client \<equiv> login_client sample_params sample_entropy sample_cert"

abbreviation sample_challenged :: credssp_client where
  "sample_challenged \<equiv>
     snd (process_challenge sample_primitives (server_challenge_request sample_challenge) (snd (nla_start sample_client)))"

abbreviation sample_reply :: bytes where
  "sample_reply \<equiv> nla_reply sample_primitives sample_challenge sample_client"

lemma sample_exchange:
  obtains pka sctx out c' where "process_pubkey sample_primitives sample_reply sample_challenged = (Ok out, c')"
    and "nla_answer sample_primitives sample_challenge sample_client = Ok (sample_reply, sctx)"
    and "server_credentials sample_primitives out sctx = Ok (ts_credentials_password (client_creds sample_client))"
  by (rule nla_messages [OF sized_sample sample_client_ok sample_server_ok]) auto

section \<open>Credentials\<close>

text \<open>
  C3: the client releases the password only to the holder of the key of the TLS certificate.
  Whatever the peer sent, if \<open>process_pubkey\<close> returns a message then the peer's TSRequest
  carried no error, its pubKeyAuth opened in the session's sealed context to exactly the
  server-direction binding hash of the client's nonce and the certificate's key, and the message
  is the sealed TSCredentials and nothing else.
\<close>

theorem credentials_only_to_verified_server:
  assumes "process_pubkey P b c = (Ok out, c')"
  shows "\<exists>q sealed ctx ctx'. ts_request_decode b = Ok q \<and> ts_error_code q \<in> {None, Some 0} \<and>
    ts_pub_key_auth q = Some sealed \<and> k_security c = Some ctx \<and>
    unseal P sealed ctx =
      (Ok (server_client_binding_hash P (e_nonce (k_entropy c)) (k_server_public_key c)), ctx') \<and>
    out = ts_request_encode ((ts_request_new CREDSSP_VERSION)
      \<lparr>ts_auth_info := Some (fst (seal P (ts_credentials_password (client_creds c)) ctx'))\<rparr>)"
proof -
  obtain q sealed where q: "ts_request_decode b = Ok q" "ts_error_code q \<in> {None, Some 0}"
      "ts_pub_key_auth q = Some sealed" "release_credentials P sealed c = (Ok out, c')"
    using process_pubkey_Ok [OF assms] by blast
  with release_credentials_Ok [OF q(4)] show ?thesis by blast
qed

theorem credentials_only_to_verified_server_witness:
  "\<exists>out c' sealed ctx ctx'.
     process_pubkey sample_primitives sample_reply sample_challenged = (Ok out, c') \<and>
     k_security sample_challenged = Some ctx \<and>
     unseal sample_primitives sealed ctx =
       (Ok (server_client_binding_hash sample_primitives (e_nonce (k_entropy sample_challenged))
             (k_server_public_key sample_challenged)), ctx')"
proof (rule sample_exchange)
  fix out c' assume "process_pubkey sample_primitives sample_reply sample_challenged = (Ok out, c')"
  with credentials_only_to_verified_server [OF this] show ?thesis by blast
qed

text \<open>
  C14: a server that proves itself with another key gets nothing. If the peer holds the sealed
  context but the hash it seals is not that of the certificate's key (a relay that presents its
  own certificate), the client stops with the mismatch error.
\<close>

theorem relayed_key_rejected:
  assumes "sized P" and "k_security c = Some ctx" and "in_step s ctx" and "seal P h s = (pka, s')" and "small pka"
    and "h \<noteq> server_client_binding_hash P (e_nonce (k_entropy c)) (k_server_public_key c)"
  shows "fst (process_pubkey P (ts_request_encode ((ts_request_new CREDSSP_VERSION)\<lparr>ts_pub_key_auth := Some pka\<rparr>)) c) =
    Err (Protocol ''server pubKeyAuth binding hash mismatch'')"
  by (rule process_pubkey_mismatch [OF assms])

theorem relayed_key_rejected_witness:
  "fst (process_pubkey sample_primitives (ts_request_encode ((ts_request_new CREDSSP_VERSION)
       \<lparr>ts_pub_key_auth := Some (fst (seal sample_primitives [1, 2, 3] (security_context_new sample_primitives Server [7])))\<rparr>))
     (sample_client\<lparr>k_security := Some (security_context_new sample_primitives Client [7])\<rparr>)) =
   Err (Protocol ''server pubKeyAuth binding hash mismatch'')"
proof -
  let ?s = "security_context_new sample_primitives Server [7]"
  obtain pka s' where seal: "seal sample_primitives [1, 2, 3] ?s = (pka, s')" by fastforce
  have "length pka = 16 + 3" using length_seal [OF sized_sample seal] by simp
  then have "small pka" by (simp add: small_def)
  moreover have "[1, 2, 3] \<noteq> server_client_binding_hash sample_primitives n k" for n k
  proof
    assume "[1, 2, 3] = server_client_binding_hash sample_primitives n k"
    from arg_cong [where f = length, OF this] show False
      by (simp add: server_client_binding_hash_def binding_hash_def)
  qed
  ultimately show ?thesis
    using relayed_key_rejected [OF sized_sample _ roles_in_step(2) seal,
        where c = "sample_client\<lparr>k_security := Some (security_context_new sample_primitives Client [7])\<rparr>"]
    by (simp add: seal)
qed

text \<open>
  C4: the CredSSP exchange completes over any byte stream. Against a server that knows the
  password and holds the certificate's key, \<open>run_nla_inner\<close> consumes exactly the server's two
  TSRequests, writes exactly the client's three messages and succeeds; and the server opens the
  last one to the TSCredentials of the user.
\<close>

theorem nla_completes:
  assumes "sized P" and "client_ok c" and "server_ok ch" and "ms_in s = nla_pending P ch c @ r"
  shows "run_nla_inner P mem_read mem_write c s =
      (Ok (), s\<lparr>ms_in := r, ms_out := ms_out s @ concat (nla_sent P ch c)\<rparr>) \<and>
    length (nla_sent P ch c) = 3 \<and>
    nla_received P ch c (last (nla_sent P ch c)) = Ok (ts_credentials_password (client_creds c))"
proof -
  obtain t where t: "run_nla_inner P mem_read mem_write c s = (Ok (), t)" "ms_in t = r"
      "ms_out t = ms_out s @ concat (nla_sent P ch c)"
    using mem.run_nla_inner_honest [OF assms] by blast
  then have "t = s\<lparr>ms_in := r, ms_out := ms_out s @ concat (nla_sent P ch c)\<rparr>" by simp
  moreover have "length (nla_sent P ch c) = 3" by (simp add: nla_sent_def split_beta)
  ultimately show ?thesis using t(1) nla_sent_credentials [OF assms(1-3)] by simp
qed

theorem nla_completes_witness:
  "fst (run_nla_inner sample_primitives mem_read mem_write sample_client
     \<lparr>ms_in = nla_pending sample_primitives sample_challenge sample_client @ [9], ms_out = []\<rparr>) = Ok ()"
  using nla_completes [OF sized_sample sample_client_ok sample_server_ok,
      of "\<lparr>ms_in = nla_pending sample_primitives sample_challenge sample_client @ [9], ms_out = []\<rparr>" "[9]"]
  by simp

text \<open>
  The identity of a login never changes. Whatever sequence of steps a peer drives the client
  through, the names, the password, the key of the certificate, the nonces and the flags are
  those the client was created with.
\<close>

theorem nla_identity_invariant:
  assumes "nla_reachable P c0 c"
  shows "same_identity c0 c"
  using assms by (rule nla_reachable_identity)

theorem nla_identity_invariant_witness:
  "same_identity sample_client (snd (process_challenge sample_primitives [0x30, 0] (snd (nla_start sample_client))))"
proof (rule nla_identity_invariant)
  obtain o0 c1 where c1: "nla_start sample_client = (o0, c1)" by fastforce
  obtain r c2 where c2: "process_challenge sample_primitives [0x30, 0] c1 = (r, c2)" by fastforce
  show "nla_reachable sample_primitives sample_client
      (snd (process_challenge sample_primitives [0x30, 0] (snd (nla_start sample_client))))"
    using nla_reachable.step [OF nla_reachable.step [OF nla_reachable.init nla_step.start [OF c1]]
        nla_step.challenge [OF c2]] by (simp add: c1 c2)
qed

section \<open>The sealed channel\<close>

text \<open>
  C13: sealed messages arrive. Two contexts derived from one session key, one per role, deliver
  every message of every conversation, in whatever order the two sides speak; keystream and
  sequence numbers stay in step.
\<close>

theorem sealed_conversation_delivers:
  assumes "sized P"
  shows "converse (seal P) (unseal P) ms (security_context_new P Client key) (security_context_new P Server key)
    = map (\<lambda>(d, m). Ok m) ms"
  by (rule sealed_conversation [OF assms])

theorem sealed_conversation_delivers_witness:
  "converse (seal sample_primitives) (unseal sample_primitives) [(True, [1, 2]), (False, []), (True, [3])]
     (security_context_new sample_primitives Client [7]) (security_context_new sample_primitives Server [7])
   = [Ok [1, 2], Ok [], Ok [3]]"
  using sealed_conversation_delivers [OF sized_sample, of "[(True, [1, 2]), (False, []), (True, [3])]" "[7]"] by simp

text \<open>
  C32: a message whose checksum was tampered with is refused: for every other value of the eight
  checksum bytes, \<open>unseal\<close> returns the mismatch error.
\<close>

theorem tampered_checksum_rejected:
  assumes "sized P" and "in_step x y" and "seal P m x = (put_u32_le v @ cs @ rest, x')" and "length cs = 8"
    and "length cs' = 8" and "cs' \<noteq> cs"
  shows "fst (unseal P (put_u32_le v @ cs' @ rest) y) = Err (Protocol ''NTLM message signature mismatch'')"
  by (rule unseal_wrong_checksum [OF assms])

theorem tampered_checksum_rejected_witness:
  "\<exists>cs rest x' cs'. seal sample_primitives [1, 2] (security_context_new sample_primitives Client [7]) =
     (put_u32_le 1 @ cs @ rest, x') \<and> cs' \<noteq> cs \<and>
     fst (unseal sample_primitives (put_u32_le 1 @ cs' @ rest) (security_context_new sample_primitives Server [7])) =
       Err (Protocol ''NTLM message signature mismatch'')"
proof -
  let ?c = "security_context_new sample_primitives Client [7]"
  obtain ct h where a: "apply_keystream sample_primitives (own_seal ?c) [1, 2] = (ct, h)" by fastforce
  obtain cs h' where b: "checksum sample_primitives (own_signing ?c) (send_seq ?c) [1, 2] h = (cs, h')" by fastforce
  have cs: "length cs = 8" using checksum_length [OF sized_sample b] .
  define x' where "x' = ?c\<lparr>own_seal := h', send_seq := send_seq ?c + 1\<rparr>"
  have s: "seal sample_primitives [1, 2] ?c = (put_u32_le 1 @ cs @ (put_u32_le (send_seq ?c) @ ct), x')"
    using a b by (simp add: seal_def x'_def)
  have "map (\<lambda>b. b + 1) cs \<noteq> cs" using cs by (cases cs) auto
  moreover have "length (map (\<lambda>b. b + 1) cs) = 8" using cs by simp
  ultimately show ?thesis
    using tampered_checksum_rejected [OF sized_sample roles_in_step(1) s cs, of "map (\<lambda>b. b + 1) cs"] s by blast
qed

section \<open>NTLM messages\<close>

text \<open>
  C33: the three NTLM messages and the target information survive encoding and decoding, with
  every field read back through its security buffer.
\<close>

theorem ntlm_messages_roundtrip:
  assumes "case n_version n of None \<Rightarrow> True | Some v \<Rightarrow> length v = 8 \<and> flag_has (n_flags n) F_VERSION"
    and "challenge_ok ch" and "auth_ok a" and "list_all (\<lambda>(i, v). i \<noteq> AV_EOL \<and> length v < 65536) pairs"
  shows "negotiate_decode (negotiate_encode n) = Ok n \<and> challenge_decode (challenge_encode ch) = Ok ch \<and>
    authenticate_decode (authenticate_encode a) = Ok a \<and> parse_av_pairs (av_encode pairs) = pairs"
  using negotiate_roundtrip [OF assms(1)] challenge_roundtrip [OF assms(2)] authenticate_roundtrip [OF assms(3)]
    parse_av_encode [OF assms(4)] by blast

theorem ntlm_messages_roundtrip_witness:
  "negotiate_decode (negotiate_encode \<lparr>n_flags = client_flags, n_version = Some NTLM_VERSION\<rparr>) =
     Ok \<lparr>n_flags = client_flags, n_version = Some NTLM_VERSION\<rparr> \<and>
   challenge_decode (challenge_encode sample_challenge) = Ok sample_challenge \<and>
   authenticate_decode (authenticate_encode (authenticate_for sample_primitives [] sample_challenge sample_client)) =
     Ok (authenticate_for sample_primitives [] sample_challenge sample_client) \<and>
   parse_av_pairs (av_encode [(AV_TIMESTAMP, [1, 2])]) = [(AV_TIMESTAMP, [1, 2])]"
proof (rule ntlm_messages_roundtrip)
  show "challenge_ok sample_challenge" using sample_server_ok by (simp add: server_ok_def)
  show "auth_ok (authenticate_for sample_primitives [] sample_challenge sample_client)"
    by (rule authenticate_for_ok [OF sized_sample sample_client_ok sample_server_ok])
qed (simp_all add: NTLM_VERSION_def flag_has_def client_flags_def flag_with_def ntlm_flags AV_TIMESTAMP_def AV_EOL_def)

text \<open>
  C34: exactly when a CHALLENGE panics. With a good signature and type the decoder reads the
  first descriptor and the flags, and later the second descriptor, without a length check: it
  panics iff fewer than 12, or 28 to 35, bytes follow the type; in particular a server that
  sends the twelve bytes alone in a TSRequest aborts the client in the middle of CredSSP.
\<close>

theorem truncated_challenge_panics:
  "(challenge_decode msg = Panic \<longleftrightarrow>
     (\<exists>rest. check_signature msg 2 = Ok rest \<and> (length rest < 12 \<or> 28 \<le> length rest \<and> length rest < 36))) \<and>
   process_challenge P
     (ts_request_encode ((ts_request_new CREDSSP_VERSION)\<lparr>ts_nego_tokens := [SIGNATURE @ put_u32_le 2]\<rparr>)) c = (Panic, c)"
  using challenge_decode_Panic process_challenge_truncated by blast

text \<open>
  C35: a TSRequest survives encoding and decoding, with any number of tokens (up to 63) and any
  subset of its optional fields, and whatever follows it in the buffer; and no input makes the
  decoder panic.
\<close>

theorem ts_request_roundtrips:
  assumes "ts_request_ok q"
  shows "ts_request_decode (ts_request_encode q @ rest) = Ok q \<and> ts_request_decode b \<noteq> Panic"
  using ts_request_roundtrip [OF assms] ts_request_decode_no_panic by blast

theorem ts_request_roundtrips_witness:
  "ts_request_decode (ts_request_encode \<lparr>ts_version = 6, ts_nego_tokens = [[1], [2, 3]], ts_auth_info = None,
       ts_pub_key_auth = Some [4], ts_error_code = Some 5, ts_client_nonce = Some (replicate 32 0)\<rparr> @ [1]) =
   Ok \<lparr>ts_version = 6, ts_nego_tokens = [[1], [2, 3]], ts_auth_info = None,
       ts_pub_key_auth = Some [4], ts_error_code = Some 5, ts_client_nonce = Some (replicate 32 0)\<rparr>"
  by (rule conjunct1 [OF ts_request_roundtrips]) (simp add: ts_request_ok_def small_def)

end
