(* ===== verification/Display_Spec.thy ===== *)
theory Display_Spec
  imports Display Rle_Spec
begin

text \<open>
  What an update shows, stated over the wire: which payloads the dirty flag reports, the pixels a
  rectangle paints in terms of the bounds and the row layout of TS_BITMAP_DATA, and the updates
  that end a session. Where the notes on the graphics PDUs (\<open>SPEC-NOTES-graphics.md\<close>) and the
  code part, the lemmas say what the code does.
\<close>

section \<open>The dirty flag\<close>

definition picture :: "display \<Rightarrow> framebuffer \<times> cursor option \<times> u16 \<times> u16" where
  "picture d = (d_framebuffer d, d_cursor d, cursor_pos d)"

definition rect_paints :: "bitmap_rect \<Rightarrow> bool" where
  "rect_paints r = (case rect_rgba r of Ok rgba \<Rightarrow> True | _ \<Rightarrow> False)"

definition paints_rectangle :: "u8 \<times> bytes \<Rightarrow> bool" where
  "paints_rectangle p \<longleftrightarrow> fst p = UPDATETYPE_BITMAP \<and>
     (case parse_bitmap_update (snd p) of Ok rects \<Rightarrow> list_ex rect_paints rects | _ \<Rightarrow> False)"

definition pointer_code :: "u8 \<Rightarrow> bool" where
  "pointer_code c \<longleftrightarrow> c = UPDATETYPE_COLOR \<or> c = UPDATETYPE_POINTER \<or> c = UPDATETYPE_PTR_POSITION \<or>
     c = UPDATETYPE_PTR_NULL"

definition changes_cursor :: "u8 \<times> bytes \<Rightarrow> bool" where
  "changes_cursor p \<longleftrightarrow> pointer_code (fst p) \<and> (fst p = UPDATETYPE_PTR_POSITION \<longrightarrow> 4 \<le> length (snd p))"

text \<open>No operation clears the flag, and nothing visible changes without it.\<close>

definition marked :: "display \<Rightarrow> display \<Rightarrow> bool" where
  "marked d d' \<longleftrightarrow> (dirty d \<longrightarrow> dirty d') \<and> (dirty d' \<or> picture d' = picture d)"

lemma marked_refl [simp]: "marked d d"
  by (simp add: marked_def)

lemma marked_trans: "marked a b \<Longrightarrow> marked b c \<Longrightarrow> marked a c"
  by (auto simp: marked_def)

lemma paint_rects_marked: "marked d (snd (paint_rects da rects d))"
proof (induction da rects d rule: paint_rects.induct)
  case (2 da rect rects d)
  show ?case
  proof (cases "apply_rect da rect (d_framebuffer d)")
    case (Ok fb)
    have "marked d (d\<lparr>d_framebuffer := fb, dirty := True\<rparr>)" by (simp add: marked_def)
    from marked_trans [OF this 2(1) [OF Ok]] Ok show ?thesis by simp
  qed (use 2(2) in simp_all)
qed simp

lemma process_marked: "marked d (snd (process da c data d))"
  using paint_rects_marked
  by (simp add: process_def io_bind_def io_lift_def io_ok_def marked_def picture_def split: result.split)

lemma process_all_marked: "marked d (snd (process_all da ps d))"
proof (induction da ps d rule: process_all.induct)
  case (2 da c data ps d)
  have step: "marked d (snd (process da c data d))" by (rule process_marked)
  show ?case
    using 2 step by (cases "process da c data d"; cases "fst (process da c data d)")
      (auto simp: io_bind_def intro: marked_trans)
qed simp

lemma marked_shown [simp]: "marked (shown d) (shown d') = marked d d'"
  by (simp add: marked_def picture_def shown_def)

lemma display_apply_all_marked: "marked d (snd (display_apply_all da us d))"
proof -
  have "shown (snd (display_apply_all da us d)) =
      snd (process_all da (completed (frag d, frag_code d) us) (shown d))"
    by (simp add: display_apply_all_completed [symmetric])
  then show ?thesis using process_all_marked [of "shown d"] by (metis marked_shown)
qed

text \<open>A sequence that ends well sets the flag exactly when one of its payloads shows something.\<close>

lemma paint_rects_reports:
  "display_ok d \<Longrightarrow> paint_rects da rects d = (Ok (), d') \<Longrightarrow> dirty d' = (dirty d \<or> list_ex rect_paints rects)"
proof (induction da rects d rule: paint_rects.induct)
  case (2 da rect rects d)
  have fb: "fb_ok (d_framebuffer d)" using 2(3) by (simp add: display_ok_def)
  have paints: "rect_paints rect = (\<exists>fb. apply_rect da rect (d_framebuffer d) = Ok fb)"
    using apply_rect_spec [OF fb, of rect _ da]
    by (cases "rect_rgba rect") (auto simp: rect_paints_def apply_rect_def)
  show ?case
  proof (cases "apply_rect da rect (d_framebuffer d)")
    case (Ok fb')
    have "display_ok (d\<lparr>d_framebuffer := fb', dirty := True\<rparr>)"
      using apply_rect_ok [OF fb Ok] 2(3) by (simp add: display_ok_def)
    then show ?thesis using 2 Ok paints by simp
  qed (use 2 paints in simp_all)
qed simp

lemma process_reports:
  assumes "display_ok d" and "process da c data d = (Ok (), d')"
  shows "dirty d' = (dirty d \<or> paints_rectangle (c, data) \<or> changes_cursor (c, data))"
  using assms paint_rects_reports [OF assms(1)]
  by (auto simp: process_def io_bind_def io_lift_def io_ok_def paints_rectangle_def changes_cursor_def
      pointer_code_def update_types split: if_splits result.splits)

lemma process_all_reports:
  "display_ok d \<Longrightarrow> process_all da ps d = (Ok (), d') \<Longrightarrow>
   dirty d' = (dirty d \<or> list_ex (\<lambda>p. paints_rectangle p \<or> changes_cursor p) ps)"
proof (induction da ps d rule: process_all.induct)
  case (2 da c data ps d)
  obtain r d1 where p: "process da c data d = (r, d1)" by fastforce
  with 2(3) obtain u where r: "r = Ok u" by (cases r) auto
  have "display_ok d1" using process_ok [OF 2(2) p] by simp
  then show ?case
    using 2(1) [of d1] 2(3) p process_reports [OF 2(2), of da c data d1] r by auto
qed simp

lemma display_apply_all_reports:
  assumes "display_ok d" and "display_apply_all da us d = (Ok (), d')"
  shows "dirty d' = (dirty d \<or>
    list_ex (\<lambda>p. paints_rectangle p \<or> changes_cursor p) (completed (frag d, frag_code d) us))"
proof -
  have "process_all da (completed (frag d, frag_code d) us) (shown d) = (Ok (), shown d')"
    by (simp add: display_apply_all_completed [symmetric] assms(2))
  from process_all_reports [OF _ this] assms(1) show ?thesis by (simp only: display_ok_shown) (simp add: shown_def)
qed

lemma no_pointer_list_ex:
  "list_all (\<lambda>p. \<not> pointer_code (fst p)) ps \<Longrightarrow>
   list_ex (\<lambda>p. paints_rectangle p \<or> changes_cursor p) ps = list_ex paints_rectangle ps"
  by (induction ps) (auto simp: changes_cursor_def)

lemma display_apply_all_paints:
  assumes "display_ok d" and "display_apply_all da us (d\<lparr>dirty := False\<rparr>) = (res, d')"
  shows "(d_framebuffer d' \<noteq> d_framebuffer d \<longrightarrow> dirty d') \<and>
    (res = Ok () \<and> list_all (\<lambda>p. \<not> pointer_code (fst p)) (completed (frag d, frag_code d) us) \<longrightarrow>
       dirty d' = list_ex paints_rectangle (completed (frag d, frag_code d) us))"
proof -
  have "marked (d\<lparr>dirty := False\<rparr>) d'" using display_apply_all_marked [of "d\<lparr>dirty := False\<rparr>" da us] assms(2) by simp
  moreover have "display_ok (d\<lparr>dirty := False\<rparr>)" using assms(1) by (simp add: display_ok_def)
  ultimately show ?thesis
    using display_apply_all_reports [of "d\<lparr>dirty := False\<rparr>" da us d'] assms(2)
    by (auto simp: marked_def picture_def no_pointer_list_ex)
qed

section \<open>The pixels of a rectangle\<close>

text \<open>
  A rectangle of the wire names the inclusive bounds it repaints, and the rows of its raw data
  start at multiples of four bytes (TS_BITMAP_DATA). The source reads neither the right nor the
  bottom bound and takes rows to be packed. The two agree on the rectangles below: those whose
  bounds have the size of the image and whose packed rows are aligned as they are.
\<close>

definition box_fits :: "wire_rect \<Rightarrow> bool" where
  "box_fits w \<longleftrightarrow>
     unat (w_right w) + 1 = unat (dest_left (w_rect w)) + unat (r_width (w_rect w)) \<and>
     unat (w_bottom w) + 1 = unat (dest_top (w_rect w)) + unat (r_height (w_rect w))"

definition in_box :: "wire_rect \<Rightarrow> nat \<Rightarrow> nat \<Rightarrow> bool" where
  "in_box w x y \<longleftrightarrow> unat (dest_left (w_rect w)) \<le> x \<and> x \<le> unat (w_right w) \<and>
     unat (dest_top (w_rect w)) \<le> y \<and> y \<le> unat (w_bottom w)"

definition align4 :: "nat \<Rightarrow> nat" where
  "align4 n = (n + 3) div 4 * 4"

definition rows_aligned :: "bitmap_rect \<Rightarrow> bool" where
  "rows_aligned r \<longleftrightarrow> compressed r \<or>
     (case bytes_per_pixel (bits_per_pixel r) of Ok n \<Rightarrow> 4 dvd unat (r_width r) * n | _ \<Rightarrow> True)"

text \<open>The offset of a pixel in bottom-up data with padded rows of \<open>n\<close> bytes per pixel.\<close>

definition dib_offset :: "bitmap_rect \<Rightarrow> nat \<Rightarrow> nat \<Rightarrow> nat \<Rightarrow> nat" where
  "dib_offset r n x y =
     (unat (r_height r) - 1 - y) * align4 (unat (r_width r) * n) + x * n"

lemma align4_dvd: "4 dvd n \<Longrightarrow> align4 n = n"
  by (auto simp: align4_def elim!: dvdE)

lemma in_rows_box:
  assumes "box_fits w"
  shows "in_rows fb (unat (dest_left (w_rect w))) (unat (dest_top (w_rect w)))
      (unat (r_width (w_rect w))) 0 (unat (r_height (w_rect w))) i =
    in_box w (px_x (fb_width fb) i) (px_y (fb_width fb) i)"
  using assms by (auto simp: in_rows_def Let_def in_box_def box_fits_def)

lemma process_one_rect:
  assumes "wire_rect_ok w"
  shows "process da UPDATETYPE_BITMAP (bitmap_update_encode ty [w]) d = paint_rects da [w_rect w] d"
  using parse_bitmap_update_encode [of "[w]" ty] assms
  by (simp add: process_def io_bind_def io_lift_def)

lemma channel_offset:
  assumes "j < 4" and "x < w"
  shows "px_x w ((y * w + x) * 4 + j) = x" "px_y w ((y * w + x) * 4 + j) = y" "((y * w + x) * 4 + j) mod 4 = j"
proof -
  have "((y * w + x) * 4 + j) div 4 = y * w + x" "((y * w + x) * 4 + j) mod 4 = j"
    using assms(1) by (simp_all only: add.commute [of _ j] div_mult_self1 mod_mult_self1) simp_all
  then show "px_x w ((y * w + x) * 4 + j) = x" "px_y w ((y * w + x) * 4 + j) = y" "((y * w + x) * 4 + j) mod 4 = j"
    using assms(2) by (simp_all add: px_x_def px_y_def)
qed

lemma raw_rect_bytes:
  assumes "rect_rgba r = Ok rgba" and "\<not> compressed r" and "rows_aligned r"
    and "bits_per_pixel r = 24 \<and> n = 3 \<or> bits_per_pixel r = 32 \<and> n = 4"
    and "x < unat (r_width r)" and "y < unat (r_height r)"
  shows "take 4 (drop ((y * unat (r_width r) + x) * 4) rgba) =
    (let k = dib_offset r n x y in [r_data r ! (k + 2), r_data r ! (k + 1), r_data r ! k, 255])"
proof -
  let ?w = "unat (r_width r)" and ?h = "unat (r_height r)" and ?bpp = "bits_per_pixel r"
  have n: "bytes_per_pixel ?bpp = Ok n" using assms(4) by (auto simp: bytes_per_pixel_def)
  have raw: "to_rgba (r_data r) ?w ?h ?bpp = Ok rgba" using assms(1,2) by (simp add: rect_rgba_def Let_def)
  then have len: "?w * n * ?h \<le> length (r_data r)"
    using n by (auto simp: to_rgba_def and_then_eq_Ok Let_def)
  have rgba: "rgba = flipped_rgba (r_data r) ?w ?h n ?bpp" using to_rgba_flipped [OF n len] raw by simp
  have stride: "align4 (?w * n) = ?w * n" using assms(2,3) n by (simp add: rows_aligned_def align4_dvd)
  let ?k = "(?h - 1 - y) * ?w + x" and ?p = "y * ?w + x"
  have off: "dib_offset r n x y = ?k * n" by (simp only: dib_offset_def stride add_mult_distrib mult.assoc)
  have "?p < (y + 1) * ?w" "?k < (?h - 1 - y + 1) * ?w" using assms(5) by simp_all
  moreover have "(y + 1) * ?w \<le> ?h * ?w" "(?h - 1 - y + 1) * ?w \<le> ?h * ?w"
    using assms(6) by (intro mult_right_mono; simp)+
  ultimately have p: "?p < ?h * ?w" and k: "?k + 1 \<le> ?h * ?w" by linarith+
  from k have "(?k + 1) * n \<le> ?h * ?w * n" by (rule mult_right_mono) simp
  then have kn: "?k * n + n \<le> length (r_data r)" using len by (simp add: algebra_simps)
  have px: "px_colour ?bpp (px_at (r_data r) n ?k) =
      (r_data r ! (?k * n + 2), r_data r ! (?k * n + 1), r_data r ! (?k * n))"
    using assms(4) kn by (auto simp: px_colour_def px_at_def)
  have "rgba ! (?p * 4 + j) = rgba_of (px_colour ?bpp (px_at (r_data r) n ?k)) ! j" if "j < 4" for j
  proof -
    have "?p * 4 + j < ?w * ?h * 4" using p that by (simp add: mult.commute)
    then show ?thesis unfolding rgba by (simp only: flipped_rgba_nth channel_offset [OF that assms(5)])
  qed
  moreover have "length rgba = ?w * ?h * 4" by (rule rect_rgba_length [OF assms(1)])
  ultimately show ?thesis
    using p unfolding px off Let_def
    by (intro nth_equalityI) (auto simp: rgba_of_def mult.commute less_Suc_eq numeral_nat)
qed

text \<open>A rectangle whose bounds fit fills them, as far as they lie in the framebuffer.\<close>

lemma process_fills_box:
  assumes "display_ok d" and "wire_rect_ok w" and "box_fits w" and "rect_rgba (w_rect w) = Ok rgba"
  shows "\<exists>pixels. process da UPDATETYPE_BITMAP (bitmap_update_encode ty [w]) d =
      (Ok (), d\<lparr>d_framebuffer := (d_framebuffer d)\<lparr>fb_pixels := pixels\<rparr>, dirty := True\<rparr>) \<and>
    length pixels = length (fb_pixels (d_framebuffer d)) \<and>
    (\<forall>i < length pixels. pixels ! i =
       (if in_box w (px_x (fb_width (d_framebuffer d)) i) (px_y (fb_width (d_framebuffer d)) i)
        then rgba ! src_index (fb_width (d_framebuffer d)) (unat (dest_left (w_rect w)))
          (unat (dest_top (w_rect w))) (unat (r_width (w_rect w))) i
        else fb_pixels (d_framebuffer d) ! i))"
proof -
  have fb: "fb_ok (d_framebuffer d)" using assms(1) by (simp add: display_ok_def)
  from apply_rect_spec [OF fb assms(4), of da] show ?thesis
    by (auto simp: process_one_rect [OF assms(2)] in_rows_box [OF assms(3)])
qed

section \<open>Where the notes and the code part\<close>

text \<open>
  A rectangle wider than its bounds, as a padded scan width makes it, is painted with all its
  columns: the pixels to the right of the bound are overwritten.
\<close>

theorem columns_beyond_bound_painted:
  assumes "fb_ok fb" and "rect_rgba (w_rect w) = Ok rgba"
    and "apply_rect da (w_rect w) fb = Ok fb'" and "i < length (fb_pixels fb)"
    and "unat (w_right w) < px_x (fb_width fb) i"
    and "unat (dest_left (w_rect w)) \<le> px_x (fb_width fb) i"
    and "px_x (fb_width fb) i < unat (dest_left (w_rect w)) + unat (r_width (w_rect w))"
    and "unat (dest_top (w_rect w)) \<le> px_y (fb_width fb) i"
    and "px_y (fb_width fb) i < unat (dest_top (w_rect w)) + unat (r_height (w_rect w))"
  shows "\<not> in_box w (px_x (fb_width fb) i) (px_y (fb_width fb) i) \<and>
    fb_pixels fb' ! i = rgba ! src_index (fb_width fb) (unat (dest_left (w_rect w)))
      (unat (dest_top (w_rect w))) (unat (r_width (w_rect w))) i"
  using apply_rect_spec [OF assms(1,2), of da] assms(3-9)
  by (auto simp: in_box_def in_rows_def Let_def)

theorem columns_beyond_bound_painted_witness:
  "\<exists>fb'. apply_rect True
      \<lparr>dest_left = 0, dest_top = 0, r_width = 2, r_height = 1, bits_per_pixel = 32, compressed = False,
        r_data = [1, 2, 3, 4, 5, 6, 7, 8]\<rparr> (framebuffer_new 2 1) = Ok fb' \<and> fb_pixels fb' ! 4 = 7"
proof -
  let ?r = "\<lparr>dest_left = 0, dest_top = 0, r_width = 2, r_height = 1, bits_per_pixel = 32, compressed = False,
      r_data = [1, 2, 3, 4, 5, 6, 7, 8]\<rparr>"
  let ?w = "\<lparr>w_rect = ?r, w_right = 0, w_bottom = 0, w_cd_header = None\<rparr>"
  have rgba: "rect_rgba ?r = Ok [3, 2, 1, 255, 7, 6, 5, 255]" by code_simp
  from apply_rect_spec [OF framebuffer_new_ok this] obtain fb' where
    a: "apply_rect True ?r (framebuffer_new 2 1) = Ok fb'" by blast
  have "fb_pixels fb' ! 4 = 7"
    using columns_beyond_bound_painted [OF framebuffer_new_ok, of ?w "[3, 2, 1, 255, 7, 6, 5, 255]" True 2 1 fb' 4] rgba a
    by (simp add: framebuffer_new_def px_x_def px_y_def src_index_def)
  with a show ?thesis by blast
qed

text \<open>
  Raw rows that are padded to four bytes are read as if they were packed: of two rows of one
  24-bit pixel, the upper one takes a padding byte of the lower for its blue.
\<close>

theorem padded_rows_skewed:
  "to_rgba [b0, g0, r0, 0, b1, g1, r1, 0] 1 2 24 = Ok [g1, b1, 0, 255, r0, g0, b0, 255]"
proof -
  have "[0..<2] = [0, 1 :: nat]" by (simp add: upt_rec)
  then show ?thesis
    by (simp add: to_rgba_def bytes_per_pixel_def Let_def need_bytes_def rgba_row_def rgba_px_def pixel_rgb_def
        slice_def index_def)
qed

text \<open>
  A five-bit channel is scaled to eight bits by rounding, not by repeating its upper bits: the two
  differ, by one at most.
\<close>

definition replicate5 :: "u16 \<Rightarrow> u8" where
  "replicate5 v = ucast (push_bit 3 v OR drop_bit 2 v)"

theorem scale8_near_replication:
  "list_all (\<lambda>n. let a = unat (scale8 (of_nat n) 31); b = unat (replicate5 (of_nat n))
     in a \<le> b + 1 \<and> b \<le> a + 1) [0..<32] \<and> scale8 3 31 \<noteq> replicate5 3"
  by code_simp

section \<open>Updates that end the session\<close>

lemma paint_rects_append:
  "paint_rects da (rs @ rs') d = io_bind (paint_rects da rs) (\<lambda>_. paint_rects da rs') d"
  by (induction da rs d rule: paint_rects.induct) (simp_all add: io_bind_def split: result.split)

lemma overrun_apply_panics:
  assumes "compressed r" and "pixel_size (bits_per_pixel r) = Ok ps" and "0 < unat (r_width r)"
    and "list_all (order_ok ps) ords" and "r_data r = concat (map (order_encode ps) ords)"
    and "unat (r_width r) * unat (r_height r) < sum_list (map order_len ords)"
  shows "apply_rect da r fb = Panic"
proof -
  have "bits_per_pixel r \<noteq> 32" using assms(2) by (auto simp: pixel_size_def)
  moreover have "decompress (r_data r) (unat (r_width r)) (unat (r_height r)) (bits_per_pixel r) = Panic"
    using decompress_render [OF assms(2,3,4)] assms(5,6) by (simp add: Let_def)
  ultimately show ?thesis using assms(1) by (simp add: apply_rect_def rect_rgba_def Let_def)
qed

text \<open>The rectangles before the overrun are painted, those after it are not, and the panic is not caught.\<close>

lemma process_overrun:
  assumes "display_ok d" and "list_all wire_rect_ok (ws @ w # ws')" and "length (ws @ w # ws') < 65536"
    and "list_all (\<lambda>w. rect_safe (w_rect w)) ws" and "\<And>fb. apply_rect da (w_rect w) fb = Panic"
  shows "\<exists>d'. paint_rects da (map w_rect ws) d = (Ok (), d') \<and>
    process da UPDATETYPE_BITMAP (bitmap_update_encode ty (ws @ w # ws')) d = (Panic, d')"
proof -
  have "list_all rect_safe (map w_rect ws)" using assms(4) by (simp add: list.pred_map comp_def)
  from paint_rects_no_panic [OF assms(1) this, of da] obtain d' where
    d': "paint_rects da (map w_rect ws) d = (Ok (), d')" by (metis fst_conv surj_pair)
  have "process da UPDATETYPE_BITMAP (bitmap_update_encode ty (ws @ w # ws')) d =
      paint_rects da (map w_rect ws @ w_rect w # map w_rect ws') d"
    using parse_bitmap_update_encode [OF assms(2,3)] by (simp add: process_def io_bind_def io_lift_def)
  also have "\<dots> = (Panic, d')" by (simp add: paint_rects_append io_bind_def d' assms(5))
  finally show ?thesis using d' by blast
qed

end
