(* ===== verification/Graphics_Props.thy ===== *)
theory Graphics_Props
  imports Samples Display_Spec
begin

text \<open>
  The properties of the graphics path: fast-path parsing, the codecs, the conversion and blit of
  pixels, the display state and the graphics pipeline's surfaces.
\<close>

section \<open>The display\<close>

lemma pump_fast_path_mem:
  assumes "list_all update_ok us" and "length (concat (map update_encode us)) + 3 < 0x8000"
    and "display_apply_all da us ((rs_display s)\<lparr>dirty := False\<rparr>) = (res, d)"
    and "rs_transport s = \<lparr>ms_in = output_pdu_encode us @ r, ms_out = w\<rparr>"
  shows "pump da mem_read mem_poll s =
    (and_then res (\<lambda>_. Ok (dirty d)), s\<lparr>rs_transport := \<lparr>ms_in = r, ms_out = w\<rparr>, rs_display := d\<rparr>)"
proof -
  let ?t = "\<lparr>ms_in = tl (output_pdu_encode us) @ r, ms_out = w\<rparr>"
  have "output_pdu_encode us = 0x00 # tl (output_pdu_encode us)"
    by (simp add: output_pdu_frame [OF assms(2)] fast_frame_def)
  then obtain bs where "output_pdu_encode us = 0x00 # bs" by blast
  then have poll: "mem_poll (rs_transport s) = (Ok (Got 0x00), ?t)"
    by (simp add: mem_poll_def assms(4))
  have rest: "ms_in ?t = tl (output_pdu_encode us) @ r" by simp
  obtain u where "pump da mem_read mem_poll s =
      (and_then res (\<lambda>_. Ok (dirty d)), s\<lparr>rs_transport := u, rs_display := d\<rparr>)" "ms_in u = r" "ms_out u = w"
    using mem.pump_fast_path [where ?rd1.0 = mem_poll and s = s and t = ?t and r = r, OF poll rest assms(1-3)] by auto
  moreover have "u = \<lparr>ms_in = ms_in u, ms_out = ms_out u\<rparr>" by simp
  ultimately show ?thesis by simp
qed

definition sample_updates :: "fast_path_update list" where
  "sample_updates = [\<lparr>update_code = UPDATETYPE_PTR_POSITION, fragmentation = FRAGMENT_SINGLE, u_data = [5, 0, 6, 0]\<rparr>]"

definition sample_rect :: bitmap_rect where
  "sample_rect = \<lparr>dest_left = 1, dest_top = 0, r_width = 1, r_height = 1, bits_per_pixel = 32,
     compressed = False, r_data = [1, 2, 3, 4]\<rparr>"

definition sample_wire_rect :: wire_rect where
  "sample_wire_rect = \<lparr>w_rect = sample_rect, w_right = 1, w_bottom = 0, w_cd_header = None\<rparr>"

lemma sample_rect_simps:
  "wire_rect_ok sample_wire_rect" "box_fits sample_wire_rect" "rows_aligned sample_rect" "rect_safe sample_rect"
  "w_rect sample_wire_rect = sample_rect" "rect_rgba sample_rect = Ok [3, 2, 1, 255]"
  by code_simp+

definition bitmap_updates :: "wire_rect list \<Rightarrow> fast_path_update list" where
  "bitmap_updates ws =
     [\<lparr>update_code = UPDATETYPE_BITMAP, fragmentation = FRAGMENT_SINGLE, u_data = bitmap_update_encode 1 ws\<rparr>]"

text \<open>
  C6: a frame is painted and reported. While no UDP tunnel is open and the transport delivers a
  fast-path PDU, \<open>pump\<close> applies exactly its updates, in order, to the display and leaves the rest
  of the stream untouched. Its result is that of the updates; if the framebuffer changed, a
  successful pump returns true, and when the completed payloads carry no pointer update, it
  returns true exactly when one of them painted a rectangle.
\<close>

theorem pump_paints_frame:
  assumes "rs_udp s = None" and "display_ok (rs_display s)"
    and "list_all update_ok us" and "length (concat (map update_encode us)) + 3 < 0x8000"
    and "display_apply_all da us ((rs_display s)\<lparr>dirty := False\<rparr>) = (res, d)"
    and "rs_transport s = \<lparr>ms_in = output_pdu_encode us @ r, ms_out = w\<rparr>"
  shows "\<exists>changed. pump da mem_read mem_poll s =
      (and_then res (\<lambda>_. Ok changed), s\<lparr>rs_transport := \<lparr>ms_in = r, ms_out = w\<rparr>, rs_display := d\<rparr>) \<and>
    (d_framebuffer d \<noteq> d_framebuffer (rs_display s) \<longrightarrow> changed) \<and>
    (res = Ok () \<and> list_all (\<lambda>p. \<not> pointer_code (fst p)) (completed (frag (rs_display s), frag_code (rs_display s)) us) \<longrightarrow>
       changed = list_ex paints_rectangle (completed (frag (rs_display s), frag_code (rs_display s)) us))"
  using pump_fast_path_mem [OF assms(3-6)] display_apply_all_paints [OF assms(2,5)] by blast

theorem pump_paints_frame_witness:
  "fst (pump True mem_read mem_poll
     (new_session sample_params (server_session sample_server)
        \<lparr>ms_in = output_pdu_encode (bitmap_updates [sample_wire_rect]) @ [], ms_out = []\<rparr> :: (mem_stream, unit) rdp_session)) = Ok True"
proof -
  let ?s = "new_session sample_params (server_session sample_server)
      \<lparr>ms_in = output_pdu_encode (bitmap_updates [sample_wire_rect]) @ [], ms_out = []\<rparr> :: (mem_stream, unit) rdp_session"
  let ?d = "(rs_display ?s)\<lparr>dirty := False\<rparr>"
  have "display_ok ?d" by (simp add: new_session_def display_new_ok display_ok_def display_new_def)
  then have "fst (paint_rects True [sample_rect] ?d) = Ok ()"
    by (rule paint_rects_no_panic) (simp add: sample_rect_simps)
  then obtain d where d: "paint_rects True [sample_rect] ?d = (Ok (), d)" by (metis fst_conv surj_pair)
  have a: "display_apply_all True (bitmap_updates [sample_wire_rect]) ?d = (Ok (), d)"
    using d by (simp add: bitmap_updates_def display_apply_def process_one_rect sample_rect_simps io_bind_def fragments
        del: paint_rects.simps)
  have ok: "list_all update_ok (bitmap_updates [sample_wire_rect])"
    "length (concat (map update_encode (bitmap_updates [sample_wire_rect]))) + 3 < 0x8000"
    "display_ok (rs_display ?s)" "rs_udp ?s = None"
    "rs_transport ?s = \<lparr>ms_in = output_pdu_encode (bitmap_updates [sample_wire_rect]) @ [], ms_out = []\<rparr>"
    by (code_simp, code_simp, simp_all add: new_session_def display_new_ok)
  have c: "completed (f, c) (bitmap_updates [sample_wire_rect]) = [(UPDATETYPE_BITMAP, bitmap_update_encode 1 [sample_wire_rect])]"
    for f c by (simp add: bitmap_updates_def)
  have "paints_rectangle (UPDATETYPE_BITMAP, bitmap_update_encode 1 [sample_wire_rect])" by code_simp
  then show ?thesis
    using pump_paints_frame [OF ok(4,3,1,2) a ok(5)] by (auto simp: c pointer_code_def update_types)
qed

text \<open>
  The flag also reports the cursor: a pump that only moved the pointer returns true with the
  framebuffer as it was. An open UDP tunnel changes nothing: the frame is read from TCP.
\<close>

theorem pump_reports_cursor_moves:
  "\<exists>s'. pump True mem_read mem_poll
     (new_session sample_params (server_session sample_server)
        \<lparr>ms_in = output_pdu_encode sample_updates @ [], ms_out = []\<rparr> :: (mem_stream, unit) rdp_session) = (Ok True, s') \<and>
     d_framebuffer (rs_display s') = framebuffer_new 4 3"
proof -
  let ?s = "new_session sample_params (server_session sample_server)
      \<lparr>ms_in = output_pdu_encode sample_updates @ [], ms_out = []\<rparr> :: (mem_stream, unit) rdp_session"
  have "list_all update_ok sample_updates" "length (concat (map update_encode sample_updates)) + 3 < 0x8000"
    by code_simp+
  moreover have "display_apply_all True sample_updates ((rs_display ?s)\<lparr>dirty := False\<rparr>) =
      (Ok (), (rs_display ?s)\<lparr>cursor_pos := (u16_from_le_bytes 5 0, u16_from_le_bytes 6 0), dirty := True\<rparr>)"
    by (simp add: sample_updates_def display_apply_def process_def update_types fragments)
  moreover have "rs_transport ?s = \<lparr>ms_in = output_pdu_encode sample_updates @ [], ms_out = []\<rparr>"
    by (simp add: new_session_def)
  ultimately show ?thesis
    by (simp add: pump_fast_path_mem [where r = "[]" and w = "[]"])
      (simp add: new_session_def display_new_def sample_params_def session_params_new_def)
qed

theorem pump_ignores_udp:
  "pump da rd rd1 (s\<lparr>rs_udp := u\<rparr>) = apsnd (\<lambda>s. s\<lparr>rs_udp := u\<rparr>) (pump da rd rd1 s)"
  by (auto simp: pump_def io_bind_def on_transport_def on_display_def handle_frame_def io_lift_def io_ok_def
      split: prod.splits result.splits option.splits frame.splits)

text \<open>
  C7: the display invariant. Over any transport, whatever frame or error it delivers, the
  framebuffer keeps its size and its four bytes per pixel, and a cursor, when there is one, has
  the pixels of its size.
\<close>

theorem pump_keeps_display:
  assumes "display_ok (rs_display s)" and "pump da rd rd1 s = (r, s')"
  shows "display_ok (rs_display s') \<and> same_size (rs_display s) (rs_display s')"
  by (rule pump_ok [OF assms])

theorem pump_keeps_display_witness:
  "display_ok (rs_display (snd (pump True mem_read mem_poll
     (new_session sample_params (server_session sample_server) \<lparr>ms_in = [0x00, 5, 1, 0, 0], ms_out = []\<rparr>
        :: (mem_stream, unit) rdp_session))))"
proof -
  let ?s = "new_session sample_params (server_session sample_server) \<lparr>ms_in = [0x00, 5, 1, 0, 0], ms_out = []\<rparr>
      :: (mem_stream, unit) rdp_session"
  have "display_ok (rs_display ?s)" by (simp add: new_session_def display_new_ok)
  moreover obtain r s' where "pump True mem_read mem_poll ?s = (r, s')" by fastforce
  ultimately show ?thesis using pump_keeps_display by fastforce
qed

text \<open>
  C8: fragment reassembly. Applying a sequence of updates shows exactly what processing the
  payloads it completes, in order, shows: whole updates at once, fragments when the last one
  arrives, under the code of the first.
\<close>

theorem fragments_refine_payloads:
  "apsnd shown (display_apply_all da us d) = process_all da (completed (frag d, frag_code d) us) (shown d) \<and>
   completed st (in_fragments c first mid final @ us) = (c, first @ concat mid @ final) # completed ([], c) us"
  using display_apply_all_completed completed_in_fragments by blast

text \<open>
  C18: which updates are safe. A session cannot be aborted by updates whose bitmap payloads hold
  only uncompressed rectangles and planar ones with at least one row: errors in them are values,
  and a bad rectangle is skipped.
\<close>

theorem safe_updates_never_panic:
  assumes "display_ok d" and "list_all (\<lambda>(c, data). payload_safe c data) (completed (frag d, frag_code d) us)"
  shows "fst (display_apply_all da us d) \<noteq> Panic"
  by (rule display_apply_all_no_panic [OF assms])

theorem safe_updates_never_panic_witness:
  "fst (display_apply_all True
     (in_fragments UPDATETYPE_BITMAP [1, 0] [[1, 0, 0, 0, 0], []] [9, 9] @ sample_updates) (display_new 2 2)) \<noteq> Panic"
proof (rule safe_updates_never_panic)
  show "display_ok (display_new 2 2)" by (rule display_new_ok)
  show "list_all (\<lambda>(c, data). payload_safe c data) (completed (frag (display_new 2 2), frag_code (display_new 2 2))
      (in_fragments UPDATETYPE_BITMAP [1, 0] [[1, 0, 0, 0, 0], []] [9, 9] @ sample_updates))"
    by code_simp
qed

text \<open>
  C40: a run-length coded rectangle that overruns its size ends the session. In any update whose
  earlier rectangles are safe, the overrun is not skipped as other bad rectangles are: the
  earlier rectangles are painted, the later ones never, and \<open>pump\<close> panics on the PDU that
  carries the update.
\<close>

theorem overrunning_rectangle_ends_session:
  assumes "rs_udp s = None" and "display_ok (rs_display s)" and "list_all wire_rect_ok (ws @ w # ws')" and "length (ws @ w # ws') < 65536"
    and "list_all (\<lambda>w. rect_safe (w_rect w)) ws"
    and "compressed (w_rect w)" and "pixel_size (bits_per_pixel (w_rect w)) = Ok ps" and "0 < unat (r_width (w_rect w))"
    and "list_all (order_ok ps) ords" and "r_data (w_rect w) = concat (map (order_encode ps) ords)"
    and "unat (r_width (w_rect w)) * unat (r_height (w_rect w)) < sum_list (map order_len ords)"
    and "list_all update_ok (bitmap_updates (ws @ w # ws'))"
    and "length (concat (map update_encode (bitmap_updates (ws @ w # ws')))) + 3 < 0x8000"
    and "rs_transport s = \<lparr>ms_in = output_pdu_encode (bitmap_updates (ws @ w # ws')) @ r, ms_out = out\<rparr>"
  shows "\<exists>d'. paint_rects da (map w_rect ws) ((rs_display s)\<lparr>dirty := False\<rparr>) = (Ok (), d') \<and>
    pump da mem_read mem_poll s = (Panic, s\<lparr>rs_transport := \<lparr>ms_in = r, ms_out = out\<rparr>, rs_display := d'\<rparr>)"
proof -
  have "display_ok ((rs_display s)\<lparr>dirty := False\<rparr>)" using assms(2) by (simp add: display_ok_def)
  from process_overrun [OF this assms(3-5) overrun_apply_panics [OF assms(6-11)], of da 1] obtain d' where
    d': "paint_rects da (map w_rect ws) ((rs_display s)\<lparr>dirty := False\<rparr>) = (Ok (), d')"
      "process da UPDATETYPE_BITMAP (bitmap_update_encode 1 (ws @ w # ws')) ((rs_display s)\<lparr>dirty := False\<rparr>) = (Panic, d')"
    by blast
  then have "display_apply_all da (bitmap_updates (ws @ w # ws')) ((rs_display s)\<lparr>dirty := False\<rparr>) = (Panic, d')"
    by (simp add: bitmap_updates_def display_apply_def io_bind_def)
  from pump_fast_path_mem [OF assms(12,13) this assms(14)] d'(1) show ?thesis by simp
qed

definition overrun_rect :: wire_rect where
  "overrun_rect =
     \<lparr>w_rect = \<lparr>dest_left = 0, dest_top = 0, r_width = 1, r_height = 1, bits_per_pixel = 16, compressed = True,
        r_data = concat (map (order_encode 2) [Color_Run 4 0xF800])\<rparr>,
      w_right = 0, w_bottom = 0, w_cd_header = None\<rparr>"

theorem overrunning_rectangle_ends_session_witness:
  "fst (pump True mem_read mem_poll
     (new_session sample_params (server_session sample_server)
        \<lparr>ms_in = output_pdu_encode (bitmap_updates ([sample_wire_rect] @ overrun_rect # [sample_wire_rect])) @ [],
         ms_out = []\<rparr> :: (mem_stream, unit) rdp_session)) = Panic"
proof -
  let ?s = "new_session sample_params (server_session sample_server)
      \<lparr>ms_in = output_pdu_encode (bitmap_updates ([sample_wire_rect] @ overrun_rect # [sample_wire_rect])) @ [],
       ms_out = []\<rparr> :: (mem_stream, unit) rdp_session"
  have ok: "list_all wire_rect_ok ([sample_wire_rect] @ overrun_rect # [sample_wire_rect])"
    "list_all update_ok (bitmap_updates ([sample_wire_rect] @ overrun_rect # [sample_wire_rect]))"
    "length (concat (map update_encode (bitmap_updates ([sample_wire_rect] @ overrun_rect # [sample_wire_rect])))) + 3 < 0x8000"
    "list_all (order_ok 2) [Color_Run 4 0xF800]"
    by code_simp+
  have "\<exists>d'. paint_rects True (map w_rect [sample_wire_rect]) ((rs_display ?s)\<lparr>dirty := False\<rparr>) = (Ok (), d') \<and>
    pump True mem_read mem_poll ?s = (Panic, ?s\<lparr>rs_transport := \<lparr>ms_in = [], ms_out = []\<rparr>, rs_display := d'\<rparr>)"
  proof (rule overrunning_rectangle_ends_session [OF _ _ ok(1) _ _ _ _ _ ok(4) _ _ ok(2,3)])
    show "display_ok (rs_display ?s)" by (simp add: new_session_def display_new_ok)
    show "pixel_size (bits_per_pixel (w_rect overrun_rect)) = Ok 2" by (simp add: overrun_rect_def pixel_size_def)
  qed (simp_all add: overrun_rect_def sample_rect_simps new_session_def)
  then show ?thesis by auto
qed

section \<open>Codecs\<close>

text \<open>
  C5: interleaved RLE decodes to the image its orders paint. For every stream of valid orders,
  in any of their header forms, \<open>decompress\<close> returns the rendered pixels, black to the end of
  the image, and panics exactly when the orders produce more pixels than the image holds.
\<close>

theorem decompress_renders_orders:
  assumes "pixel_size bpp = Ok ps" and "0 < w" and "list_all (order_ok ps) ords"
  shows "decompress (concat (map (order_encode ps) ords)) w h bpp =
    (let n = sum_list (map order_len ords)
     in if n \<le> w * h
        then Ok (image_bytes ps (render w (white_pixel bpp) ords) @ replicate ((w * h - n) * ps) 0)
        else Panic)"
  by (rule decompress_render [OF assms])

theorem decompress_renders_orders_witness:
  "decompress (concat (map (order_encode 2)
       [Color_Run 2 0x1234, Foreground (Some 0x0F0F) 2, Background 2, White_Pixel, Fgbg None 3 [5]])) 2 6 16 =
   Ok (image_bytes 2 (render 2 0xFFFF
       [Color_Run 2 0x1234, Foreground (Some 0x0F0F) 2, Background 2, White_Pixel, Fgbg None 3 [5]]) @ replicate 4 0)"
  by (subst decompress_renders_orders) (simp_all add: pixel_size_def white_pixel_def in_range_def)

text \<open>
  C10: every plane survives run-length coding. The plane of any image, delta coded and written as
  literal segments, decodes to itself wherever it stands in the stream; and any valid segment
  stream decodes to the plane it renders.
\<close>

theorem planar_rle_roundtrip:
  assumes "length plane = w * h" and "0 < h" and "0 < w" and "rows_ok w h rows"
  shows "decode_rle_plane (pre @ plane_encode (plane_rows w h plane) @ post) (length pre) w h =
      Ok (plane, length pre + length (plane_encode (plane_rows w h plane))) \<and>
    decode_rle_plane (pre @ plane_encode rows @ post) (length pre) w h =
      Ok (plane_render w rows, length pre + length (plane_encode rows))"
  using decode_rle_plane_render [OF plane_rows_ok [OF assms(1,2)] assms(2), of pre post]
    decode_rle_plane_render [OF assms(4,2), of pre post] plane_rows_render [OF assms(1-3)] by simp

theorem planar_rle_roundtrip_witness:
  "decode_rle_plane ([9] @ plane_encode (plane_rows 2 2 [1, 2, 3, 250]) @ [7]) (length [9]) 2 2 =
   Ok ([1, 2, 3, 250], length [9] + length (plane_encode (plane_rows 2 2 [1, 2, 3, 250])))"
  using planar_rle_roundtrip [of "[1, 2, 3, 250]" 2 2 "plane_rows 2 2 [1, 2, 3, 250]" "[9]" "[7]"]
    plane_rows_ok [of "[1, 2, 3, 250]" 2 2] by simp

text \<open>
  C11: a planar image is the image of its planes. With raw planes and with run-length coded ones,
  with and without alpha, \<open>decode\<close> interleaves the planes that were sent into RGBA.
\<close>

theorem planar_decodes_planes:
  assumes "fmt \<noteq> 0" and "fmt AND CLL_MASK = 0" and "fmt AND CS_FLAG = 0" and "fmt AND RLE_FLAG = 0"
    and "(fmt AND NA_FLAG = 0) = (a \<noteq> None)"
    and "list_all (\<lambda>p. length p = w * Suc k) ([r, g, b] @ (case a of None \<Rightarrow> [] | Some p \<Rightarrow> [p]))"
    and "list_all (rows_ok w (Suc k)) ([r', g', b'] @ (case a' of None \<Rightarrow> [] | Some p \<Rightarrow> [p]))"
    and "(fmt AND NA_FLAG = 0) = (a' \<noteq> None)"
  shows "planar_decode (fmt # planes_sent a r g b @ post) w (Suc k) = Ok (planes_rgba (w * Suc k) a r g b) \<and>
    planar_decode
      ((fmt OR RLE_FLAG) # planes_sent (map_option plane_encode a') (plane_encode r') (plane_encode g') (plane_encode b') @ post)
      w (Suc k) =
    Ok (planes_rgba (w * Suc k) (map_option (plane_render w) a') (plane_render w r') (plane_render w g') (plane_render w b'))"
proof
  have "pred_option (\<lambda>p. length p = w * Suc k) a" using assms(6) by (cases a) simp_all
  then have "planar_decode (fmt # planes_sent (map_option (\<lambda>p. p) a) r g b @ post) w (Suc k) =
      Ok (planes_rgba (w * Suc k) (map_option (\<lambda>p. p) a) r g b)"
    using assms(1-6) by (intro raw_plane.planar_decode_planes) simp_all
  then show "planar_decode (fmt # planes_sent a r g b @ post) w (Suc k) = Ok (planes_rgba (w * Suc k) a r g b)"
    by (simp add: option.map_ident)
next
  have "pred_option (rows_ok w (Suc k)) a'" using assms(7) by (cases a') simp_all
  moreover have "(fmt OR RLE_FLAG) AND CLL_MASK = 0" "(fmt OR RLE_FLAG) AND CS_FLAG = 0"
      "(fmt OR RLE_FLAG) AND NA_FLAG = fmt AND NA_FLAG" "(fmt OR RLE_FLAG) AND RLE_FLAG \<noteq> 0"
    using assms(1-3) by (simp_all add: planar_flags bit.conj_disj_distrib2)
  moreover have "fmt OR RLE_FLAG \<noteq> 0" using assms(1) by (simp add: or_eq_0_iff)
  ultimately show "planar_decode
      ((fmt OR RLE_FLAG) # planes_sent (map_option plane_encode a') (plane_encode r') (plane_encode g') (plane_encode b') @ post)
      w (Suc k) =
    Ok (planes_rgba (w * Suc k) (map_option (plane_render w) a') (plane_render w r') (plane_render w g') (plane_render w b'))"
    using assms(7,8) by (intro rle_plane.planar_decode_planes) simp_all
qed

theorem planar_decodes_planes_witness:
  "planar_decode (0x20 # planes_sent None [1] [2] [3] @ []) 1 (Suc 0) = Ok [1, 2, 3, 255] \<and>
   planar_decode (0x30 # planes_sent None (plane_encode (plane_rows 1 1 [1])) (plane_encode (plane_rows 1 1 [2]))
     (plane_encode (plane_rows 1 1 [3])) @ []) 1 (Suc 0) = Ok [1, 2, 3, 255]"
  using planar_decodes_planes [where fmt = "0x20" and a = None and w = 1 and k = 0 and r = "[1]" and g = "[2]" and b = "[3]"
      and r' = "plane_rows 1 1 [1]" and g' = "plane_rows 1 1 [2]" and b' = "plane_rows 1 1 [3]" and a' = None and post = "[]"] plane_rows_ok [of "[1]" 1 1] plane_rows_ok [of "[2]" 1 1] plane_rows_ok [of "[3]" 1 1]
    plane_rows_render [of "[1]" 1 1] plane_rows_render [of "[2]" 1 1] plane_rows_render [of "[3]" 1 1]
  by (simp add: planar_flags planes_rgba_def)

text \<open>
  C20: the planar decoder never panics on an image with at least one row, whatever the bytes, and
  what it returns has four bytes per pixel. With no rows and a positive width, the delta
  transform of a run-length coded plane panics.
\<close>

theorem planar_decode_is_safe:
  assumes "0 < h" and "0 < w"
  shows "planar_decode data w h \<noteq> Panic \<and>
    (\<forall>out. planar_decode data w h = Ok out \<longrightarrow> length out = w * h * 4) \<and> dedelta [] w 0 = Panic"
  using planar_decode_safe [OF assms(1)] planar_decode_length dedelta_empty_image [OF assms(2)] by blast

theorem planar_decode_is_safe_witness: "planar_decode [0x1F, 0x12, 0xFF] 3 2 \<noteq> Panic"
  using planar_decode_is_safe [of 2 3 "[0x1F, 0x12, 0xFF]"] by simp

text \<open>
  Conversion to RGBA turns the image over. The byte at offset \<open>i\<close> of the result is a
  channel of the pixel in the same column of the mirrored row of the source, in the colours of
  its depth, and opaque.
\<close>

theorem to_rgba_flips_rows:
  assumes "bytes_per_pixel bpp = Ok n" and "width * n * height \<le> length pixels" and "i < width * height * 4"
  shows "\<exists>out. to_rgba pixels width height bpp = Ok out \<and> length out = width * height * 4 \<and>
    out ! i = rgba_of (px_colour bpp
      (px_at pixels n ((height - 1 - px_y width i) * width + px_x width i))) ! (i mod 4)"
  using to_rgba_flipped [OF assms(1,2)] length_flipped flipped_rgba_nth [OF assms(3)] by blast

theorem to_rgba_flips_rows_witness:
  "\<exists>out. to_rgba [1, 2, 3, 4, 5, 6] 1 2 24 = Ok out \<and> out ! 0 = 6 \<and> length out = 8"
  using to_rgba_flips_rows [of 24 3 1 2 "[1, 2, 3, 4, 5, 6]" 0]
  by (auto simp: bytes_per_pixel_def px_y_def px_x_def px_at_def px_colour_def rgba_of_def)

text \<open>
  C12: a rectangle fills its bounds and nothing else. For a rectangle of the wire whose inclusive
  bounds have the size of its image, and whose raw rows need no padding, processing the update
  changes the framebuffer exactly at the pixels within the bounds, to those of the decoded image,
  and drops what lies outside the framebuffer. A raw image is bottom-up with rows at multiples of
  four bytes; at 24 and 32 bits a pixel is its bytes blue, green, red, opaque.
\<close>

theorem rectangle_fills_bounds:
  assumes "display_ok d" and "wire_rect_ok w" and "box_fits w" and "rows_aligned (w_rect w)"
    and "rect_rgba (w_rect w) = Ok rgba"
  shows "(\<exists>pixels. process da UPDATETYPE_BITMAP (bitmap_update_encode ty [w]) d =
      (Ok (), d\<lparr>d_framebuffer := (d_framebuffer d)\<lparr>fb_pixels := pixels\<rparr>, dirty := True\<rparr>) \<and>
    length pixels = length (fb_pixels (d_framebuffer d)) \<and>
    (\<forall>i < length pixels. pixels ! i =
       (if in_box w (px_x (fb_width (d_framebuffer d)) i) (px_y (fb_width (d_framebuffer d)) i)
        then rgba ! src_index (fb_width (d_framebuffer d)) (unat (dest_left (w_rect w)))
          (unat (dest_top (w_rect w))) (unat (r_width (w_rect w))) i
        else fb_pixels (d_framebuffer d) ! i))) \<and>
    (\<not> compressed (w_rect w) \<and> (bits_per_pixel (w_rect w) = 24 \<and> n = 3 \<or> bits_per_pixel (w_rect w) = 32 \<and> n = 4) \<and>
     x < unat (r_width (w_rect w)) \<and> y < unat (r_height (w_rect w)) \<longrightarrow>
       take 4 (drop ((y * unat (r_width (w_rect w)) + x) * 4) rgba) =
         (let k = dib_offset (w_rect w) n x y
          in [r_data (w_rect w) ! (k + 2), r_data (w_rect w) ! (k + 1), r_data (w_rect w) ! k, 255]))"
  using process_fills_box [OF assms(1-3,5)] raw_rect_bytes [OF assms(5) _ assms(4)] by blast

theorem rectangle_fills_bounds_witness:
  "\<exists>pixels. process True UPDATETYPE_BITMAP (bitmap_update_encode 1 [sample_wire_rect]) (display_new 2 1) =
      (Ok (), (display_new 2 1)\<lparr>d_framebuffer := (framebuffer_new 2 1)\<lparr>fb_pixels := pixels\<rparr>, dirty := True\<rparr>) \<and>
     pixels ! 4 = 3 \<and> pixels ! 0 = 0 \<and> length pixels = 8"
proof -
  have fb: "d_framebuffer (display_new 2 1) = framebuffer_new 2 1" by (simp add: display_new_def)
  have rgba: "rect_rgba (w_rect sample_wire_rect) = Ok [3, 2, 1, 255]" "rows_aligned (w_rect sample_wire_rect)"
    by (simp_all add: sample_rect_simps)
  from rectangle_fills_bounds [OF display_new_ok sample_rect_simps(1,2) rgba(2,1), of True 1 2 1 4 0 0, unfolded fb] obtain pixels where
    p: "process True UPDATETYPE_BITMAP (bitmap_update_encode 1 [sample_wire_rect]) (display_new 2 1) =
        (Ok (), (display_new 2 1)\<lparr>d_framebuffer := (framebuffer_new 2 1)\<lparr>fb_pixels := pixels\<rparr>, dirty := True\<rparr>)"
      "length pixels = 8"
      "\<forall>i < length pixels. pixels ! i =
       (if in_box sample_wire_rect (px_x 2 i) (px_y 2 i)
        then [3, 2, 1, 255] ! src_index 2 1 0 1 i else fb_pixels (framebuffer_new 2 1) ! i)"
    by (auto simp: sample_wire_rect_def sample_rect_def framebuffer_new_def)
  then show ?thesis
    by (auto simp: framebuffer_new_def in_box_def sample_wire_rect_def sample_rect_def px_x_def px_y_def src_index_def)
qed

section \<open>Wire formats of the graphics path\<close>

text \<open>
  C17: fast-path output PDUs and bitmap updates are read back as they were sent: any updates
  that fit the 15-bit length, with either length form and whatever follows the PDU; any
  rectangles, with and without compression headers. No input makes either parser panic.
\<close>

theorem fast_path_roundtrips:
  assumes "list_all update_ok us" and "length (concat (map update_encode us)) + 3 < 0x8000"
    and "list_all wire_rect_ok ws" and "length ws < 65536"
  shows "parse_output_pdu (output_pdu_encode us @ junk) = Ok us \<and>
    parse_bitmap_update (bitmap_update_encode ty ws) = Ok (map w_rect ws) \<and>
    parse_output_pdu b \<noteq> Panic \<and> parse_bitmap_update b \<noteq> Panic"
  using parse_output_pdu_encode [OF assms(1,2)] parse_bitmap_update_encode [OF assms(3,4)]
    parse_output_pdu_no_panic parse_bitmap_update_no_panic by blast

theorem fast_path_roundtrips_witness:
  "parse_output_pdu (output_pdu_encode sample_updates @ [7]) = Ok sample_updates \<and>
   parse_bitmap_update (bitmap_update_encode 1 [\<lparr>w_rect = sample_rect, w_right = 2, w_bottom = 1, w_cd_header = None\<rparr>]) =
     Ok [sample_rect]"
proof -
  have "list_all update_ok sample_updates" "length (concat (map update_encode sample_updates)) + 3 < 0x8000"
    by code_simp+
  from fast_path_roundtrips [OF this, of "[\<lparr>w_rect = sample_rect, w_right = 2, w_bottom = 1, w_cd_header = None\<rparr>]" "[7]" 1 "[]"]
  show ?thesis by (simp add: wire_rect_ok_def sample_rect_def)
qed

text \<open>
  C30: cursors without an alpha channel. A New Pointer at 15, 16 or 24 bits decodes its masks as
  sent, whatever follows them; the cursor has four bytes per pixel, a pixel is transparent
  exactly when its bit of the AND mask, bottom-up in rows of whole 16-bit words, is set (or
  beyond the mask), and at 24 bits its colour is its pixel of the XOR bitmap, blue first.
\<close>

theorem cursor_pixels_from_masks:
  assumes "length xm < 65536" and "length am < 65536" and "bpp \<noteq> 32"
    and "decode_new_pointer (put_u16_le bpp @ pointer_encode cache hx hy w h xm am @ rest) = Ok c"
    and "y < unat h" and "x < unat w"
  shows "cursor_ok c \<and>
    c_rgba c ! ((y * unat w + x) * 4 + 3) = (if and_bit (unat w) (unat h) am y x then 0 else 255) \<and>
    (bpp = 24 \<and> k < 3 \<longrightarrow>
       c_rgba c ! ((y * unat w + x) * 4 + k) =
         get_or 0 xm ((unat h - 1 - y) * pad (unat w * 3) 2 + x * 3 + (2 - k)))"
  using decode_masks_alpha [OF assms(4) [unfolded decode_new_pointer_encode [OF assms(1,2)]] assms(5,6)]
    decode_masks_colour [OF _ assms(5,6), of hx hy xm am c k] assms(4) [unfolded decode_new_pointer_encode [OF assms(1,2)]]
    decode_pointer_ok(2) [OF assms(4)] by blast

theorem cursor_pixels_from_masks_witness:
  "\<exists>c. decode_new_pointer (put_u16_le 24 @ pointer_encode 0 0 0 1 1 [1, 2, 3, 0] [0x80, 0] @ []) = Ok c \<and>
     c_rgba c ! 3 = 0 \<and> c_rgba c ! 0 = 3"
proof -
  have "\<exists>c. decode_masks 1 1 0 0 [1, 2, 3, 0] [0x80, 0] 24 = Ok c" by (simp add: decode_masks_def cursor_bytes_pp_def)
  then obtain c where c: "decode_new_pointer (put_u16_le 24 @ pointer_encode 0 0 0 1 1 [1, 2, 3, 0] [0x80, 0] @ []) = Ok c"
    by (simp only: decode_new_pointer_encode list.size) auto
  have "bit (get_or 0xff [0x80, 0] 0) 7" "get_or 0 [1, 2, 3, 0] (Suc (Suc 0)) = 3" by code_simp+
  with cursor_pixels_from_masks [OF _ _ _ c, of 0 0 0] c show ?thesis by (auto simp: and_bit_def pad_def)
qed

section \<open>The graphics pipeline\<close>

text \<open>
  C28: a stream of graphics commands is parsed into the commands that were sent, one after the
  other, each consuming exactly its PDU; the parser never panics.
\<close>

theorem gfx_stream_roundtrip:
  assumes "list_all command_ok cmds"
  shows "parse_all (concat (map command_encode cmds)) = Ok cmds \<and> parse_all b \<noteq> Panic"
  using gfx.loop_concat [OF assms] parse_all_no_panic by blast

theorem gfx_stream_roundtrip_witness:
  "parse_all (concat (map command_encode [CreateSurface 1 2 3 0x20, StartFrame 7, EndFrame 7])) =
   Ok [CreateSurface 1 2 3 0x20, StartFrame 7, EndFrame 7]"
  by (rule conjunct1 [OF gfx_stream_roundtrip]) simp

text \<open>
  C29: the surface store. Every command keeps every surface well-formed; a command that fails
  changes nothing; and no command panics, except possibly a planar bitmap of height zero.
\<close>

theorem surface_store_invariant:
  assumes "store_ok st" and "store_apply da cmd st = (r, st')"
  shows "store_ok st' \<and> (\<forall>e. r = Err e \<longrightarrow> st' = st) \<and>
    ((\<forall>i pf dest data. cmd = WireToSurface1 i CODECID_PLANAR pf dest data \<longrightarrow> rect_height dest \<noteq> 0) \<longrightarrow> r \<noteq> Panic)"
proof (intro conjI allI impI)
  show "store_ok st'" by (rule store_apply_ok [OF assms])
  show "st' = st" if "r = Err e" for e using store_apply_Err assms(2) that by blast
  assume "\<forall>i pf dest data. cmd = WireToSurface1 i CODECID_PLANAR pf dest data \<longrightarrow> rect_height dest \<noteq> 0"
  then show "r \<noteq> Panic" using store_apply_no_panic [OF assms(1), of cmd da] assms(2) by auto
qed

theorem surface_store_invariant_witness:
  "store_ok (snd (store_apply True (CreateSurface 1 2 2 0x20) surface_store_new))"
  using surface_store_invariant [OF store_ok_new, of True "CreateSurface 1 2 2 0x20"] by fastforce

end
