(* ===== verification/Wire_Props.thy ===== *)
theory Wire_Props
  imports Samples
begin

text \<open>
  The properties of the protocol formats below and beside the connection sequence: framing,
  the encodings, the static and dynamic virtual channels, the UDP tunnel and client input.
\<close>

section \<open>Framing\<close>

text \<open>
  C23: frames are delimited. A slow-path message framed by TPKT and X.224, and a fast-path PDU in
  either length form, are read off the stream exactly, whatever follows them; and a payload that
  is too long for TPKT is an error of the encoder.
\<close>

theorem frames_are_delimited:
  assumes "tls_fits p" and "length body + 3 < 32768" and "first \<noteq> 3"
  shows "read_frame mem_read \<lparr>ms_in = tls_frame p @ r, ms_out = w\<rparr> =
      (Ok (SlowPath p), \<lparr>ms_in = r, ms_out = w\<rparr>) \<and>
    read_frame mem_read \<lparr>ms_in = fast_frame first body @ r, ms_out = w\<rparr> =
      (Ok (FastPath (fast_frame first body)), \<lparr>ms_in = r, ms_out = w\<rparr>) \<and>
    (MAX_TPKT_PAYLOAD < length q \<longrightarrow> tpkt_encode q = Err (Protocol ''TPKT payload exceeds u16 length''))"
  using mem_reads [OF mem.read_frame_slow [OF assms(1)]] mem_reads [OF mem.read_frame_fast [OF assms(2,3)]]
  by (simp add: tpkt_encode_def)

theorem frames_are_delimited_witness:
  "fst (read_frame mem_read \<lparr>ms_in = tls_frame [0x68, 1] @ [3], ms_out = []\<rparr>) = Ok (SlowPath [0x68, 1])"
  using frames_are_delimited [of "[0x68, 1]" "[]" 0 "[3]" "[]" "[]"] by (simp add: tls_fits_def)

text \<open>
  C37: X.224 connection PDUs survive encoding and decoding: every confirm, and every request whose
  cookie is a Unicode string without a line break and fits the length byte; and the shared
  splitter panics exactly on a PDU of at least seven bytes that announces fewer than six.
\<close>

theorem x224_roundtrips:
  assumes "case cr_cookie cr of None \<Rightarrow> True | Some c \<Rightarrow>
      list_all scalar c \<and> find_crlf (into_bytes c) = None \<and> length (into_bytes c) < 220"
  shows "connection_request_decode (connection_request_encode cr) = Ok cr \<and>
    connection_confirm_decode (connection_confirm_encode cc) = Ok cc \<and>
    (split_cr_cc buf = Panic \<longleftrightarrow> 7 \<le> length buf \<and> unat (hd buf) < 6)"
  using connection_request_roundtrip [OF assms] connection_confirm_roundtrip split_cr_cc_Panic_iff by blast

theorem x224_roundtrips_witness:
  "connection_request_decode (connection_request_encode
     \<lparr>cr_cookie = Some (rstr ''eltons''), cr_nego = Some \<lparr>nr_flags = 0, nr_requested = PROTO_SSL\<rparr>\<rparr>) =
   Ok \<lparr>cr_cookie = Some (rstr ''eltons''), cr_nego = Some \<lparr>nr_flags = 0, nr_requested = PROTO_SSL\<rparr>\<rparr>"
proof (rule conjunct1 [OF x224_roundtrips])
  have "list_all scalar (rstr ''eltons'') \<and> find_crlf (into_bytes (rstr ''eltons'')) = None \<and>
      length (into_bytes (rstr ''eltons'')) < 220" by code_simp
  then show "case cr_cookie \<lparr>cr_cookie = Some (rstr ''eltons''), cr_nego = Some \<lparr>nr_flags = 0, nr_requested = PROTO_SSL\<rparr>\<rparr>
      of None \<Rightarrow> True | Some c \<Rightarrow> list_all scalar c \<and> find_crlf (into_bytes c) = None \<and> length (into_bytes c) < 220"
    by simp
qed

section \<open>Encodings\<close>

text \<open>
  C38: lengths and integers. BER lengths of 64 bits and 32-bit integers, DER lengths of 32 bits and
  64-bit integers, and PER lengths below 0x4000 are read back; a PER length from 0x4000 on is
  written in a form that the reader refuses.
\<close>

theorem lengths_and_integers_roundtrip:
  assumes "n < 2 ^ 64" and "m < 2 ^ 32" and "k < 0x4000" and "0x4000 \<le> l"
  shows "ber_read_length (ber_length n @ r) = Ok (n, r) \<and>
    ber_read_integer (ber_integer v @ r) = Ok (v, r) \<and>
    decode_len (encode_len m @ r) = Ok (m, length (encode_len m)) \<and>
    der_read_integer (der_integer u @ r) = Ok (u, r) \<and>
    per_read_length (per_write_length k @ r) = Ok (k, r) \<and>
    per_read_length (per_write_length l @ r) = Err (Protocol ''unsupported PER fragmented length'')"
  using ber_read_length_roundtrip [OF assms(1)] ber_read_integer_roundtrip decode_len_roundtrip [OF assms(2)]
    der_read_integer_roundtrip per_length_roundtrip [OF assms(3)] per_length_long_rejected [OF assms(4)] by blast

theorem lengths_and_integers_roundtrip_witness:
  "ber_read_length (ber_length 300 @ [1]) = Ok (300, [1]) \<and> decode_len (encode_len 70000 @ [1]) = Ok (70000, 4) \<and>
   per_read_length (per_write_length 128 @ [1]) = Ok (128, [1])"
proof -
  have "length (encode_len 70000) = 4" by code_simp
  then show ?thesis using lengths_and_integers_roundtrip [of 300 70000 128 16384 "[1]" 0 0] by simp
qed

text \<open>
  The client finds its channels. From any list of server data blocks with one network block,
  the identifiers of the I/O channel, of the static channels and of the message channel are
  extracted, whatever other blocks stand before, between and after.
\<close>

theorem network_data_extracted:
  assumes "list_all other_block pre" and "list_all other_block mid" and "list_all other_block post"
    and "length ids < 32000"
  shows "parse_server_network_data
      (ud_blocks pre @ ud_block SC_NET (sc_net_body io ids) @ ud_blocks mid @
       ud_block SC_MCS_MSGCHANNEL (put_u16_le ch) @ ud_blocks post) =
    Ok \<lparr>sn_io_channel_id = io, sn_channel_ids = ids, sn_message_channel_id = Some ch\<rparr>"
  using assms sc_block_msgchannel [of ch "[]"] sc_blocks_others [OF assms(3), of "[]"]
  by (simp add: parse_server_network_data_def sc_blocks_others sc_blocks_step sc_block_net
      server_network_data_default_def)

theorem network_data_extracted_witness:
  "parse_server_network_data (ud_blocks [(SC_CORE, [4, 0, 8, 0])] @ ud_block SC_NET (sc_net_body 1003 [1004, 1005]) @
     ud_blocks [] @ ud_block SC_MCS_MSGCHANNEL (put_u16_le 1006) @ ud_blocks [(SC_SECURITY, [])]) =
   Ok \<lparr>sn_io_channel_id = 1003, sn_channel_ids = [1004, 1005], sn_message_channel_id = Some 1006\<rparr>"
  by (rule network_data_extracted) (simp_all add: other_block_def gcc_types)

text \<open>
  The activation PDUs. A share control PDU yields its type, source and body; a Demand Active
  its share and every capability set; and a server reads out of the Client Info PDU the security
  flag, the info flags and the five strings, autologon being announced iff it was asked for and
  there is a password.
\<close>

theorem activation_pdus_read:
  assumes "length body + 6 < 65536" and "unat ty < 16"
    and "list_all (\<lambda>(ty, d). length d + 4 < 65536) cs" and "length cs < 65536" and "length source < 65536"
    and "list_all (\<lambda>s. length (unicode s) < 65536)
      [li_domain i, li_username i, li_password i, li_alternate_shell i, li_working_dir i]"
  shows "parse_share_control (share_control ty src body @ rest) =
      Ok (\<lparr>sch_pdu_type = ty, sch_pdu_source = src\<rparr>, body) \<and>
    parse_demand_active (demand_active_body sid source cs @ rest) =
      Ok \<lparr>da_share_id = sid, da_capability_sets = cs\<rparr> \<and>
    server_reads_info (client_info i autologon) =
      Ok \<lparr>iv_security_flags = SEC_INFO_PKT, iv_flags = info_flags i autologon,
          iv_strings = map unicode [li_domain i, li_username i, li_password i,
            li_alternate_shell i, li_working_dir i]\<rparr> \<and>
    (info_flags i autologon AND INFO_AUTOLOGON \<noteq> 0 \<longleftrightarrow> autologon \<and> li_password i \<noteq> [])"
  using parse_share_control_roundtrip [OF assms(1,2)] parse_demand_active_body [OF assms(3-5)]
    server_reads_client_info [of i] info_flags_autologon assms(6) by simp

theorem activation_pdus_read_witness:
  "parse_share_control (share_control PDUTYPE_DEMANDACTIVE 1002 [1, 2] @ []) =
     Ok (\<lparr>sch_pdu_type = PDUTYPE_DEMANDACTIVE, sch_pdu_source = 1002\<rparr>, [1, 2]) \<and>
   info_flags \<lparr>li_domain = [], li_username = rstr ''u'', li_password = rstr ''p'', li_alternate_shell = [],
      li_working_dir = []\<rparr> True AND INFO_AUTOLOGON \<noteq> 0"
proof -
  have u: "length (unicode (rstr ''u'')) < 65536" "length (unicode (rstr ''p'')) < 65536" "length (unicode []) < 65536"
    by code_simp+
  have "rstr ''p'' \<noteq> []" by code_simp
  with u show ?thesis
    using activation_pdus_read [of "[1, 2]" PDUTYPE_DEMANDACTIVE "[]" "[]"
        "\<lparr>li_domain = [], li_username = rstr ''u'', li_password = rstr ''p'', li_alternate_shell = [],
          li_working_dir = []\<rparr>" 1002 "[]" 0 True]
    by (simp add: PDUTYPE_DEMANDACTIVE_def)
qed

section \<open>Virtual channels\<close>

text \<open>
  C36: dynamic channel PDUs. Every PDU, with its channel identifier and length in any width that
  holds them, parses to itself, and the client's data PDUs parse to the data they carry; the
  parser never panics.
\<close>

theorem dvc_pdus_roundtrip:
  assumes "dvc_ok wid sp p" and "wid < 4" and "sp < 4"
  shows "dvc_parse (dvc_encode wid sp p) = Ok p \<and> dvc_parse (dvc_data i payload) = Ok (Data i payload) \<and>
    dvc_parse b \<noteq> Panic"
  using dvc_roundtrip [OF assms] dvc_data_parses dvc_parse_no_panic by blast

theorem dvc_pdus_roundtrip_witness:
  "dvc_parse (dvc_encode 1 2 (DataFirst 300 70000 [1, 2])) = Ok (DataFirst 300 70000 [1, 2]) \<and>
   dvc_parse (dvc_data 70000 [5]) = Ok (Data 70000 [5])"
proof -
  have "dvc_ok 1 2 (DataFirst 300 70000 [1, 2])" by code_simp
  from dvc_pdus_roundtrip [OF this, of 70000 "[5]" "[]"] show ?thesis by simp
qed

text \<open>
  C15: messages arrive whole over a static channel. Cut into chunks of at most 1600 data bytes and
  pushed one after the other, any sequence of messages is delivered, from whatever state the
  reassembler is in.
\<close>

theorem virtual_channel_delivers:
  "(\<exists>r'. push_all (concat (map chunk msgs)) r = (Ok msgs, r')) \<and>
   list_all (\<lambda>c. length c \<le> 8 + CHANNEL_CHUNK_LENGTH) (concat (map chunk msgs))"
proof
  show "\<exists>r'. push_all (concat (map chunk msgs)) r = (Ok msgs, r')" by (rule push_chunks)
  show "list_all (\<lambda>c. length c \<le> 8 + CHANNEL_CHUNK_LENGTH) (concat (map chunk msgs))"
    by (induction msgs) (simp_all add: chunk_sizes)
qed

text \<open>
  C16: the reassembler is a two-mode machine. A push that succeeds is a step of the machine, and
  every step of the machine is what some push does; without a FIRST chunk the idle machine does
  not move.
\<close>

theorem reassembler_refines_machine:
  "(\<forall>out r'. push (chunk_pdu tot a b data) r = (Ok out, r') \<longrightarrow> vc_step (mode_of r) (a, b, data) out (mode_of r')) \<and>
   (\<forall>out m'. vc_step (mode_of r) (a, b, data) out m' \<longrightarrow>
      (\<exists>r'. push (chunk_pdu tot a b data) r = (Ok out, r') \<and> mode_of r' = m')) \<and>
   (\<forall>out m'. vc_step Idle (a, b, data) out m' \<longrightarrow> a)"
  using push_vc_step vc_step_push idle_needs_first by blast

theorem reassembler_refines_machine_witness:
  "vc_step (mode_of reassembler_new) (True, False, [1, 2])  None (Collecting [1, 2]) \<and>
   (\<exists>r'. push (chunk_pdu 4 True False [1, 2]) reassembler_new = (Ok None, r') \<and> mode_of r' = Collecting [1, 2])"
  using reassembler_refines_machine [of 4 True False "[1, 2]" reassembler_new]
    vc_step.start [of "mode_of reassembler_new" "[1, 2]"] by blast

section \<open>The UDP tunnel and input\<close>

text \<open>
  C26: receiving over the tunnel terminates at the first data PDU. Any number of other tunnel PDUs,
  with or without subheaders, is skipped; one pass more than there are skipped PDUs suffices; and
  what follows stays in the stream.
\<close>

theorem tunnel_receives_data:
  assumes "list_all skippable fs" and "frame_fits sub body" and "b0 AND 0x0f = ACTION_DATA" and "length fs < fuel"
  shows "tunnel_recv_pdu mem_read fuel
      \<lparr>ms_in = concat (map skip_frame fs) @ tunnel_frame b0 sub body @ r, ms_out = w\<rparr> =
    (Ok (Some body), \<lparr>ms_in = r, ms_out = w\<rparr>)"
  using mem_reads [OF mem.tunnel_recv_reads [OF assms]] by simp

theorem tunnel_receives_data_witness:
  "tunnel_recv_pdu mem_read 2
     \<lparr>ms_in = concat (map skip_frame [(0x01, [], [0, 0, 0, 0])]) @ tunnel_frame 0x02 [9] [1, 2, 3] @ [], ms_out = []\<rparr> =
   (Ok (Some [1, 2, 3]), \<lparr>ms_in = [], ms_out = []\<rparr>)"
  by (rule tunnel_receives_data) (simp_all add: skippable_def frame_fits_def emt_consts)

text \<open>
  C27: opening the tunnel sends one Create Request, with the request identifier and cookie of the
  server's offer, and succeeds exactly when the reply is a Create Response with result zero.
\<close>

theorem tunnel_opens_on_success:
  assumes "open_transport s = (Ok True, t)"
    and "frame_fits sub body" and "ms_in t = tunnel_frame b0 sub body @ r"
  shows "\<exists>u. tunnel_establish open_transport mem_read mem_write req s =
      (and_then (tunnel_body (b0 AND 0x0f) body) accept_reply, u) \<and> ms_in u = r \<and>
    ms_out u = ms_out t @ create_request (ir_request_id req) (ir_security_cookie req) \<and>
    (fst (tunnel_establish open_transport mem_read mem_write req s) = Ok () \<longleftrightarrow>
       b0 AND 0x0f = ACTION_CREATERESPONSE \<and> 4 \<le> length body \<and>
       u32_from_le_bytes (body ! 0) (body ! 1) (body ! 2) (body ! 3) = 0)"
proof -
  have "and_then (tunnel_body (b0 AND 0x0f) body) accept_reply = Ok () \<longleftrightarrow>
      b0 AND 0x0f = ACTION_CREATERESPONSE \<and> 4 \<le> length body \<and>
      u32_from_le_bytes (body ! 0) (body ! 1) (body ! 2) (body ! 3) = 0"
    by (auto simp: tunnel_body_def accept_reply_def not_less)
  then show ?thesis
    using mem.tunnel_establish_verdict [where op = open_transport and s = s and t = t and sent = "ms_out t" and sub = sub
        and body = body and ?b0.0 = b0 and r = r and req = req, OF assms(1) refl assms(2,3)] by auto
qed

theorem tunnel_opens_on_success_witness:
  "fst (tunnel_establish (io_ok True) mem_read mem_write sample_offer
     \<lparr>ms_in = tunnel_frame 0x01 [] [0, 0, 0, 0] @ [], ms_out = []\<rparr>) = Ok ()"
  using tunnel_opens_on_success [of "io_ok True" "\<lparr>ms_in = tunnel_frame 0x01 [] [0, 0, 0, 0] @ [], ms_out = []\<rparr>" _
      "[]" "[0, 0, 0, 0]" 1 "[]" sample_offer]
  by (auto simp: io_ok_def frame_fits_def emt_consts u32_from_le_bytes_def)

text \<open>
  C31: input arrives as it was typed. A server reads out of an input PDU exactly the events it was
  built from, up to 255 of them, and the length it announces is its own.
\<close>

theorem input_events_arrive:
  assumes "events \<noteq> []" and "length events < 256" and "length (input_body (map event_bytes events)) + 3 < 0x8000"
  shows "read_input (input_pdu (map event_bytes events)) = Ok (events, length (input_pdu (map event_bytes events)))"
  by (rule read_input_pdu [OF assms])

theorem input_events_arrive_witness:
  "read_input (input_pdu (map event_bytes [Scancode 0x1E True False, Mouse 0x0800 10 20, Unicode_Key 0x41 False])) =
   Ok ([Scancode 0x1E True False, Mouse 0x0800 10 20, Unicode_Key 0x41 False],
       length (input_pdu (map event_bytes [Scancode 0x1E True False, Mouse 0x0800 10 20, Unicode_Key 0x41 False])))"
  by (rule input_events_arrive) (simp_all add: input_body_def scancode_event_def mouse_event_def unicode_event_def put_u8_def)

section \<open>No panics\<close>

text \<open>
  C39: no peer can crash these parsers: for every input they return a value or an error.
\<close>

theorem parsers_never_panic:
  "tpkt_decode b \<noteq> Panic \<and> neg_request_read b \<noteq> Panic \<and> neg_response_read b \<noteq> Panic \<and>
   per_read_length b \<noteq> Panic \<and> ber_read_length b \<noteq> Panic \<and> ber_read_integer b \<noteq> Panic \<and>
   parse_connect_response b \<noteq> Panic \<and> parse_conference_create_response b \<noteq> Panic \<and>
   parse_server_network_data b \<noteq> Panic \<and> parse_channel_join_confirm b \<noteq> Panic \<and>
   parse_send_data_indication b \<noteq> Panic \<and> parse_share_control b \<noteq> Panic \<and> parse_share_data b \<noteq> Panic \<and>
   parse_demand_active b \<noteq> Panic \<and> initiate_request_parse b \<noteq> Panic \<and> detect b \<noteq> Panic \<and>
   read_tlv b \<noteq> Panic \<and> der_read_integer b \<noteq> Panic \<and> subject_public_key b \<noteq> Panic \<and>
   emt_parse b \<noteq> Panic \<and> fst (push b r) \<noteq> Panic \<and> decode_color_pointer b \<noteq> Panic \<and>
   decode_new_pointer b \<noteq> Panic \<and> fst (unseal P b ctx) \<noteq> Panic"
  by (simp add: no_panic push_no_panic unseal_no_panic)

end
