(* ===== verification/Viewer.thy ===== *)
theory Viewer
  imports Session_Spec Complex_Main
begin

text \<open>
  The viewer (\<open>examples/viewer.rs\<close>): two threads around one session. The worker owns the session;
  it connects, drains the input channel, pumps, and publishes each changed framebuffer under a
  lock. The window thread takes the lock to upload the newest frame as a texture, turns what the
  user did into input events and sends them as a batch. What the threads share is the frame behind
  the mutex and the channel; a step below is a critical section, a channel operation, or code that
  touches only its own thread's data, so that every interleaving of the two programs is a run.

  Parameters: the session's transport operations as in \<open>Session\<close>, the outcome \<open>conn\<close> of
  \<open>RdpSession::connect\<close>, and \<open>up\<close>, the texture made from a width, a height and RGBA bytes
  (\<open>egui::ColorImage::from_rgba_unmultiplied\<close>, which panics on a size that does not fit:
  \<open>None\<close>). Coordinates are finite floats, here rationals.
\<close>

section \<open>The state of the two threads\<close>

text \<open>The text shown instead of the desktop: \<open>connect failed: {e}\<close> and \<open>session ended: {e}\<close>.\<close>

datatype viewer_error = Connect_Failed error | Session_Ended error

record shared_frame =
  sf_rgba :: bytes
  sf_width :: nat
  sf_height :: nat
  sf_generation :: u64
  sf_error :: "viewer_error option"

definition shared_frame_default :: shared_frame where
  "shared_frame_default =
     \<lparr>sf_rgba = [], sf_width = 0, sf_height = 0, sf_generation = 0, sf_error = None\<rparr>"

text \<open>
  Where the worker stands: \<open>Pumping\<close> once the channel was found empty, \<open>Leaving\<close> when its closure
  ends or unwinds, \<open>Stopped\<close> when the receiver is dropped.
\<close>

datatype 'w worker = Connecting | Draining 'w | Pumping 'w | Publishing 'w | Leaving | Stopped

text \<open>Where the window thread stands in \<open>ui\<close>; \<open>Crashed\<close> after a panic.\<close>

datatype ui_phase = Refreshing | Reading_Input | Crashed

record ('w, 't) viewer =
  vw_worker :: "'w worker"
  vw_frame :: shared_frame
  vw_queue :: "bytes list list"
  vw_ui :: ui_phase
  vw_texture :: "'t option"
  vw_last_generation :: u64

definition viewer_start :: "('w, 't) viewer" where
  "viewer_start =
     \<lparr>vw_worker = Connecting, vw_frame = shared_frame_default, vw_queue = [], vw_ui = Refreshing,
      vw_texture = None, vw_last_generation = 0\<rparr>"

definition viewer_params :: "rstring list \<Rightarrow> session_params option" where
  "viewer_params args =
     (if length args < 4 then None
      else
        let params = session_params_new (args ! 1) (args ! 2) (args ! 3)
        in Some (if 4 < length args then params\<lparr>sp_domain := args ! 4\<rparr> else params))"

section \<open>The worker\<close>

text \<open>What a step makes visible to the other thread.\<close>

datatype viewer_event = Silent | Sent "bytes list" | Received "bytes list" | Published nat nat bytes

definition fail_with :: "viewer_error \<Rightarrow> ('w, 't) viewer \<Rightarrow> ('w, 't) viewer" where
  "fail_with e v = v\<lparr>vw_worker := Leaving, vw_frame := (vw_frame v)\<lparr>sf_error := Some e\<rparr>\<rparr>"

definition publish :: "framebuffer \<Rightarrow> shared_frame \<Rightarrow> shared_frame" where
  "publish fb f =
     f\<lparr>sf_rgba := fb_pixels fb, sf_width := fb_width fb, sf_height := fb_height fb,
       sf_generation := sf_generation f + 1\<rparr>"

definition worker_step ::
    "bool \<Rightarrow> (nat \<Rightarrow> ('s, bytes) io) \<Rightarrow> ('s, read_outcome) io \<Rightarrow> (bytes \<Rightarrow> ('s, unit) io) \<Rightarrow>
     ('s, 'u) rdp_session result \<Rightarrow> (('s, 'u) rdp_session, 't) viewer \<Rightarrow>
     (viewer_event \<times> (('s, 'u) rdp_session, 't) viewer) option" where
  "worker_step da rd rd1 wr conn v =
     (case vw_worker v of
        Connecting \<Rightarrow> Some (Silent,
          case conn of
            Ok s \<Rightarrow> v\<lparr>vw_worker := Draining s\<rparr>
          | Err e \<Rightarrow> fail_with (Connect_Failed e) v
          | Panic \<Rightarrow> v\<lparr>vw_worker := Leaving\<rparr>)
      | Draining s \<Rightarrow>
          (case vw_queue v of
             events # queue \<Rightarrow> Some (Received events,
               case send_input wr events s of
                 (Panic, s) \<Rightarrow> v\<lparr>vw_queue := queue, vw_worker := Leaving\<rparr>
               | (_, s) \<Rightarrow> v\<lparr>vw_queue := queue, vw_worker := Draining s\<rparr>)
           | [] \<Rightarrow> Some (Silent, v\<lparr>vw_worker := Pumping s\<rparr>))
      | Pumping s \<Rightarrow> Some (Silent,
          case pump da rd rd1 s of
            (Ok True, s) \<Rightarrow> v\<lparr>vw_worker := Publishing s\<rparr>
          | (Ok False, s) \<Rightarrow> v\<lparr>vw_worker := Draining s\<rparr>
          | (Err e, s) \<Rightarrow> fail_with (Session_Ended e) v
          | (Panic, s) \<Rightarrow> v\<lparr>vw_worker := Leaving\<rparr>)
      | Publishing s \<Rightarrow>
          (let fb = session_framebuffer s
           in Some (Published (fb_width fb) (fb_height fb) (fb_pixels fb),
                v\<lparr>vw_frame := publish fb (vw_frame v), vw_worker := Draining s\<rparr>))
      | Leaving \<Rightarrow> Some (Silent, v\<lparr>vw_worker := Stopped\<rparr>)
      | Stopped \<Rightarrow> None)"

section \<open>The window\<close>

text \<open>What the toolkit reports in one frame: the pointer relative to the image, and typed text.\<close>

record ui_input =
  ui_hover :: "(rat \<times> rat) option"
  ui_button_down :: bool
  ui_texts :: "rstring list"

text \<open>\<open>rel.x.max(0.0) as u16\<close>: the cast truncates and saturates.\<close>

definition coord :: "rat \<Rightarrow> u16" where
  "coord x = of_int (min 65535 \<lfloor>max x 0\<rfloor>)"

definition text_events :: "rstring \<Rightarrow> bytes list" where
  "text_events chars = concat (map (\<lambda>ch. [unicode_event (of_nat ch) True, unicode_event (of_nat ch) False]) chars)"

definition pointer_events :: "ui_input \<Rightarrow> bytes list" where
  "pointer_events i =
     (case ui_hover i of
        None \<Rightarrow> []
      | Some (x, y) \<Rightarrow>
          (let flags = PTRFLAGS_MOVE;
               flags = (if ui_button_down i then flags OR (PTRFLAGS_DOWN OR PTRFLAGS_BUTTON1) else flags)
           in [mouse_event flags (coord x) (coord y)]))"

definition ui_events :: "ui_input \<Rightarrow> bytes list" where
  "ui_events i = pointer_events i @ concat (map text_events (ui_texts i))"

text \<open>The critical section of \<open>ui\<close> and the returns before input is looked at.\<close>

definition ui_refresh ::
    "(nat \<Rightarrow> nat \<Rightarrow> bytes \<Rightarrow> 't option) \<Rightarrow> ('w, 't) viewer \<Rightarrow> ('w, 't) viewer" where
  "ui_refresh up v =
     (let f = vw_frame v
      in if sf_error f \<noteq> None then v
         else if sf_generation f \<noteq> vw_last_generation v \<and> sf_width f > 0 then
           (case up (sf_width f) (sf_height f) (sf_rgba f) of
              None \<Rightarrow> v\<lparr>vw_ui := Crashed\<rparr>
            | Some t \<Rightarrow>
                v\<lparr>vw_texture := Some t, vw_last_generation := sf_generation f, vw_ui := Reading_Input\<rparr>)
         else if vw_texture v = None then v
         else v\<lparr>vw_ui := Reading_Input\<rparr>)"

text \<open>Sending to a worker that has stopped fails, and the failure is ignored.\<close>

definition ui_collect :: "ui_input \<Rightarrow> ('w, 't) viewer \<Rightarrow> viewer_event \<times> ('w, 't) viewer" where
  "ui_collect i v =
     (let events = ui_events i; v' = v\<lparr>vw_ui := Refreshing\<rparr>
      in if events = [] \<or> vw_worker v = Stopped then (Silent, v')
         else (Sent events, v'\<lparr>vw_queue := vw_queue v @ [events]\<rparr>))"

section \<open>Interleavings\<close>

inductive viewer_step ::
    "bool \<Rightarrow> (nat \<Rightarrow> ('s, bytes) io) \<Rightarrow> ('s, read_outcome) io \<Rightarrow> (bytes \<Rightarrow> ('s, unit) io) \<Rightarrow>
     (nat \<Rightarrow> nat \<Rightarrow> bytes \<Rightarrow> 't option) \<Rightarrow> ('s, 'u) rdp_session result \<Rightarrow>
     (('s, 'u) rdp_session, 't) viewer \<Rightarrow> viewer_event \<Rightarrow> (('s, 'u) rdp_session, 't) viewer \<Rightarrow> bool"
  for da rd rd1 wr up conn where
  worker: "worker_step da rd rd1 wr conn v = Some (l, v') \<Longrightarrow> viewer_step da rd rd1 wr up conn v l v'"
| refresh: "vw_ui v = Refreshing \<Longrightarrow> viewer_step da rd rd1 wr up conn v Silent (ui_refresh up v)"
| collect: "vw_ui v = Reading_Input \<Longrightarrow> ui_collect i v = (l, v') \<Longrightarrow> viewer_step da rd rd1 wr up conn v l v'"

inductive viewer_run ::
    "bool \<Rightarrow> (nat \<Rightarrow> ('s, bytes) io) \<Rightarrow> ('s, read_outcome) io \<Rightarrow> (bytes \<Rightarrow> ('s, unit) io) \<Rightarrow>
     (nat \<Rightarrow> nat \<Rightarrow> bytes \<Rightarrow> 't option) \<Rightarrow> ('s, 'u) rdp_session result \<Rightarrow>
     viewer_event list \<Rightarrow> (('s, 'u) rdp_session, 't) viewer \<Rightarrow> bool"
  for da rd rd1 wr up conn where
  start: "viewer_run da rd rd1 wr up conn [] viewer_start"
| step: "viewer_run da rd rd1 wr up conn ls v \<Longrightarrow> viewer_step da rd rd1 wr up conn v l v' \<Longrightarrow>
    viewer_run da rd rd1 wr up conn (ls @ [l]) v'"

fun published :: "viewer_event list \<Rightarrow> (nat \<times> nat \<times> bytes) list" where
  "published [] = []"
| "published (Published w h px # ls) = (w, h, px) # published ls"
| "published (_ # ls) = published ls"

fun sent_batches :: "viewer_event list \<Rightarrow> bytes list list" where
  "sent_batches [] = []"
| "sent_batches (Sent es # ls) = es # sent_batches ls"
| "sent_batches (_ # ls) = sent_batches ls"

fun received_batches :: "viewer_event list \<Rightarrow> bytes list list" where
  "received_batches [] = []"
| "received_batches (Received es # ls) = es # received_batches ls"
| "received_batches (_ # ls) = received_batches ls"

lemma published_append [simp]: "published (ls @ ms) = published ls @ published ms"
  by (induction ls rule: published.induct) simp_all

lemma sent_batches_append [simp]: "sent_batches (ls @ ms) = sent_batches ls @ sent_batches ms"
  by (induction ls rule: sent_batches.induct) simp_all

lemma received_batches_append [simp]: "received_batches (ls @ ms) = received_batches ls @ received_batches ms"
  by (induction ls rule: received_batches.induct) simp_all

text \<open>Interleavings as schedules: whose turn it is, and what the user does.\<close>

datatype turn = Worker_Turn | Refresh_Turn | Collect_Turn ui_input

definition viewer_turn ::
    "bool \<Rightarrow> (nat \<Rightarrow> ('s, bytes) io) \<Rightarrow> ('s, read_outcome) io \<Rightarrow> (bytes \<Rightarrow> ('s, unit) io) \<Rightarrow>
     (nat \<Rightarrow> nat \<Rightarrow> bytes \<Rightarrow> 't option) \<Rightarrow> ('s, 'u) rdp_session result \<Rightarrow> turn \<Rightarrow>
     (('s, 'u) rdp_session, 't) viewer \<Rightarrow> (viewer_event \<times> (('s, 'u) rdp_session, 't) viewer) option" where
  "viewer_turn da rd rd1 wr up conn t v =
     (case t of
        Worker_Turn \<Rightarrow> worker_step da rd rd1 wr conn v
      | Refresh_Turn \<Rightarrow> (case vw_ui v of Refreshing \<Rightarrow> Some (Silent, ui_refresh up v) | _ \<Rightarrow> None)
      | Collect_Turn i \<Rightarrow> (case vw_ui v of Reading_Input \<Rightarrow> Some (ui_collect i v) | _ \<Rightarrow> None))"

fun viewer_schedule ::
    "bool \<Rightarrow> (nat \<Rightarrow> ('s, bytes) io) \<Rightarrow> ('s, read_outcome) io \<Rightarrow> (bytes \<Rightarrow> ('s, unit) io) \<Rightarrow>
     (nat \<Rightarrow> nat \<Rightarrow> bytes \<Rightarrow> 't option) \<Rightarrow> ('s, 'u) rdp_session result \<Rightarrow> turn list \<Rightarrow>
     (('s, 'u) rdp_session, 't) viewer \<Rightarrow> (viewer_event list \<times> (('s, 'u) rdp_session, 't) viewer) option" where
  "viewer_schedule da rd rd1 wr up conn [] v = Some ([], v)"
| "viewer_schedule da rd rd1 wr up conn (t # ts) v =
     (case viewer_turn da rd rd1 wr up conn t v of
        None \<Rightarrow> None
      | Some (l, v) \<Rightarrow>
          map_option (\<lambda>(ls, v). (l # ls, v)) (viewer_schedule da rd rd1 wr up conn ts v))"

lemma viewer_turn_step:
  "viewer_turn da rd rd1 wr up conn t v = Some (l, v') \<Longrightarrow> viewer_step da rd rd1 wr up conn v l v'"
  by (auto simp: viewer_turn_def intro: viewer_step.intros split: turn.splits ui_phase.splits)

lemma viewer_schedule_run:
  "viewer_run da rd rd1 wr up conn ls v \<Longrightarrow>
   viewer_schedule da rd rd1 wr up conn ts v = Some (ms, v') \<Longrightarrow>
   viewer_run da rd rd1 wr up conn (ls @ ms) v'"
proof (induction ts arbitrary: ls v ms)
  case (Cons t ts)
  then obtain l u ns where "viewer_turn da rd rd1 wr up conn t v = Some (l, u)"
      "viewer_schedule da rd rd1 wr up conn ts u = Some (ns, v')" "ms = l # ns"
    by (auto split: option.splits)
  then show ?case
    using Cons.IH [of "ls @ [l]" u ns] viewer_run.step [OF Cons.prems(1) viewer_turn_step] by simp
qed simp

section \<open>What the window shows\<close>

definition session_sized :: "nat \<Rightarrow> nat \<Rightarrow> ('s, 'u) rdp_session \<Rightarrow> bool" where
  "session_sized W H s \<longleftrightarrow> display_ok (rs_display s) \<and>
     fb_width (session_framebuffer s) = W \<and> fb_height (session_framebuffer s) = H"

definition full_frame :: "nat \<Rightarrow> nat \<Rightarrow> nat \<times> nat \<times> bytes \<Rightarrow> bool" where
  "full_frame W H p \<longleftrightarrow> (case p of (w, h, px) \<Rightarrow> w = W \<and> h = H \<and> length px = W * H * 4)"

definition frame_after :: "(nat \<times> nat \<times> bytes) list \<Rightarrow> shared_frame \<Rightarrow> bool" where
  "frame_after ps f \<longleftrightarrow> sf_generation f = of_nat (length ps) \<and>
     (sf_width f, sf_height f, sf_rgba f) = (if ps = [] then (0, 0, []) else last ps)"

definition texture_of :: "(nat \<Rightarrow> nat \<Rightarrow> bytes \<Rightarrow> 't option) \<Rightarrow> nat \<times> nat \<times> bytes \<Rightarrow> 't option" where
  "texture_of up p = (case p of (w, h, px) \<Rightarrow> up w h px)"

text \<open>The texture is that of the \<open>i\<close>-th published frame, and its generation is remembered.\<close>

definition shows_published ::
    "(nat \<Rightarrow> nat \<Rightarrow> bytes \<Rightarrow> 't option) \<Rightarrow> (nat \<times> nat \<times> bytes) list \<Rightarrow> 't option \<Rightarrow> u64 \<Rightarrow> bool" where
  "shows_published up ps texture g \<longleftrightarrow>
     (case texture of
        None \<Rightarrow> g = 0
      | Some t \<Rightarrow> \<exists>i < length ps. texture_of up (ps ! i) = Some t \<and> g = of_nat (Suc i))"

definition worker_sized :: "nat \<Rightarrow> nat \<Rightarrow> ('s, 'u) rdp_session worker \<Rightarrow> bool" where
  "worker_sized W H w \<longleftrightarrow>
     (case w of Draining s \<Rightarrow> session_sized W H s | Pumping s \<Rightarrow> session_sized W H s | Publishing s \<Rightarrow> session_sized W H s | _ \<Rightarrow> True)"

definition viewer_inv ::
    "(nat \<Rightarrow> nat \<Rightarrow> bytes \<Rightarrow> 't option) \<Rightarrow> nat \<Rightarrow> nat \<Rightarrow> viewer_event list \<Rightarrow>
     (('s, 'u) rdp_session, 't) viewer \<Rightarrow> bool" where
  "viewer_inv up W H ls v \<longleftrightarrow> worker_sized W H (vw_worker v) \<and>
     list_all (full_frame W H) (published ls) \<and> frame_after (published ls) (vw_frame v) \<and>
     shows_published up (published ls) (vw_texture v) (vw_last_generation v) \<and> vw_ui v \<noteq> Crashed"

text \<open>Whether the texture is up to date only depends on the frames published so far.\<close>

lemma shows_published_append:
  "shows_published up ps t g \<Longrightarrow> shows_published up (ps @ qs) t g"
  unfolding shows_published_def by (force split: option.splits simp: nth_append)

lemma send_input_sized: "session_sized W H s \<Longrightarrow> send_input wr es s = (r, s') \<Longrightarrow> session_sized W H s'"
  by (auto simp: send_input_def on_transport_def session_sized_def session_framebuffer_def split: prod.splits)

lemma pump_sized: "session_sized W H s \<Longrightarrow> pump da rd rd1 s = (r, s') \<Longrightarrow> session_sized W H s'"
  using pump_ok [of s da rd rd1 r s'] by (simp add: session_sized_def session_framebuffer_def same_size_def)

lemma session_sized_frame:
  "session_sized W H s \<Longrightarrow>
   full_frame W H (fb_width (session_framebuffer s), fb_height (session_framebuffer s), fb_pixels (session_framebuffer s))"
  by (simp add: session_sized_def session_framebuffer_def full_frame_def display_ok_def fb_ok_def)

lemma frame_after_publish:
  "frame_after ps f \<Longrightarrow> frame_after (ps @ [(fb_width fb, fb_height fb, fb_pixels fb)]) (publish fb f)"
  by (simp add: frame_after_def publish_def)

lemma frame_after_error [simp]: "frame_after ps (f\<lparr>sf_error := e\<rparr>) = frame_after ps f"
  by (simp add: frame_after_def)

lemma worker_step_inv:
  assumes "viewer_inv up W H ls v" and "worker_step da rd rd1 wr conn v = Some (l, v')"
    and "pred_result (session_sized W H) conn"
  shows "viewer_inv up W H (ls @ [l]) v'"
proof (cases "vw_worker v")
  case Connecting
  then show ?thesis using assms
    by (auto simp: worker_step_def fail_with_def viewer_inv_def worker_sized_def split: result.splits)
next
  case (Draining s)
  then show ?thesis using assms
    by (auto simp: worker_step_def fail_with_def viewer_inv_def worker_sized_def
        split: result.splits list.splits prod.splits dest: send_input_sized)
next
  case (Pumping s)
  then show ?thesis using assms
    by (auto simp: worker_step_def fail_with_def viewer_inv_def worker_sized_def
        split: result.splits prod.splits bool.splits dest: pump_sized)
next
  case (Publishing s)
  then show ?thesis using assms
    by (auto simp: worker_step_def viewer_inv_def worker_sized_def session_sized_frame frame_after_publish
        shows_published_append Let_def)
next
  case Leaving
  then show ?thesis using assms by (auto simp: worker_step_def viewer_inv_def worker_sized_def)
next
  case Stopped
  then show ?thesis using assms(2) by (simp add: worker_step_def)
qed

text \<open>The toolkit accepts bytes that fit the size it is told.\<close>

definition accepts_frames :: "(nat \<Rightarrow> nat \<Rightarrow> bytes \<Rightarrow> 't option) \<Rightarrow> bool" where
  "accepts_frames up \<longleftrightarrow> (\<forall>w h px. length px = w * h * 4 \<longrightarrow> up w h px \<noteq> None)"

lemma ui_refresh_inv:
  assumes "viewer_inv up W H ls v" and "vw_ui v = Refreshing" and "accepts_frames up"
  shows "viewer_inv up W H (ls @ [Silent]) (ui_refresh up v)"
proof -
  let ?f = "vw_frame v" and ?ps = "published ls"
  have inv: "list_all (full_frame W H) ?ps" "frame_after ?ps ?f"
    using assms(1) by (simp_all add: viewer_inv_def)
  show ?thesis
  proof (cases "sf_error ?f = None \<and> sf_generation ?f \<noteq> vw_last_generation v \<and> sf_width ?f > 0")
    case True
    then have ps: "?ps \<noteq> []" using inv(2) by (auto simp: frame_after_def)
    then have last: "(sf_width ?f, sf_height ?f, sf_rgba ?f) = last ?ps" "full_frame W H (last ?ps)"
      using inv by (auto simp: frame_after_def list_all_iff)
    then obtain t where t: "up (sf_width ?f) (sf_height ?f) (sf_rgba ?f) = Some t"
      using assms(3) unfolding accepts_frames_def full_frame_def by (cases "last ?ps") fastforce
    have "?ps ! (length ?ps - 1) = (sf_width ?f, sf_height ?f, sf_rgba ?f)"
      using ps last(1) by (simp add: last_conv_nth)
    then have "texture_of up (?ps ! (length ?ps - 1)) = Some t"
      using t by (simp add: texture_of_def)
    moreover have "length ?ps - 1 < length ?ps \<and> sf_generation ?f = of_nat (Suc (length ?ps - 1))"
      using ps inv(2) by (simp add: frame_after_def del: of_nat_Suc)
    ultimately have "shows_published up ?ps (Some t) (sf_generation ?f)"
      unfolding shows_published_def by auto
    then show ?thesis using assms(1) True t by (simp add: ui_refresh_def viewer_inv_def Let_def)
  next
    case False
    then show ?thesis using assms(1) by (auto simp: ui_refresh_def viewer_inv_def Let_def)
  qed
qed

lemma ui_collect_inv:
  "viewer_inv up W H ls v \<Longrightarrow> ui_collect i v = (l, v') \<Longrightarrow> viewer_inv up W H (ls @ [l]) v'"
  by (auto simp: ui_collect_def viewer_inv_def Let_def split: if_splits)

lemma viewer_run_inv:
  assumes "viewer_run da rd rd1 wr up conn ls v" and "pred_result (session_sized W H) conn" and "accepts_frames up"
  shows "viewer_inv up W H ls v"
  using assms(1)
proof (induction rule: viewer_run.induct)
  case start
  show ?case
    by (simp add: viewer_inv_def viewer_start_def worker_sized_def frame_after_def shows_published_def
        shared_frame_default_def)
next
  case (step ls v l v')
  from step(2) show ?case
    by (cases rule: viewer_step.cases)
      (use step.IH assms(2,3) in \<open>auto intro: worker_step_inv ui_refresh_inv ui_collect_inv\<close>)
qed

text \<open>
  Once the window has caught up with the generation it shows the newest frame, as long as the
  64-bit generation has not wrapped around.
\<close>

lemma viewer_caught_up:
  assumes "viewer_inv up W H ls v" and "length (published ls) < 2 ^ 64" and "published ls \<noteq> []"
    and "vw_last_generation v = sf_generation (vw_frame v)"
  shows "vw_texture v = texture_of up (last (published ls))"
proof -
  let ?n = "length (published ls)"
  have unat: "unat (of_nat k :: u64) = k" if "k \<le> ?n" for k
    using that assms(2) by (simp add: unat_of_nat take_bit_nat_eq_self)
  have g: "vw_last_generation v = of_nat ?n"
    using assms(1,4) by (simp add: viewer_inv_def frame_after_def)
  then have "vw_last_generation v \<noteq> 0" using unat [of ?n] assms(3) by auto
  then obtain t i where ti: "vw_texture v = Some t" "i < ?n" "texture_of up (published ls ! i) = Some t"
      "vw_last_generation v = of_nat (Suc i)"
    using assms(1) by (auto simp: viewer_inv_def shows_published_def split: option.splits)
  have "Suc i = ?n" using unat [of "Suc i"] unat [of ?n] ti(2,4) g by (simp del: of_nat_Suc)
  then have "published ls ! i = last (published ls)" using assms(3) by (metis diff_Suc_1 last_conv_nth)
  then show ?thesis using ti(1,3) by simp
qed

section \<open>The input channel\<close>

lemma worker_step_batches:
  assumes "worker_step da rd rd1 wr conn v = Some (l, v')"
    and "received_batches ls @ vw_queue v = sent_batches ls"
  shows "received_batches (ls @ [l]) @ vw_queue v' = sent_batches (ls @ [l])"
  using assms
  by (auto simp: worker_step_def fail_with_def Let_def
      split: worker.splits result.splits list.splits prod.splits bool.splits)

text \<open>Nothing is lost, duplicated or reordered between the window and the worker.\<close>

lemma viewer_run_batches:
  "viewer_run da rd rd1 wr up conn ls v \<Longrightarrow> received_batches ls @ vw_queue v = sent_batches ls"
proof (induction rule: viewer_run.induct)
  case (step ls v l v')
  from step(2) show ?case
  proof (cases rule: viewer_step.cases)
    case worker
    then show ?thesis using step.IH by (rule worker_step_batches)
  next
    case refresh
    then show ?thesis using step.IH by (auto simp: ui_refresh_def Let_def split: option.splits)
  next
    case (collect i)
    then show ?thesis using step.IH by (auto simp: ui_collect_def Let_def split: if_splits)
  qed
qed (simp add: viewer_start_def)

lemma ui_refresh_worker [simp]: "vw_worker (ui_refresh up v) = vw_worker v"
  by (simp add: ui_refresh_def Let_def split: option.split)

lemma ui_collect_worker:
  "ui_collect i v = (l, v') \<Longrightarrow> vw_worker v' = vw_worker v \<and> received_batches [l] = []"
  by (auto simp: ui_collect_def Let_def split: if_splits)

section \<open>Progress\<close>

text \<open>
  The worker takes everything off the channel before it reads a frame again, so a batch waits at
  most for the turn in progress and for those before it: \<open>lag\<close> counts the worker's turns until it
  drains the channel next.
\<close>

fun lag :: "'w worker \<Rightarrow> nat" where
  "lag Connecting = 1"
| "lag (Draining s) = 0"
| "lag (Pumping s) = 2"
| "lag (Publishing s) = 1"
| "lag _ = 0"

fun leaving :: "'w worker \<Rightarrow> bool" where
  "leaving Leaving = True"
| "leaving Stopped = True"
| "leaving _ = False"

definition worker_turns :: "turn list \<Rightarrow> nat" where
  "worker_turns ts = length (filter (\<lambda>t. t = Worker_Turn) ts)"

lemma lag_le_2: "lag w \<le> 2"
  by (cases w) simp_all

lemma worker_turns_simps [simp]:
  "worker_turns [] = 0" "worker_turns (Worker_Turn # ts) = Suc (worker_turns ts)"
  "worker_turns (Refresh_Turn # ts) = worker_turns ts" "worker_turns (Collect_Turn i # ts) = worker_turns ts"
  by (simp_all add: worker_turns_def)

lemma worker_step_leaving:
  "worker_step da rd rd1 wr conn v = Some (l, v') \<Longrightarrow> leaving (vw_worker v) \<Longrightarrow> leaving (vw_worker v')"
  by (cases "vw_worker v") (auto simp: worker_step_def)

lemma viewer_schedule_leaving:
  "viewer_schedule da rd rd1 wr up conn ts v = Some (ms, v') \<Longrightarrow> leaving (vw_worker v) \<Longrightarrow> leaving (vw_worker v')"
proof (induction ts arbitrary: v ms)
  case (Cons t ts)
  then obtain l u ns where u: "viewer_turn da rd rd1 wr up conn t v = Some (l, u)"
      "viewer_schedule da rd rd1 wr up conn ts u = Some (ns, v')" by (auto split: option.splits)
  have "leaving (vw_worker u)"
    using u(1) Cons.prems(2)
    by (auto simp: viewer_turn_def dest: worker_step_leaving ui_collect_worker split: turn.splits ui_phase.splits)
  then show ?case using Cons.IH u(2) by blast
qed simp

text \<open>One turn of the worker with batches waiting: it takes the first, or comes closer to it.\<close>

lemma worker_step_progress:
  assumes "worker_step da rd rd1 wr conn v = Some (l, v')" and "vw_queue v = b # q" and "\<not> leaving (vw_worker v')"
  shows "(received_batches [l] = [b] \<and> vw_queue v' = q \<and> lag (vw_worker v') = 0 \<and> lag (vw_worker v) = 0) \<or>
    (received_batches [l] = [] \<and> vw_queue v' = vw_queue v \<and> Suc (lag (vw_worker v')) \<le> lag (vw_worker v))"
  using assms
  by (auto simp: worker_step_def fail_with_def Let_def split: worker.splits result.splits prod.splits bool.splits)

lemma viewer_schedule_takes:
  assumes "viewer_schedule da rd rd1 wr up conn ts v = Some (ms, v')" and "\<not> leaving (vw_worker v')"
    and "vw_queue v = q @ q'" and "length q + lag (vw_worker v) \<le> worker_turns ts"
  shows "\<exists>rest. received_batches ms = q @ rest"
  using assms
proof (induction ts arbitrary: v ms q q')
  case (Cons t ts)
  obtain l u ns where u: "viewer_turn da rd rd1 wr up conn t v = Some (l, u)"
      "viewer_schedule da rd rd1 wr up conn ts u = Some (ns, v')" and "ms = [l] @ ns"
    using Cons.prems(1) by (auto split: option.splits)
  then have ms: "received_batches ms = received_batches [l] @ received_batches ns"
    by (simp only: received_batches_append)
  have alive: "\<not> leaving (vw_worker u)" using viewer_schedule_leaving [OF u(2)] Cons.prems(2) by blast
  show ?case
  proof (cases q)
    case (Cons b p)
    note IH = Cons.IH [OF u(2) Cons.prems(2)]
    show ?thesis
    proof (cases t)
      case Worker_Turn
      then have w: "worker_step da rd rd1 wr conn v = Some (l, u)" using u(1) by (simp add: viewer_turn_def)
      from worker_step_progress [OF w _ alive, of b "p @ q'"] Cons.prems(3) \<open>q = b # p\<close>
      consider "received_batches [l] = [b]" "vw_queue u = p @ q'" "lag (vw_worker u) = 0"
        | "received_batches [l] = []" "vw_queue u = q @ q'" "Suc (lag (vw_worker u)) \<le> lag (vw_worker v)" by auto
      then show ?thesis
      proof cases
        case 1
        then show ?thesis using IH [of p q'] Cons.prems(4) \<open>q = b # p\<close> Worker_Turn ms by auto
      next
        case 2
        then show ?thesis using IH [of q q'] Cons.prems(4) Worker_Turn ms by auto
      qed
    next
      case Refresh_Turn
      then have "l = Silent" "u = ui_refresh up v" using u(1) by (simp_all add: viewer_turn_def split: ui_phase.splits)
      moreover have "vw_queue (ui_refresh up v) = vw_queue v"
        by (simp add: ui_refresh_def Let_def split: option.split)
      ultimately show ?thesis using IH [of q q'] Cons.prems(3,4) Refresh_Turn ms by simp
    next
      case (Collect_Turn i)
      then have c: "ui_collect i v = (l, u)" using u(1) by (simp add: viewer_turn_def split: ui_phase.splits)
      then obtain e where "vw_queue u = vw_queue v @ e" by (auto simp: ui_collect_def Let_def split: if_splits)
      then show ?thesis using IH [of q "q' @ e"] ui_collect_worker [OF c] Cons.prems(3,4) Collect_Turn ms by simp
    qed
  qed simp
qed simp

text \<open>What the window had sent by some point is received within a bounded number of turns.\<close>

lemma viewer_run_takes:
  assumes "viewer_run da rd rd1 wr up conn ls v" and "viewer_schedule da rd rd1 wr up conn ts v = Some (ms, v')"
    and "\<not> leaving (vw_worker v')" and "length (vw_queue v) + lag (vw_worker v) \<le> worker_turns ts"
  shows "\<exists>rest. received_batches (ls @ ms) = sent_batches ls @ rest"
proof -
  obtain rest where "received_batches ms = vw_queue v @ rest"
    using viewer_schedule_takes [OF assms(2,3), of "vw_queue v" "[]"] assms(4) by auto
  then show ?thesis using viewer_run_batches [OF assms(1)] by (metis append.assoc received_batches_append)
qed

section \<open>What the worker writes\<close>

text \<open>
  A session whose reads write nothing: then what the worker puts on the wire is the input PDUs
  of the batches it took, in order.
\<close>

definition silent :: "('s \<Rightarrow> bytes) \<Rightarrow> ('s, 'a) io \<Rightarrow> bool" where
  "silent written m \<longleftrightarrow> (\<forall>s. written (snd (m s)) = written s)"

lemma silent_bind [intro]: "silent written m \<Longrightarrow> (\<And>x. silent written (f x)) \<Longrightarrow> silent written (io_bind m f)"
  unfolding silent_def io_bind_def by (simp split: prod.splits result.splits) (metis snd_conv)

lemma silent_lift [intro]: "silent written (io_lift r)" "silent written (io_ok x)"
  by (simp_all add: silent_def io_lift_def io_ok_def)

locale input_stream =
  fixes rd :: "nat \<Rightarrow> ('s, bytes) io" and rd1 :: "('s, read_outcome) io" and wr :: "bytes \<Rightarrow> ('s, unit) io"
    and written :: "'s \<Rightarrow> bytes"
  assumes rd_silent: "silent written (rd n)"
    and rd1_silent: "silent written rd1"
    and wr_written: "written (snd (wr bs s)) = written s @ bs"
begin

lemma poll_frame_silent: "silent written (poll_frame rd rd1)"
  unfolding poll_frame_def read_frame_body_def read_slow_path_def read_fast_path_def read_fast_length_def Let_def
  by (auto intro!: silent_bind silent_lift rd_silent rd1_silent split: read_outcome.splits prod.splits)

lemma handle_frame_transport: "rs_transport (snd (handle_frame da f s)) = rs_transport s"
  by (auto simp: handle_frame_def on_display_def io_bind_def io_lift_def io_ok_def
      split: option.splits frame.splits result.splits prod.splits)

lemma pump_silent: "written (rs_transport (snd (pump da rd rd1 s))) = written (rs_transport s)"
proof -
  obtain q t where q: "poll_frame rd rd1 (rs_transport s) = (q, t)" by fastforce
  have t: "written t = written (rs_transport s)"
    using poll_frame_silent q unfolding silent_def by (metis snd_conv)
  show ?thesis
  proof (cases q)
    case (Ok f)
    let ?s = "s\<lparr>rs_display := (rs_display s)\<lparr>dirty := False\<rparr>, rs_transport := t\<rparr>"
    obtain h u where h: "handle_frame da f ?s = (h, u)" by fastforce
    then have "rs_transport u = t" using handle_frame_transport [of da f ?s] by simp
    then show ?thesis using q Ok h t
      by (cases h) (simp_all add: pump_def on_transport_def io_bind_def)
  qed (use q t in \<open>simp_all add: pump_def on_transport_def io_bind_def\<close>)
qed

lemma send_input_writes:
  "written (rs_transport (snd (send_input wr es s))) = written (rs_transport s) @ input_pdu es"
  using wr_written [of "input_pdu es" "rs_transport s"]
  by (simp add: send_input_def on_transport_def case_prod_beta)

text \<open>\<open>w0\<close> is what had been written when the session was connected.\<close>

definition worker_wrote :: "bytes \<Rightarrow> viewer_event list \<Rightarrow> ('s, 'u) rdp_session worker \<Rightarrow> bool" where
  "worker_wrote w0 ls w \<longleftrightarrow>
     (case w of
        Connecting \<Rightarrow> received_batches ls = []
      | Draining s \<Rightarrow> written (rs_transport s) = w0 @ concat (map input_pdu (received_batches ls))
      | Pumping s \<Rightarrow> written (rs_transport s) = w0 @ concat (map input_pdu (received_batches ls))
      | Publishing s \<Rightarrow> written (rs_transport s) = w0 @ concat (map input_pdu (received_batches ls))
      | _ \<Rightarrow> True)"

lemma worker_step_wrote:
  assumes "worker_wrote w0 ls (vw_worker v)" and "worker_step da rd rd1 wr conn v = Some (l, v')"
    and "pred_result (\<lambda>s. written (rs_transport s) = w0) conn"
  shows "worker_wrote w0 (ls @ [l]) (vw_worker v')"
proof (cases "vw_worker v")
  case Connecting
  then show ?thesis using assms
    by (auto simp: worker_step_def fail_with_def worker_wrote_def split: result.splits)
next
  case (Draining s)
  have "send_input wr es s = (r, u) \<Longrightarrow>
      written (rs_transport u) = written (rs_transport s) @ input_pdu es" for es r u
    using send_input_writes [of es s] by simp
  then show ?thesis using Draining assms
    by (auto simp: worker_step_def fail_with_def worker_wrote_def
        split: result.splits list.splits prod.splits)
next
  case (Pumping s)
  have "pump da rd rd1 s = (r, u) \<Longrightarrow> written (rs_transport u) = written (rs_transport s)" for r u
    using pump_silent [of da s] by simp
  then show ?thesis using Pumping assms
    by (auto simp: worker_step_def fail_with_def worker_wrote_def
        split: result.splits prod.splits bool.splits)
next
  case (Publishing s)
  then show ?thesis using assms by (auto simp: worker_step_def worker_wrote_def Let_def)
next
  case Leaving
  then show ?thesis using assms by (auto simp: worker_step_def worker_wrote_def)
qed (use assms(2) in \<open>simp add: worker_step_def\<close>)

lemma viewer_run_wrote:
  assumes "viewer_run da rd rd1 wr up conn ls v"
    and "pred_result (\<lambda>s. written (rs_transport s) = w0) conn"
  shows "worker_wrote w0 ls (vw_worker v)"
  using assms(1)
proof (induction rule: viewer_run.induct)
  case start
  show ?case by (simp add: viewer_start_def worker_wrote_def)
next
  case (step ls v l v')
  from step(2) show ?case
  proof (cases rule: viewer_step.cases)
    case worker
    then show ?thesis using step.IH assms(2) by (blast intro: worker_step_wrote)
  next
    case refresh
    then show ?thesis using step.IH by (simp add: worker_wrote_def split: worker.splits)
  next
    case (collect i)
    then show ?thesis using step.IH ui_collect_worker [OF collect(2)]
      by (auto simp: worker_wrote_def split: worker.splits)
  qed
qed

end

lemma mem_poll_silent: "silent ms_out mem_poll"
  by (simp add: silent_def mem_poll_def split: list.split)

interpretation mem_input: input_stream mem_read mem_poll mem_write ms_out
  by unfold_locales (simp_all add: silent_def mem_read_def mem_poll_def mem_write_def split: list.split)

section \<open>What the window sends\<close>

text \<open>
  A batch as the server reads it: the pointer, then each character pressed and released. The
  pointer event carries the button only while it is down; no event of the viewer releases it.
\<close>

definition pointer_read :: "ui_input \<Rightarrow> input_event list" where
  "pointer_read i =
     (case ui_hover i of
        None \<Rightarrow> []
      | Some (x, y) \<Rightarrow> [Mouse (if ui_button_down i then 0x9800 else 0x0800) (coord x) (coord y)])"

definition keys_read :: "rstring \<Rightarrow> input_event list" where
  "keys_read chars = concat (map (\<lambda>ch. [Unicode_Key (of_nat ch) True, Unicode_Key (of_nat ch) False]) chars)"

definition ui_read :: "ui_input \<Rightarrow> input_event list" where
  "ui_read i = pointer_read i @ concat (map keys_read (ui_texts i))"

lemma text_events_read: "text_events = (\<lambda>chars. map event_bytes (keys_read chars))"
proof
  fix chars show "text_events chars = map event_bytes (keys_read chars)"
    by (induction chars) (simp_all add: text_events_def keys_read_def)
qed

lemma ui_events_read: "ui_events i = map event_bytes (ui_read i)"
proof -
  have "pointer_events i = map event_bytes (pointer_read i)"
    by (simp add: pointer_events_def pointer_read_def ptrflags split: option.splits prod.splits)
  then show ?thesis by (simp add: ui_events_def ui_read_def map_concat comp_def text_events_read)
qed

lemma ui_read_buttons:
  "Mouse f x y \<in> set (ui_read i) \<Longrightarrow> f AND PTRFLAGS_BUTTON1 \<noteq> 0 \<Longrightarrow> f AND PTRFLAGS_DOWN \<noteq> 0"
  by (auto simp: ui_read_def pointer_read_def keys_read_def ptrflags split: option.splits if_splits)

text \<open>A character outside the basic plane is sent as another one.\<close>

lemma text_events_truncated: "text_events [0x1F600] = text_events [0xF600]"
proof -
  have "(0x1F600 :: u16) = 0xF600" by code_simp
  then show ?thesis by (simp only: text_events_def list.map of_nat_numeral)
qed

text \<open>Every batch on the channel is one the window made of some input.\<close>

lemma viewer_run_sent:
  "viewer_run da rd rd1 wr up conn ls v \<Longrightarrow> es \<in> set (sent_batches ls) \<Longrightarrow>
   es \<noteq> [] \<and> (\<exists>i. es = map event_bytes (ui_read i))"
proof (induction rule: viewer_run.induct)
  case (step ls v l v')
  from step(2) have "es \<in> set (sent_batches [l]) \<Longrightarrow> es \<noteq> [] \<and> (\<exists>i. es = map event_bytes (ui_read i))"
    by (cases rule: viewer_step.cases)
      (auto simp: worker_step_def ui_collect_def Let_def ui_events_read
        split: worker.splits list.splits if_splits)
  then show ?case using step by auto
qed simp

text \<open>A panic of the pump ends the worker without a word to the window.\<close>

lemma worker_panic_unreported:
  "vw_worker v = Pumping s \<Longrightarrow> pump da rd rd1 s = (Panic, s') \<Longrightarrow>
   worker_step da rd rd1 wr conn v = Some (Silent, v\<lparr>vw_worker := Leaving\<rparr>)"
  by (simp add: worker_step_def)

lemma coord_bounds:
  "x \<le> 0 \<Longrightarrow> coord x = 0" "65535 \<le> x \<Longrightarrow> coord x = 0xFFFF"
  "coord (of_nat n) = of_nat (min n 65535)"
proof -
  show "x \<le> 0 \<Longrightarrow> coord x = 0" by (simp add: coord_def max_def)
  show "65535 \<le> x \<Longrightarrow> coord x = 0xFFFF" by (simp add: coord_def max_def le_floor_iff min_def)
  show "coord (of_nat n) = of_nat (min n 65535)" by (simp add: coord_def max_def min_def)
qed

end
