(* ===== verification/Viewer_Props.thy ===== *)
theory Viewer_Props
  imports Viewer Samples
begin

text \<open>
  Properties of the viewer: what its two threads guarantee each other under every interleaving.
\<close>

definition sample_upload :: "nat \<Rightarrow> nat \<Rightarrow> bytes \<Rightarrow> bytes option" where
  "sample_upload w h px = (if length px = w * h * 4 then Some px else None)"

definition sample_session :: "(mem_stream, unit) rdp_session" where
  "sample_session =
     new_session sample_params (server_session sample_server)
       \<lparr>ms_in = output_pdu_encode
          [\<lparr>update_code = UPDATETYPE_PTR_POSITION, fragmentation = FRAGMENT_SINGLE, u_data = [5, 0, 6, 0]\<rparr>],
        ms_out = []\<rparr>"

text \<open>The worker connects and publishes, the window shows the frame and sends, the worker takes the batch.\<close>

definition sample_turns :: "turn list" where
  "sample_turns =
     [Worker_Turn, Refresh_Turn, Worker_Turn, Worker_Turn, Worker_Turn, Refresh_Turn,
      Collect_Turn \<lparr>ui_hover = Some (2, 3 / 2), ui_button_down = True, ui_texts = [rstr ''a'']\<rparr>, Worker_Turn]"

lemma sample_accepts: "accepts_frames sample_upload"
  by (simp add: accepts_frames_def sample_upload_def)

lemma sample_session_sized: "pred_result (session_sized 4 3) (Ok sample_session)"
  by (simp add: session_sized_def session_framebuffer_def sample_session_def new_session_def display_new_ok)
    (simp add: display_new_def framebuffer_new_def sample_params_def)

definition sample_outcome :: "viewer_event list \<times> ((mem_stream, unit) rdp_session, bytes) viewer" where
  "sample_outcome =
     the (viewer_schedule True mem_read mem_poll mem_write sample_upload (Ok sample_session) sample_turns viewer_start)"

lemma sample_schedule:
  "case viewer_schedule True mem_read mem_poll mem_write sample_upload (Ok sample_session) sample_turns viewer_start of
     None \<Rightarrow> False
   | Some (ls, v) \<Rightarrow>
       published ls = [(4, 3, replicate 48 0)] \<and>
       received_batches ls = [[[0x20, 0, 0x98, 2, 0, 1, 0], [0x80, 0x61, 0], [0x81, 0x61, 0]]] \<and>
       vw_last_generation v = sf_generation (vw_frame v) \<and> vw_queue v = [] \<and>
       (case vw_worker v of Draining s \<Rightarrow> True | _ \<Rightarrow> False)"
  by code_simp

lemma sample_outcome_schedule:
  "viewer_schedule True mem_read mem_poll mem_write sample_upload (Ok sample_session) sample_turns viewer_start =
   Some sample_outcome"
  using sample_schedule by (auto simp: sample_outcome_def split: option.splits)

lemma sample_facts:
  "published (fst sample_outcome) = [(4, 3, replicate 48 0)]"
  "received_batches (fst sample_outcome) = [[[0x20, 0, 0x98, 2, 0, 1, 0], [0x80, 0x61, 0], [0x81, 0x61, 0]]]"
  "vw_last_generation (snd sample_outcome) = sf_generation (vw_frame (snd sample_outcome))"
  "vw_queue (snd sample_outcome) = []"
  using sample_schedule by (simp_all add: sample_outcome_schedule case_prod_beta)

lemma sample_draining: "\<exists>s. vw_worker (snd sample_outcome) = Draining s"
  using sample_schedule
  by (cases "vw_worker (snd sample_outcome)") (simp_all add: sample_outcome_schedule case_prod_beta)

lemma sample_run:
  "viewer_run True mem_read mem_poll mem_write sample_upload (Ok sample_session) (fst sample_outcome) (snd sample_outcome)"
  using viewer_schedule_run [OF viewer_run.start, of _ _ _ _ _ _ _ "fst sample_outcome" "snd sample_outcome"]
    sample_outcome_schedule by (metis append_Nil prod.collapse)

text \<open>
  C19: the window shows the session. Under every interleaving of the two threads, every published
  frame has the session's size and four bytes per pixel, so that the toolkit accepts it and the
  window never panics on it; the texture is that of a frame the worker published; and once the
  window has seen the current generation it is the newest one.
\<close>

theorem viewer_shows_session_frames:
  assumes "viewer_run da rd rd1 wr up conn ls v" and "pred_result (session_sized W H) conn" and "accepts_frames up"
  shows "vw_ui v \<noteq> Crashed \<and> list_all (full_frame W H) (published ls) \<and>
    (\<forall>t. vw_texture v = Some t \<longrightarrow> (\<exists>p \<in> set (published ls). texture_of up p = Some t)) \<and>
    (published ls \<noteq> [] \<and> length (published ls) < 2 ^ 64 \<and> vw_last_generation v = sf_generation (vw_frame v) \<longrightarrow>
       vw_texture v = texture_of up (last (published ls)))"
proof -
  have inv: "viewer_inv up W H ls v" by (rule viewer_run_inv [OF assms])
  show ?thesis
  proof (intro conjI allI impI)
    show "vw_ui v \<noteq> Crashed" "list_all (full_frame W H) (published ls)"
      using inv by (simp_all add: viewer_inv_def)
    show "\<exists>p \<in> set (published ls). texture_of up p = Some t" if "vw_texture v = Some t" for t
      using inv that by (auto simp: viewer_inv_def shows_published_def)
    assume "published ls \<noteq> [] \<and> length (published ls) < 2 ^ 64 \<and>
        vw_last_generation v = sf_generation (vw_frame v)"
    then show "vw_texture v = texture_of up (last (published ls))"
      by (elim conjE) (rule viewer_caught_up [OF inv])
  qed
qed

theorem viewer_shows_session_frames_witness:
  "vw_texture (snd sample_outcome) = Some (replicate 48 0)"
proof -
  have "published (fst sample_outcome) \<noteq> [] \<and> length (published (fst sample_outcome)) < 2 ^ 64 \<and>
      vw_last_generation (snd sample_outcome) = sf_generation (vw_frame (snd sample_outcome))"
    by (intro conjI sample_facts(3)) (simp_all add: sample_facts(1))
  then have "vw_texture (snd sample_outcome) = texture_of sample_upload (last (published (fst sample_outcome)))"
    using viewer_shows_session_frames [OF sample_run sample_session_sized sample_accepts] by blast
  then show ?thesis unfolding sample_facts(1) by (simp add: texture_of_def sample_upload_def)
qed

text \<open>
  C21: what the user does reaches the server once and in order. Under every interleaving, the
  batches the worker took followed by those still on the channel are the batches the window sent;
  what the worker has put on the wire since the session was connected is their input PDUs; and
  from each PDU of up to 255 events a server reads exactly the window's events.
\<close>

theorem viewer_input_in_order:
  assumes "viewer_run da mem_read mem_poll mem_write up conn ls v"
    and "pred_result (\<lambda>s. ms_out (rs_transport s) = w0) conn"
  shows "received_batches ls @ vw_queue v = sent_batches ls \<and>
    (\<forall>s. vw_worker v \<in> {Draining s, Pumping s, Publishing s} \<longrightarrow>
       ms_out (rs_transport s) = w0 @ concat (map input_pdu (received_batches ls))) \<and>
    (\<forall>es \<in> set (sent_batches ls). \<exists>i. es = ui_events i \<and>
       (length es < 256 \<and> length (input_body es) + 3 < 0x8000 \<longrightarrow>
        read_input (input_pdu es) = Ok (ui_read i, length (input_pdu es))))"
proof (intro conjI)
  show "received_batches ls @ vw_queue v = sent_batches ls" by (rule viewer_run_batches [OF assms(1)])
  show "\<forall>s. vw_worker v \<in> {Draining s, Pumping s, Publishing s} \<longrightarrow>
      ms_out (rs_transport s) = w0 @ concat (map input_pdu (received_batches ls))"
    using mem_input.viewer_run_wrote [OF assms] by (auto simp: mem_input.worker_wrote_def)
  show "\<forall>es \<in> set (sent_batches ls). \<exists>i. es = ui_events i \<and>
      (length es < 256 \<and> length (input_body es) + 3 < 0x8000 \<longrightarrow>
       read_input (input_pdu es) = Ok (ui_read i, length (input_pdu es)))"
    using viewer_run_sent [OF assms(1)] read_input_pdu by (fastforce simp: ui_events_read)
qed

theorem viewer_input_in_order_witness:
  "received_batches (fst sample_outcome) = sent_batches (fst sample_outcome) \<and>
   (case vw_worker (snd sample_outcome) of
      Draining s \<Rightarrow>
        ms_out (rs_transport s) = input_pdu [[0x20, 0, 0x98, 2, 0, 1, 0], [0x80, 0x61, 0], [0x81, 0x61, 0]]
    | _ \<Rightarrow> False)"
proof -
  have "pred_result (\<lambda>s. ms_out (rs_transport s) = []) (Ok sample_session)"
    by (simp add: sample_session_def new_session_def)
  then have "received_batches (fst sample_outcome) @ vw_queue (snd sample_outcome) = sent_batches (fst sample_outcome) \<and>
      (\<forall>s. vw_worker (snd sample_outcome) \<in> {Draining s, Pumping s, Publishing s} \<longrightarrow>
         ms_out (rs_transport s) = [] @ concat (map input_pdu (received_batches (fst sample_outcome))))"
    using viewer_input_in_order [OF sample_run] by blast
  then show ?thesis using sample_draining by (auto simp: sample_facts)
qed

text \<open>
  C22: input is not kept waiting. From any point of any interleaving, once the worker has had as
  many turns as there are batches on the channel, and at most two more to finish the frame it is
  at, it has received every batch the window had sent by then, unless it ended; what the window
  does meanwhile makes no difference.
\<close>

theorem viewer_input_is_taken:
  assumes "viewer_run da rd rd1 wr up conn ls v" and "viewer_schedule da rd rd1 wr up conn ts v = Some (ms, v')"
    and "\<not> leaving (vw_worker v')" and "length (vw_queue v) + lag (vw_worker v) \<le> worker_turns ts"
  shows "lag (vw_worker v) \<le> 2 \<and> (\<exists>rest. received_batches (ls @ ms) = sent_batches ls @ rest)"
  using viewer_run_takes [OF assms] lag_le_2 by blast

lemma sample_wait:
  "case viewer_schedule True mem_read mem_poll mem_write sample_upload (Ok sample_session) (take 7 sample_turns) viewer_start of
     None \<Rightarrow> False
   | Some (ls, v) \<Rightarrow>
       length (sent_batches ls) = 1 \<and> length (received_batches ls) = 0 \<and>
       length (vw_queue v) + lag (vw_worker v) \<le> 1 \<and>
       (case viewer_schedule True mem_read mem_poll mem_write sample_upload (Ok sample_session) [Worker_Turn] v of
          None \<Rightarrow> False
        | Some (ms, v') \<Rightarrow> \<not> leaving (vw_worker v'))"
  by code_simp

theorem viewer_input_is_taken_witness:
  "\<exists>ls v ms v' rest. viewer_run True mem_read mem_poll mem_write sample_upload (Ok sample_session) ls v \<and>
     viewer_schedule True mem_read mem_poll mem_write sample_upload (Ok sample_session) [Worker_Turn] v = Some (ms, v') \<and>
     length (sent_batches ls) = 1 \<and> length (received_batches ls) = 0 \<and>
     received_batches (ls @ ms) = sent_batches ls @ rest"
proof -
  obtain ls v ms v' where s:
    "viewer_schedule True mem_read mem_poll mem_write sample_upload (Ok sample_session) (take 7 sample_turns) viewer_start =
       Some (ls, v)"
    "viewer_schedule True mem_read mem_poll mem_write sample_upload (Ok sample_session) [Worker_Turn] v = Some (ms, v')"
    "length (sent_batches ls) = 1" "length (received_batches ls) = 0"
    "length (vw_queue v) + lag (vw_worker v) \<le> worker_turns [Worker_Turn]" "\<not> leaving (vw_worker v')"
    using sample_wait by (auto split: option.splits prod.splits simp del: viewer_schedule.simps)
  have run: "viewer_run True mem_read mem_poll mem_write sample_upload (Ok sample_session) ls v"
    using viewer_schedule_run [OF viewer_run.start s(1)] by simp
  from viewer_input_is_taken [OF run s(2,6,5)] obtain rest where
    "received_batches (ls @ ms) = sent_batches ls @ rest" by blast
  with run s(2,3,4) show ?thesis by blast
qed

end
