(* ===== verification/Diagnostics.thy ===== *)
theory Diagnostics
  imports Session
begin

text \<open>
  Diagnostic output: the \<open>Debug\<close> forms of \<open>SecurityProtocol\<close> (\<open>src/nego.rs\<close>) and
  \<open>NegotiateFlags\<close> (\<open>src/nla/ntlm.rs\<close>), and \<open>TlsTransport::probe\<close> (\<open>src/tls.rs\<close>). The formats
  are those of \<open>std::fmt\<close>: \<open>{:#010x}\<close> is \<open>0x\<close> and eight lower-case digits, \<open>{:02x?}\<close> a list of
  two-digit bytes. What is printed determines the value.
\<close>

section \<open>Hexadecimal digits\<close>

definition hex_digit :: "nat \<Rightarrow> char" where
  "hex_digit d = ''0123456789abcdef'' ! (d mod 16)"

fun lower_hex :: "nat \<Rightarrow> nat \<Rightarrow> string" where
  "lower_hex 0 n = ''''"
| "lower_hex (Suc k) n = lower_hex k (n div 16) @ [hex_digit n]"

lemma hex_digit_inject: "hex_digit m = hex_digit n \<longleftrightarrow> m mod 16 = n mod 16"
proof -
  have "distinct ''0123456789abcdef''" by simp
  from nth_eq_iff_index_eq [OF this, of "m mod 16" "n mod 16"] show ?thesis by (simp add: hex_digit_def)
qed

lemma length_lower_hex [simp]: "length (lower_hex k n) = k"
  by (induction k arbitrary: n) simp_all

lemma lower_hex_inject: "lower_hex k m = lower_hex k n \<longleftrightarrow> m mod 16 ^ k = n mod 16 ^ k"
proof (induction k arbitrary: m n)
  case (Suc k)
  have digits: "x mod 16 ^ Suc k = 16 * (x div 16 mod 16 ^ k) + x mod 16" for x :: nat
    by (simp add: mod_mult2_eq)
  have "16 * a + r = 16 * b + s \<longleftrightarrow> a = b \<and> r = s" if "r < 16" "s < 16" for a b r s :: nat
    using that by presburger
  then show ?case by (simp add: Suc.IH hex_digit_inject digits del: power_Suc)
qed simp

definition hex_u32 :: "u32 \<Rightarrow> string" where
  "hex_u32 w = ''0x'' @ lower_hex 8 (unat w)"

lemma hex_u32_inject: "hex_u32 v = hex_u32 w \<longleftrightarrow> v = w"
proof -
  have "unat x mod 16 ^ 8 = unat x" for x :: u32 using unsigned_less [of x] by simp
  then show ?thesis by (simp only: hex_u32_def append_same_eq same_append_eq lower_hex_inject word_unat_eq_iff)
qed

section \<open>Protocols and flags\<close>

fun join :: "string \<Rightarrow> string list \<Rightarrow> string" where
  "join sep [] = ''''"
| "join sep [p] = p"
| "join sep (p # ps) = p @ sep @ join sep ps"

definition protocol_parts :: "security_protocol \<Rightarrow> string list" where
  "protocol_parts p =
     map fst (filter (\<lambda>(name, b). p AND b \<noteq> 0)
       [(''SSL'', PROTO_SSL), (''HYBRID'', PROTO_HYBRID), (''RDSTLS'', PROTO_RDSTLS), (''HYBRID_EX'', PROTO_HYBRID_EX)])"

definition security_protocol_debug :: "security_protocol \<Rightarrow> string" where
  "security_protocol_debug p =
     (let parts = protocol_parts p; parts = (if parts = [] then [''RDP''] else parts)
      in ''SecurityProtocol('' @ hex_u32 p @ '' ['' @ join ''|'' parts @ ''])'')"

definition negotiate_flags_debug :: "u32 \<Rightarrow> string" where
  "negotiate_flags_debug flags = ''NegotiateFlags('' @ hex_u32 flags @ '')''"

lemma protocol_parts_has:
  "''SSL'' \<in> set (protocol_parts p) \<longleftrightarrow> sp_has p PROTO_SSL"
  "''HYBRID'' \<in> set (protocol_parts p) \<longleftrightarrow> sp_has p PROTO_HYBRID"
  "''RDSTLS'' \<in> set (protocol_parts p) \<longleftrightarrow> sp_has p PROTO_RDSTLS"
  "''HYBRID_EX'' \<in> set (protocol_parts p) \<longleftrightarrow> sp_has p PROTO_HYBRID_EX"
  by (simp_all add: protocol_parts_def sp_has_def nego_consts)

lemma security_protocol_debug_inject: "security_protocol_debug p = security_protocol_debug q \<Longrightarrow> p = q"
proof -
  assume "security_protocol_debug p = security_protocol_debug q"
  then have "take 10 (drop 17 (security_protocol_debug p)) = take 10 (drop 17 (security_protocol_debug q))"
    by (rule arg_cong)
  then have "hex_u32 p = hex_u32 q" by (simp add: security_protocol_debug_def hex_u32_def Let_def)
  then show "p = q" by (simp only: hex_u32_inject)
qed

lemma negotiate_flags_debug_inject: "negotiate_flags_debug v = negotiate_flags_debug w \<longleftrightarrow> v = w"
  by (simp add: negotiate_flags_debug_def hex_u32_inject)

section \<open>Probing the channel\<close>

text \<open>The outcome of one \<open>read\<close> into 32 bytes under a timeout; an error carries its message.\<close>

datatype probe_read = Probe_Read bytes | Probe_Timeout | Probe_Error string

definition hex_bytes :: "bytes \<Rightarrow> string" where
  "hex_bytes bs = ''['' @ join '', '' (map (\<lambda>b. lower_hex 2 (unat b)) bs) @ '']''"

fun decimal :: "nat \<Rightarrow> string" where
  "decimal n = (if n < 10 then [hex_digit n] else decimal (n div 10) @ [hex_digit (n mod 10)])"

declare decimal.simps [simp del]

definition probe_result :: "probe_read \<Rightarrow> string" where
  "probe_result r =
     (case r of
        Probe_Read b \<Rightarrow>
          if b = [] then ''peer closed (clean EOF)''
          else ''peer sent '' @ decimal (length b) @ '' bytes unexpectedly: '' @ hex_bytes (take 16 b)
      | Probe_Timeout \<Rightarrow> ''alive & quiet (waiting for client)''
      | Probe_Error e \<Rightarrow> ''peer error: '' @ e)"

text \<open>\<open>set_timeout\<close> tells whether the socket accepted the timeout.\<close>

definition probe :: "('s, bool) io \<Rightarrow> ('s, probe_read) io \<Rightarrow> ('s, string) io" where
  "probe set_timeout rd =
     io_bind set_timeout (\<lambda>ok.
       if \<not> ok then io_ok ''probe: cannot set timeout''
       else io_bind rd (\<lambda>r. io_ok (probe_result r)))"

text \<open>The answers about the peer never coincide, whatever was read.\<close>

lemma probe_result_quiet: "probe_result r = ''alive & quiet (waiting for client)'' \<longleftrightarrow> r = Probe_Timeout"
  by (auto simp: probe_result_def split: probe_read.splits)

lemma probe_result_closed: "probe_result r = ''peer closed (clean EOF)'' \<longleftrightarrow> r = Probe_Read []"
  by (auto simp: probe_result_def split: probe_read.splits)

end
