(* ===== verification/Smoke.thy ===== *)
theory Smoke
  imports Viewer Diagnostics
begin

text \<open>
  The live input test (\<open>examples/smoke.rs\<close>): once connected, the program moves the mouse around
  a square, clicks, types a key and pumps four frames per turn, for six seconds. The clock is a
  parameter: \<open>n\<close> turns pass before \<open>start.elapsed()\<close> reaches the limit. Before the loop it accepts
  the server's offer of a UDP side-band; what it prints is the outcome of each phase.
\<close>

definition smoke_params :: "rstring list \<Rightarrow> session_params option" where
  "smoke_params args =
     (if length args < 4 then None
      else
        let params = session_params_new (args ! 1) (args ! 2) (args ! 3);
            params = (if 4 < length args then params\<lparr>sp_domain := args ! 4\<rparr> else params)
        in Some (params\<lparr>sp_width := 1280, sp_height := 800\<rparr>))"

definition corners :: "(u16 \<times> u16) list" where
  "corners = [(200, 200), (900, 200), (900, 600), (200, 600)]"

definition smoke_inputs :: "nat \<Rightarrow> bytes list list" where
  "smoke_inputs i =
     (let (x, y) = corners ! (i mod length corners)
      in [[mouse_event PTRFLAGS_MOVE x y],
          [mouse_event (PTRFLAGS_MOVE OR PTRFLAGS_DOWN OR PTRFLAGS_BUTTON1) x y, mouse_event PTRFLAGS_MOVE x y],
          [scancode_event 0x1F True False, scancode_event 0x1F False False]])"

text \<open>Why the loop ended: \<open>while\<close>, \<open>break\<close> or \<open>return\<close>.\<close>

datatype smoke_end = Deadline | Input_Failed | Pump_Ended error

text \<open>\<open>for _ in 0..4\<close>; an error is carried out to the early \<open>return\<close>.\<close>

fun smoke_pumps ::
    "bool \<Rightarrow> (nat \<Rightarrow> ('s, bytes) io) \<Rightarrow> ('s, read_outcome) io \<Rightarrow> nat \<Rightarrow> nat \<Rightarrow>
     (('s, 'u) rdp_session, nat \<times> error option) io" where
  "smoke_pumps da rd rd1 0 frames s = (Ok (frames, None), s)"
| "smoke_pumps da rd rd1 (Suc k) frames s =
     (case pump da rd rd1 s of
        (Ok _, s) \<Rightarrow> smoke_pumps da rd rd1 k (frames + 1) s
      | (Err e, s) \<Rightarrow> (Ok (frames, Some e), s)
      | (Panic, s) \<Rightarrow> (Panic, s))"

text \<open>\<open>let _ = ..\<close>: an error is dropped, a panic is not.\<close>

definition ignoring :: "('s, unit) io \<Rightarrow> ('s, unit) io" where
  "ignoring m s = (case m s of (Panic, s) \<Rightarrow> (Panic, s) | (_, s) \<Rightarrow> (Ok (), s))"

fun smoke_loop ::
    "bool \<Rightarrow> (nat \<Rightarrow> ('s, bytes) io) \<Rightarrow> ('s, read_outcome) io \<Rightarrow> (bytes \<Rightarrow> ('s, unit) io) \<Rightarrow>
     nat \<Rightarrow> nat \<Rightarrow> nat \<Rightarrow> nat \<Rightarrow> (('s, 'u) rdp_session, smoke_end \<times> nat \<times> nat) io" where
  "smoke_loop da rd rd1 wr 0 i frames inputs s = (Ok (Deadline, frames, inputs), s)"
| "smoke_loop da rd rd1 wr (Suc n) i frames inputs s =
     (case send_input wr (smoke_inputs i ! 0) s of
        (Panic, s) \<Rightarrow> (Panic, s)
      | (Err _, s) \<Rightarrow> (Ok (Input_Failed, frames, inputs), s)
      | (Ok _, s) \<Rightarrow>
          io_bind (ignoring (send_input wr (smoke_inputs i ! 1))) (\<lambda>_.
          io_bind (ignoring (send_input wr (smoke_inputs i ! 2))) (\<lambda>_.
          io_bind (smoke_pumps da rd rd1 4 frames) (\<lambda>(frames, ended).
            case ended of
              Some e \<Rightarrow> io_ok (Pump_Ended e, frames, inputs + 1)
            | None \<Rightarrow> smoke_loop da rd rd1 wr n (i + 1) frames (inputs + 1)))) s)"

section \<open>The whole program\<close>

text \<open>\<open>u32::from_str\<close>: an optional plus sign, then at least one digit, and no overflow.\<close>

definition parse_u32 :: "rstring \<Rightarrow> u32 option" where
  "parse_u32 cs =
     (let ds = (case cs of c # r \<Rightarrow> if c = of_char (CHR ''+'') \<and> r \<noteq> [] then r else cs | [] \<Rightarrow> []);
          n = foldl (\<lambda>n d. n * 10 + (d - 48)) 0 ds
      in if ds = [] \<or> \<not> list_all (\<lambda>d. 48 \<le> d \<and> d \<le> 57) ds \<or> 2 ^ 32 \<le> n then None else Some (of_nat n))"

text \<open>The offer with the request id of the environment variable \<open>FP_REQID\<close>, when it is a number.\<close>

definition override_request_id :: "rstring option \<Rightarrow> initiate_request \<Rightarrow> initiate_request" where
  "override_request_id env req =
     (case env of
        None \<Rightarrow> req
      | Some rid \<Rightarrow>
          req\<lparr>ir_request_id := (case parse_u32 rid of None \<Rightarrow> ir_request_id req | Some n \<Rightarrow> n)\<rparr>)"

datatype udp_phase = Not_Offered | Established bool | Tunnel_Failed error

text \<open>
  \<open>peer\<close> tells whether the host argument, with the port appended, parses as a socket address;
  \<open>tunnel\<close> is the outcome of opening the tunnel for a request.
\<close>

definition smoke_udp ::
    "rstring option \<Rightarrow> bool \<Rightarrow> (initiate_request \<Rightarrow> 'u result) \<Rightarrow> (('s, 'u) rdp_session, udp_phase) io" where
  "smoke_udp env peer tunnel s =
     (case multitransport_request s of
        None \<Rightarrow> (Ok Not_Offered, s)
      | Some req \<Rightarrow>
          let req = override_request_id env req
          in if \<not> peer then (Panic, s)
             else (case enable_udp (tunnel req) s of
                     (Ok _, s) \<Rightarrow> (Ok (Established (is_on_udp s)), s)
                   | (Err e, s) \<Rightarrow> (Ok (Tunnel_Failed e), s)
                   | (Panic, s) \<Rightarrow> (Panic, s)))"

datatype smoke_exit = Usage | No_Connection error | Report udp_phase smoke_end nat nat

definition smoke_main ::
    "bool \<Rightarrow> (nat \<Rightarrow> ('s, bytes) io) \<Rightarrow> ('s, read_outcome) io \<Rightarrow> (bytes \<Rightarrow> ('s, unit) io) \<Rightarrow>
     (session_params \<Rightarrow> ('s, 'u) rdp_session result) \<Rightarrow> rstring list \<Rightarrow> rstring option \<Rightarrow> bool \<Rightarrow>
     (initiate_request \<Rightarrow> 'u result) \<Rightarrow> nat \<Rightarrow> smoke_exit result" where
  "smoke_main da rd rd1 wr connect args env peer tunnel n =
     (case smoke_params args of
        None \<Rightarrow> Ok Usage
      | Some params \<Rightarrow>
          (case connect params of
             Err e \<Rightarrow> Ok (No_Connection e)
           | Panic \<Rightarrow> Panic
           | Ok session \<Rightarrow>
               fst (io_bind (smoke_udp env peer tunnel) (\<lambda>udp.
                 io_bind (smoke_loop da rd rd1 wr n 0 0 0) (\<lambda>(why, frames, inputs).
                   io_ok (Report udp why frames inputs))) session)))"

section \<open>Counters\<close>

lemma smoke_pumps_count:
  "smoke_pumps da rd rd1 k frames s = (Ok (frames', ended), s') \<Longrightarrow>
   frames \<le> frames' \<and> frames' \<le> frames + k \<and> (ended = None \<longrightarrow> frames' = frames + k) \<and>
   (ended \<noteq> None \<longrightarrow> frames' < frames + k)"
  by (induction k arbitrary: frames s) (force split: prod.splits result.splits)+

lemma smoke_loop_count:
  "smoke_loop da rd rd1 wr n i frames inputs s = (Ok (why, frames', inputs'), s') \<Longrightarrow>
   inputs' \<le> inputs + n \<and> frames' + 4 * inputs \<le> frames + 4 * inputs' \<and>
   (why = Deadline \<longrightarrow> inputs' = inputs + n \<and> frames' = frames + 4 * n)"
proof (induction n arbitrary: i frames inputs s)
  case (Suc n)
  from Suc.prems show ?case
    by (auto simp: io_bind_def io_ok_def split: prod.splits result.splits option.splits
        dest!: smoke_pumps_count Suc.IH)
qed simp

text \<open>The report of a run to the deadline: a batch per turn, four frames per batch.\<close>

lemma smoke_main_report:
  "smoke_main da rd rd1 wr connect args env peer tunnel n = Ok (Report udp why frames inputs) \<Longrightarrow>
   inputs \<le> n \<and> frames \<le> 4 * inputs \<and> (why = Deadline \<longrightarrow> inputs = n \<and> frames = 4 * n)"
  by (auto simp: smoke_main_def io_bind_def io_ok_def split: option.splits result.splits prod.splits
      dest!: smoke_loop_count)

section \<open>The UDP phase\<close>

text \<open>
  An established tunnel is in use, for the request the server made unless the environment
  overrides its id; the phase leaves the TLS transport and the display alone.
\<close>

lemma smoke_udp_cases:
  assumes "smoke_udp env peer tunnel s = (Ok p, s')"
  shows "rs_transport s' = rs_transport s \<and> rs_display s' = rs_display s \<and>
    (case p of
       Not_Offered \<Rightarrow> multitransport_request s = None \<and> s' = s
     | Established on_udp \<Rightarrow> on_udp \<and> is_on_udp s' \<and>
         (\<exists>req. multitransport_request s = Some req \<and> map_result Some (tunnel (override_request_id env req)) = Ok (rs_udp s'))
     | Tunnel_Failed e \<Rightarrow> s' = s)"
  using assms
  by (auto simp: smoke_udp_def enable_udp_def is_on_udp_def io_bind_def io_lift_def Let_def
      split: option.splits if_splits result.splits)

text \<open>A host given by name does not parse as a socket address: the program panics on the offer.\<close>

lemma smoke_udp_host_name:
  "multitransport_request s \<noteq> None \<Longrightarrow> smoke_udp env False tunnel s = (Panic, s)"
  by (auto simp: smoke_udp_def Let_def)

lemma override_request_id_other [simp]:
  "ir_requested_protocol (override_request_id env req) = ir_requested_protocol req"
  "ir_security_cookie (override_request_id env req) = ir_security_cookie req"
  by (auto simp: override_request_id_def split: option.splits)

section \<open>What the run writes\<close>

lemma smoke_inputs_list: "smoke_inputs i = [smoke_inputs i ! 0, smoke_inputs i ! 1, smoke_inputs i ! 2]"
  by (simp add: smoke_inputs_def Let_def split: prod.split)

context input_stream
begin

lemma send_input_written:
  "send_input wr es s = (r, s') \<Longrightarrow>
   written (rs_transport s') = written (rs_transport s) @ input_pdu es"
  using send_input_writes [of es s] by simp

lemma ignoring_written:
  "ignoring (send_input wr es) s = (r, s') \<Longrightarrow>
   written (rs_transport s') = written (rs_transport s) @ input_pdu es"
  by (auto simp: ignoring_def split: prod.splits result.splits dest: send_input_written)

lemma smoke_pumps_written:
  "smoke_pumps da rd rd1 k frames s = (r, s') \<Longrightarrow> written (rs_transport s') = written (rs_transport s)"
proof (induction k arbitrary: frames s)
  case (Suc k)
  obtain q t where q: "pump da rd rd1 s = (q, t)" by fastforce
  then have "written (rs_transport t) = written (rs_transport s)" using pump_silent [of da s] by simp
  then show ?case using Suc q by (cases q) auto
qed simp

text \<open>A run to the deadline has written the inputs of all its turns, in order.\<close>

lemma smoke_loop_written:
  assumes "smoke_loop da rd rd1 wr n i frames inputs s = (Ok (Deadline, frames', inputs'), s')"
  shows "written (rs_transport s') =
    written (rs_transport s) @ concat (map input_pdu (concat (map smoke_inputs [i..<i + n])))"
  using assms
proof (induction n arbitrary: i frames inputs s)
  case (Suc n)
  obtain u0 s1 where s1: "send_input wr (smoke_inputs i ! 0) s = (Ok u0, s1)"
    using Suc.prems by (auto split: prod.splits result.splits)
  obtain s2 s3 f4 e s4 where s2: "ignoring (send_input wr (smoke_inputs i ! Suc 0)) s1 = (Ok (), s2)"
    and s3: "ignoring (send_input wr (smoke_inputs i ! 2)) s2 = (Ok (), s3)"
    and s4: "smoke_pumps da rd rd1 4 frames s3 = (Ok (f4, e), s4)"
    and rest: "(case e of Some e \<Rightarrow> io_ok (Pump_Ended e, f4, Suc inputs)
        | None \<Rightarrow> smoke_loop da rd rd1 wr n (Suc i) f4 (Suc inputs)) s4 = (Ok (Deadline, frames', inputs'), s')"
    using Suc.prems s1 by (auto simp: io_bind_eq_Ok)
  have e: "e = None" using rest by (cases e) (simp_all add: io_ok_def)
  have "written (rs_transport s4) = written (rs_transport s) @ concat (map input_pdu (smoke_inputs i))"
    using send_input_written [OF s1] ignoring_written [OF s2] ignoring_written [OF s3] smoke_pumps_written [OF s4]
    by (subst smoke_inputs_list) simp
  moreover have "[i..<i + Suc n] = i # [Suc i..<Suc i + n]" by (simp add: upt_rec)
  ultimately show ?case using Suc.IH [of "Suc i" f4 "Suc inputs" s4] rest e by simp
qed simp

end

end
