(* ===== verification/Session_Run.thy ===== *)
theory Session_Run
  imports Smoke Session_Spec
begin

text \<open>
  A whole session: connecting, then pumping frame after frame (the loop of \<open>examples/smoke.rs\<close>).
  What the display shows in the end is what the payloads of all the server's updates paint, however
  the server spread them over updates and PDUs.
\<close>

section \<open>The dirty flag does not matter to painting\<close>

definition clean :: "display \<Rightarrow> display" where
  "clean d = d\<lparr>dirty := False\<rparr>"

lemma clean_simps [simp]:
  "clean (d\<lparr>dirty := b\<rparr>) = clean d" "frag (clean d) = frag d" "frag_code (clean d) = frag_code d"
  by (simp_all add: clean_def)

lemma clean_eqE:
  assumes "clean d = clean d'" obtains b where "d' = d\<lparr>dirty := b\<rparr>"
proof
  show "d' = d\<lparr>dirty := dirty d'\<rparr>" using assms by (cases d; cases d') (simp add: clean_def)
qed

lemma paint_rects_dirty:
  "apsnd clean (paint_rects da rects (d\<lparr>dirty := b\<rparr>)) = apsnd clean (paint_rects da rects d)"
  by (induction da rects d rule: paint_rects.induct) (simp_all split: result.split)

lemma process_dirty:
  "apsnd clean (process da code data (d\<lparr>dirty := b\<rparr>)) = apsnd clean (process da code data d)"
  by (simp add: process_def io_bind_def io_lift_def io_ok_def paint_rects_dirty split: result.split)

lemma display_apply_dirty:
  "apsnd clean (display_apply da u (d\<lparr>dirty := b\<rparr>)) = apsnd clean (display_apply da u d)"
proof -
  have "apsnd clean (process da c data (d\<lparr>dirty := b, frag := f\<rparr>)) = apsnd clean (process da c data (d\<lparr>frag := f\<rparr>))"
    for c data f
  proof -
    have "d\<lparr>dirty := b, frag := f\<rparr> = (d\<lparr>frag := f\<rparr>)\<lparr>dirty := b\<rparr>" by (cases d) simp
    then show ?thesis by (simp only: process_dirty)
  qed
  then show ?thesis by (simp add: display_apply_def process_dirty clean_def)
qed

lemma display_apply_all_dirty:
  "apsnd clean (display_apply_all da us (d\<lparr>dirty := b\<rparr>)) = apsnd clean (display_apply_all da us d)"
proof (induction da us d arbitrary: b rule: display_apply_all.induct)
  case (2 da u us d)
  obtain r d1 where d1: "display_apply da u d = (r, d1)" by fastforce
  then obtain d2 where d2: "display_apply da u (d\<lparr>dirty := b\<rparr>) = (r, d2)" "clean d2 = clean d1"
    using display_apply_dirty [of da u b d] by (cases "display_apply da u (d\<lparr>dirty := b\<rparr>)") simp
  from d2(2) obtain b' where b': "d2 = d1\<lparr>dirty := b'\<rparr>" by (metis clean_eqE)
  show ?case
  proof (cases r)
    case (Ok z)
    then show ?thesis using 2 d1 d2(1) b' by simp
  qed (use d1 d2 in \<open>simp_all add: io_bind_def\<close>)
qed simp

lemma display_apply_all_append:
  "display_apply_all da (us @ vs) d = io_bind (display_apply_all da us) (\<lambda>_. display_apply_all da vs) d"
  by (induction da us d rule: display_apply_all.induct) (simp_all add: io_bind_def split: prod.split result.split)

section \<open>Pumping a list of PDUs\<close>

definition pdu_ok :: "fast_path_update list \<Rightarrow> bool" where
  "pdu_ok us \<longleftrightarrow> list_all update_ok us \<and> length (concat (map update_encode us)) + 3 < 0x8000"

lemma mem_pump_pdu:
  assumes "pdu_ok us" and "display_apply_all da us ((rs_display s)\<lparr>dirty := False\<rparr>) = (res, d)"
    and "ms_in (rs_transport s) = output_pdu_encode us @ r"
  shows "\<exists>t. pump da mem_read mem_poll s = (and_then res (\<lambda>_. Ok (dirty d)), s\<lparr>rs_transport := t, rs_display := d\<rparr>) \<and>
    ms_in t = r \<and> ms_out t = ms_out (rs_transport s)"
proof -
  have ok: "list_all update_ok us" "length (concat (map update_encode us)) + 3 < 0x8000"
    using assms(1) by (simp_all add: pdu_ok_def)
  have "output_pdu_encode us = 0x00 # tl (output_pdu_encode us)"
    by (simp add: output_pdu_frame [OF ok(2)] fast_frame_def)
  then obtain bs where bs: "output_pdu_encode us = 0x00 # bs" by blast
  let ?t = "(rs_transport s)\<lparr>ms_in := bs @ r\<rparr>"
  have "mem_poll (rs_transport s) = (Ok (Got 0x00), ?t)" by (simp add: mem_poll_def assms(3) bs)
  then show ?thesis
    using mem.pump_fast_path [where ?rd1.0 = mem_poll and s = s and t = ?t and r = r, OF _ _ ok assms(2)] bs by simp
qed

text \<open>What is left of the display's history: everything but the dirty flag.\<close>

lemma smoke_pumps_pdus:
  assumes "list_all pdu_ok uss" and "ms_in (rs_transport s) = concat (map output_pdu_encode uss) @ r"
  shows "\<exists>s'. clean (rs_display s') = clean (snd (display_apply_all da (concat uss) (rs_display s))) \<and>
    (case fst (display_apply_all da (concat uss) (rs_display s)) of
       Ok _ \<Rightarrow> smoke_pumps da mem_read mem_poll (length uss) n s = (Ok (n + length uss, None), s') \<and>
         ms_in (rs_transport s') = r \<and> ms_out (rs_transport s') = ms_out (rs_transport s)
     | Err e \<Rightarrow> \<exists>k < length uss. smoke_pumps da mem_read mem_poll (length uss) n s = (Ok (n + k, Some e), s')
     | Panic \<Rightarrow> smoke_pumps da mem_read mem_poll (length uss) n s = (Panic, s'))"
  using assms
proof (induction uss arbitrary: s n)
  case Nil
  then show ?case by (intro exI [of _ s]) simp
next
  case (Cons us uss)
  let ?d0 = "rs_display s"
  obtain res d where d: "display_apply_all da us (?d0\<lparr>dirty := False\<rparr>) = (res, d)" by fastforce
  then obtain d' where d': "display_apply_all da us ?d0 = (res, d')" "clean d' = clean d"
    using display_apply_all_dirty [of da us False ?d0] by (cases "display_apply_all da us ?d0") simp
  obtain t where p: "pump da mem_read mem_poll s =
      (and_then res (\<lambda>_. Ok (dirty d)), s\<lparr>rs_transport := t, rs_display := d\<rparr>)"
      "ms_in t = concat (map output_pdu_encode uss) @ r" "ms_out t = ms_out (rs_transport s)"
    using mem_pump_pdu [OF _ d, of "concat (map output_pdu_encode uss) @ r"] Cons.prems by auto
  show ?case
  proof (cases res)
    case (Ok z)
    let ?s = "s\<lparr>rs_transport := t, rs_display := d\<rparr>" and ?q = "display_apply_all da (concat uss)"
    obtain b where b: "d' = d\<lparr>dirty := b\<rparr>" using d'(2) by (metis clean_eqE)
    have whole: "display_apply_all da (concat (us # uss)) ?d0 = ?q d'"
      using d' Ok by (simp add: display_apply_all_append)
    have eq: "fst (?q d') = fst (?q d)" "clean (snd (?q d')) = clean (snd (?q d))"
      using display_apply_all_dirty [of da "concat uss" b d] b by (metis fst_apsnd, metis snd_apsnd)
    have step: "smoke_pumps da mem_read mem_poll (length (us # uss)) n s = smoke_pumps da mem_read mem_poll (length uss) (n + 1) ?s"
      using p(1) Ok by simp
    obtain s' where s': "clean (rs_display s') = clean (snd (?q d))"
      "case fst (?q d) of
         Ok _ \<Rightarrow> smoke_pumps da mem_read mem_poll (length uss) (n + 1) ?s = (Ok (n + 1 + length uss, None), s') \<and>
           ms_in (rs_transport s') = r \<and> ms_out (rs_transport s') = ms_out (rs_transport ?s)
       | Err e \<Rightarrow> \<exists>k < length uss. smoke_pumps da mem_read mem_poll (length uss) (n + 1) ?s = (Ok (n + 1 + k, Some e), s')
       | Panic \<Rightarrow> smoke_pumps da mem_read mem_poll (length uss) (n + 1) ?s = (Panic, s')"
      using Cons.IH [of ?s "n + 1"] Cons.prems(1) p(2) by (auto simp del: One_nat_def)
    show ?thesis
      unfolding whole eq step using s' p(3)
      by (intro exI [of _ s'] conjI) (auto split: result.splits intro: exI [of _ "Suc k" for k])
  next
    case (Err e)
    then show ?thesis using p(1) d' by (intro exI) (auto simp: display_apply_all_append io_bind_def)
  next
    case Panic
    then show ?thesis using p(1) d' by (intro exI) (auto simp: display_apply_all_append io_bind_def)
  qed
qed

section \<open>Connecting, then pumping\<close>

lemma shown_clean: "shown (clean d) = clean (shown d)"
  by (simp add: shown_def clean_def)

lemma shown_display_new [simp]: "shown (display_new w h) = display_new w h"
  by (simp add: shown_def display_new_def)

text \<open>
  The outcome of a run of \<open>n\<close> pumps against the picture \<open>(res, d)\<close> the server's payloads paint:
  all frames pumped and the stream read up to \<open>r\<close>, an early end with the error of a payload, or
  a panic.
\<close>

definition run_shows ::
    "unit result \<times> display \<Rightarrow> nat \<Rightarrow> bytes \<Rightarrow> bytes \<Rightarrow>
     (nat \<times> error option) result \<times> (mem_stream, 'u) rdp_session \<Rightarrow> bool" where
  "run_shows picture n r w run \<longleftrightarrow>
     clean (shown (rs_display (snd run))) = clean (snd picture) \<and>
     (case fst picture of
        Ok _ \<Rightarrow> fst run = Ok (n, None) \<and> rs_transport (snd run) = \<lparr>ms_in = r, ms_out = w\<rparr>
      | Err e \<Rightarrow> \<exists>k < n. fst run = Ok (k, Some e)
      | Panic \<Rightarrow> fst run = Panic)"

lemma new_session_run:
  assumes "list_all pdu_ok uss" and "ms_in t = concat (map output_pdu_encode uss) @ r"
  shows "run_shows
    (process_all da (completed ([], 0) (concat uss)) (display_new (unat (sp_width params)) (unat (sp_height params))))
    (length uss) r (ms_out t)
    (smoke_pumps da mem_read mem_poll (length uss) 0 (new_session params x t :: (mem_stream, 'u) rdp_session))"
proof -
  let ?s = "new_session params x t :: (mem_stream, 'u) rdp_session" and ?d0 = "display_new (unat (sp_width params)) (unat (sp_height params))"
  let ?q = "display_apply_all da (concat uss) ?d0"
  have s: "rs_display ?s = ?d0" "rs_transport ?s = t" by (simp_all add: new_session_def)
  have picture: "process_all da (completed ([], 0) (concat uss)) ?d0 = apsnd shown ?q"
    unfolding display_apply_all_completed by (simp add: display_new_def shown_def)
  obtain s' where s': "clean (rs_display s') = clean (snd ?q)"
    "case fst ?q of
       Ok _ \<Rightarrow> smoke_pumps da mem_read mem_poll (length uss) 0 ?s = (Ok (0 + length uss, None), s') \<and>
         ms_in (rs_transport s') = r \<and> ms_out (rs_transport s') = ms_out t
     | Err e \<Rightarrow> \<exists>k < length uss. smoke_pumps da mem_read mem_poll (length uss) 0 ?s = (Ok (0 + k, Some e), s')
     | Panic \<Rightarrow> smoke_pumps da mem_read mem_poll (length uss) 0 ?s = (Panic, s')"
    using smoke_pumps_pdus [of uss ?s r da 0] assms unfolding s by blast
  have "clean (shown (rs_display s')) = clean (shown (snd ?q))" using s'(1) by (metis shown_clean)
  then show ?thesis
    using s'(2) unfolding run_shows_def picture by (auto split: result.splits)
qed

end
