(* ===== verification/Tls_Config.thy ===== *)
theory Tls_Config
  imports Tls
begin

text \<open>
  The rustls configuration (\<open>src/tls.rs\<close>): a verifier that accepts every certificate and every
  handshake signature, and no client certificate. The crypto provider belongs to another crate;
  of it the code uses the signature schemes, which are a parameter. Since the handshake refuses
  nobody, the key it yields is only as trustworthy as the CredSSP binding that checks it: what
  holds of an arbitrary certificate in \<open>Session_Spec\<close> and \<open>Security_Props\<close> is all there is.
\<close>

text \<open>\<open>Result<ServerCertVerified, rustls::Error>\<close>: the success carries nothing.\<close>

datatype 'e verdict = Assertion | Refused 'e

record 'e cert_verifier =
  verify_server_cert :: "bytes \<Rightarrow> bytes list \<Rightarrow> rstring \<Rightarrow> bytes \<Rightarrow> nat \<Rightarrow> 'e verdict"
  verify_tls12_signature :: "bytes \<Rightarrow> bytes \<Rightarrow> bytes \<Rightarrow> 'e verdict"
  verify_tls13_signature :: "bytes \<Rightarrow> bytes \<Rightarrow> bytes \<Rightarrow> 'e verdict"
  supported_verify_schemes :: "u16 list"

definition accept_all_verifier :: "u16 list \<Rightarrow> 'e cert_verifier" where
  "accept_all_verifier schemes =
     \<lparr>verify_server_cert = (\<lambda>end_entity intermediates server_name ocsp_response now. Assertion),
      verify_tls12_signature = (\<lambda>message cert dss. Assertion),
      verify_tls13_signature = (\<lambda>message cert dss. Assertion),
      supported_verify_schemes = schemes\<rparr>"

record 'e tls_config =
  cfg_verifier :: "'e cert_verifier"
  cfg_client_auth :: "bytes option"

definition client_config :: "u16 list \<Rightarrow> 'e tls_config" where
  "client_config schemes = \<lparr>cfg_verifier = accept_all_verifier schemes, cfg_client_auth = None\<rparr>"

text \<open>Not even an empty or malformed certificate is refused by the configuration.\<close>

lemma client_config_accepts:
  "verify_server_cert (cfg_verifier (client_config schemes)) cert chain name ocsp now = Assertion"
  "verify_tls12_signature (cfg_verifier (client_config schemes)) m cert dss = Assertion"
  "verify_tls13_signature (cfg_verifier (client_config schemes)) m cert dss = Assertion"
  "cfg_client_auth (client_config schemes) = None"
  by (simp_all add: client_config_def accept_all_verifier_def)

text \<open>What stops a bad certificate is the reader of its key: without one there is no connection.\<close>

lemma tls_connect_bad_certificate:
  assumes "negotiate rd wr protocols cookie s = (Ok protocol, t)" and "handshake t = (Ok (Some cert), u)"
    and "subject_public_key cert = Err e"
  shows "tls_connect rd wr handshake protocols cookie s = (Err e, u)"
  using assms by (simp add: tls_connect_def io_bind_def io_lift_def)

end
