(* ===== verification/Tests_Wire.thy ===== *)
theory Tests_Wire
  imports Samples Input "HOL-Library.Code_Target_Nat"
begin

text \<open>
  The unit tests of the protocol layers (\<open>mod tests\<close> of each file under \<open>src/\<close>), as predicates
  over the model: the bytes the authors expect of the code are those of its translation. A test
  that builds a value, encodes it and unwraps a decoder is the equation it asserts.
\<close>

definition bstr :: "string \<Rightarrow> bytes" where
  "bstr s = map of_char s"

definition u32_at :: "bytes \<Rightarrow> nat \<Rightarrow> u32" where
  "u32_at b i = u32_from_le_bytes (b ! i) (b ! (i + 1)) (b ! (i + 2)) (b ! (i + 3))"

definition u16_at :: "bytes \<Rightarrow> nat \<Rightarrow> u16" where
  "u16_at b i = u16_from_le_bytes (b ! i) (b ! (i + 1))"

definition u16_be_at :: "bytes \<Rightarrow> nat \<Rightarrow> u16" where
  "u16_be_at b i = u16_from_be_bytes (b ! i) (b ! (i + 1))"

definition is_protocol :: "'a result \<Rightarrow> bool" where
  "is_protocol r \<longleftrightarrow> (case r of Err (Protocol _) \<Rightarrow> True | _ \<Rightarrow> False)"

section \<open>\<open>src/tpkt.rs\<close>\<close>

definition tpkt_encode_then_decode_roundtrips :: bool where
  "tpkt_encode_then_decode_roundtrips \<longleftrightarrow>
     (let payload = [0xe0, 0, 0, 0, 0, 0]
      in case tpkt_encode payload of
           Ok pkt \<Rightarrow> pkt ! 0 = 3 \<and> pkt ! 1 = 0 \<and> unat (u16_be_at pkt 2) = length payload + 4 \<and> tpkt_decode pkt = Ok payload
         | _ \<Rightarrow> False)"

definition tpkt_peek_reports_total_length :: bool where
  "tpkt_peek_reports_total_length \<longleftrightarrow> and_then (tpkt_encode (replicate 10 0)) peek_total_len = Ok 14"

definition tpkt_decode_needs_the_whole_packet :: bool where
  "tpkt_decode_needs_the_whole_packet \<longleftrightarrow>
     (case and_then (tpkt_encode (replicate 20 0)) (\<lambda>pkt. tpkt_decode (take 10 pkt)) of
        Err (Short _ _) \<Rightarrow> True | _ \<Rightarrow> False)"

definition tpkt_rejects_bad_version :: bool where
  "tpkt_rejects_bad_version \<longleftrightarrow>
     is_protocol (and_then (tpkt_encode (replicate 4 0)) (\<lambda>pkt. peek_total_len (pkt[0 := 4])))"

lemma tpkt_encode_then_decode_roundtrips_passes: tpkt_encode_then_decode_roundtrips
  by code_simp
lemma tpkt_peek_reports_total_length_passes: tpkt_peek_reports_total_length
  by code_simp
lemma tpkt_decode_needs_the_whole_packet_passes: tpkt_decode_needs_the_whole_packet
  by code_simp
lemma tpkt_rejects_bad_version_passes: tpkt_rejects_bad_version
  by code_simp

section \<open>\<open>src/nego.rs\<close> and \<open>src/x224.rs\<close>\<close>

definition nego_request_roundtrips :: bool where
  "nego_request_roundtrips \<longleftrightarrow>
     (let req = \<lparr>nr_flags = 0, nr_requested = sp_with (sp_with 0 PROTO_SSL) PROTO_HYBRID\<rparr>; out = neg_request_write req
      in length out = 8 \<and> neg_request_read out = Ok (req, []))"

definition nego_response_selected_roundtrips :: bool where
  "nego_response_selected_roundtrips \<longleftrightarrow>
     (let rsp = Selected 0x02 PROTO_HYBRID in neg_response_read (neg_response_write rsp) = Ok (rsp, []))"

definition nego_response_failure_roundtrips_with_reason :: bool where
  "nego_response_failure_roundtrips_with_reason \<longleftrightarrow>
     neg_response_read (neg_response_write (Failure 5)) = Ok (Failure 5, []) \<and>
     failure_reason 5 = ''HYBRID_REQUIRED_BY_SERVER''"

definition x224_sample_req :: connection_request where
  "x224_sample_req =
     \<lparr>cr_cookie = Some (rstr ''nicat''),
      cr_nego = Some \<lparr>nr_flags = 0, nr_requested = sp_with (sp_with 0 PROTO_SSL) PROTO_HYBRID\<rparr>\<rparr>"

definition x224_request_roundtrips_with_cookie_and_nego :: bool where
  "x224_request_roundtrips_with_cookie_and_nego \<longleftrightarrow>
     (let b = connection_request_encode x224_sample_req
      in b ! 1 = TPDU_CR \<and> unat (b ! 0) + 1 = length b \<and> connection_request_decode b = Ok x224_sample_req)"

definition x224_request_without_cookie_roundtrips :: bool where
  "x224_request_without_cookie_roundtrips \<longleftrightarrow>
     (let req = \<lparr>cr_cookie = None, cr_nego = Some \<lparr>nr_flags = 0, nr_requested = PROTO_SSL\<rparr>\<rparr>
      in connection_request_decode (connection_request_encode req) = Ok req)"

definition x224_confirm_roundtrips :: bool where
  "x224_confirm_roundtrips \<longleftrightarrow>
     (let cc = \<lparr>cc_nego = Some (Selected 0 PROTO_HYBRID)\<rparr>; b = connection_confirm_encode cc
      in b ! 1 = TPDU_CC \<and> connection_confirm_decode b = Ok cc)"

definition x224_data_tpdu_wraps_and_unwraps :: bool where
  "x224_data_tpdu_wraps_and_unwraps \<longleftrightarrow>
     (let payload = bstr ''mcs-pdu-bytes-here''; wrapped = wrap_data payload
      in take 3 wrapped = DATA_HEADER \<and> unwrap_data wrapped = Ok payload)"

lemma nego_request_roundtrips_passes: nego_request_roundtrips
  by code_simp
lemma nego_response_selected_roundtrips_passes: nego_response_selected_roundtrips
  by code_simp
lemma nego_response_failure_roundtrips_with_reason_passes: nego_response_failure_roundtrips_with_reason
  by code_simp
lemma x224_request_roundtrips_with_cookie_and_nego_passes: x224_request_roundtrips_with_cookie_and_nego
  by code_simp
lemma x224_request_without_cookie_roundtrips_passes: x224_request_without_cookie_roundtrips
  by code_simp
lemma x224_confirm_roundtrips_passes: x224_confirm_roundtrips
  by code_simp
lemma x224_data_tpdu_wraps_and_unwraps_passes: x224_data_tpdu_wraps_and_unwraps
  by code_simp

section \<open>\<open>src/mcs/ber.rs\<close>, \<open>per.rs\<close>, \<open>connect.rs\<close>, \<open>domain.rs\<close>\<close>

definition ber_integer_and_length :: bool where
  "ber_integer_and_length \<longleftrightarrow>
     ber_integer 0 = [0x02, 0x01, 0x00] \<and> ber_integer 2 = [0x02, 0x01, 0x02] \<and>
     ber_integer 65535 = [0x02, 0x03, 0x00, 0xff, 0xff] \<and> ber_length 200 = [0x81, 0xc8]"

definition ber_application_tag_short_and_long :: bool where
  "ber_application_tag_short_and_long \<longleftrightarrow>
     application_tag_bytes 101 = [0x7f, 0x65] \<and> application_tag_bytes 102 = [0x7f, 0x66] \<and>
     application_tag_bytes 30 = [0x40 OR 0x20 OR 30]"

definition ber_reader_roundtrips_integer_and_octet_string :: bool where
  "ber_reader_roundtrips_integer_and_octet_string \<longleftrightarrow>
     (case ber_read_integer (ber_integer 65535 @ ber_octet_string (bstr ''hello'')) of
        Ok (n, r) \<Rightarrow> n = 65535 \<and> ber_expect [0x04] r = Ok (bstr ''hello'', [])
      | _ \<Rightarrow> False)"

definition ber_application_wrap_roundtrips :: bool where
  "ber_application_wrap_roundtrips \<longleftrightarrow>
     (let app = ber_application 101 (ber_integer 7)
      in take 2 app = [0x7f, 0x65] \<and>
         and_then (ber_expect [0x7f, 0x65] app) (\<lambda>(contents, _). ber_read_integer contents) = Ok (7, []))"

definition per_length_short_form :: bool where
  "per_length_short_form \<longleftrightarrow> per_write_length 0x1f = [0x1f] \<and> per_read_length [0x1f] = Ok (0x1f, [])"

definition per_length_two_byte_form :: bool where
  "per_length_two_byte_form \<longleftrightarrow>
     per_write_length 0x200 = [0x82, 0x00] \<and> per_read_length [0x82, 0x00] = Ok (0x200, [])"

definition per_length_boundary_127_and_128 :: bool where
  "per_length_boundary_127_and_128 \<longleftrightarrow>
     list_all (\<lambda>n. per_read_length (per_write_length n) = Ok (n, [])) [0, 1, 127, 128, 255, 1000, 0x3fff]"

definition connect_initial_has_application_101_tag :: bool where
  "connect_initial_has_application_101_tag \<longleftrightarrow>
     take 2 (connect_initial (conference_create_request [0xAA, 0xBB, 0xCC, 0xDD])) = [0x7f, 0x65]"

definition connect_initial_embeds_the_gcc_userdata :: bool where
  "connect_initial_embeds_the_gcc_userdata \<longleftrightarrow>
     find_window (bstr ''Duca'')
       (connect_initial (conference_create_request (client_core_data_encode client_core_data_default))) \<noteq> None"

definition test_connect_response :: "u8 \<Rightarrow> bytes \<Rightarrow> bytes" where
  "test_connect_response res user_data =
     ber_application CONNECT_RESPONSE
       (ber_enumerated res @ ber_integer 0 @ domain_parameters [34, 3, 0, 1, 0, 1, 0xFFFF, 2] @ ber_octet_string user_data)"

definition connect_response_roundtrips_and_extracts_userdata :: bool where
  "connect_response_roundtrips_and_extracts_userdata \<longleftrightarrow>
     parse_connect_response (test_connect_response 0 (bstr ''GCC-response-bytes-here'')) =
       Ok (bstr ''GCC-response-bytes-here'')"

definition connect_response_rejects_failure_result :: bool where
  "connect_response_rejects_failure_result \<longleftrightarrow>
     (case parse_connect_response (test_connect_response 1 (bstr ''x'')) of
        Err (NegotiationFailure _) \<Rightarrow> True | _ \<Rightarrow> False)"

lemma ber_integer_and_length_passes: ber_integer_and_length
  by code_simp
lemma ber_application_tag_short_and_long_passes: ber_application_tag_short_and_long
  by code_simp
lemma ber_reader_roundtrips_integer_and_octet_string_passes: ber_reader_roundtrips_integer_and_octet_string
  by code_simp
lemma ber_application_wrap_roundtrips_passes: ber_application_wrap_roundtrips
  by code_simp
lemma per_length_short_form_passes: per_length_short_form
  by code_simp
lemma per_length_two_byte_form_passes: per_length_two_byte_form
  by code_simp
lemma per_length_boundary_127_and_128_passes: per_length_boundary_127_and_128
  by code_simp
lemma connect_initial_has_application_101_tag_passes: connect_initial_has_application_101_tag
  by code_simp
lemma find_window_occurs: "key \<noteq> [] \<Longrightarrow> find_window key (pre @ key @ rest) \<noteq> None"
proof (induction pre)
  case Nil
  then obtain b bs where kr: "key @ rest = b # bs" by (cases "key @ rest") auto
  have "take (length key) (b # bs) = key" "length key \<le> length (b # bs)" unfolding kr [symmetric] by simp_all
  then show ?case unfolding append_Nil kr by auto
qed simp

lemma connect_initial_embeds_the_gcc_userdata_passes: connect_initial_embeds_the_gcc_userdata
proof -
  have "bstr ''Duca'' = H221_CLIENT_KEY" by code_simp
  moreover have "\<exists>pre rest. connect_initial (conference_create_request b) = pre @ H221_CLIENT_KEY @ rest" for b
    unfolding connect_initial_def conference_create_request_def ber_application_def ber_tlv_def ber_octet_string_def Let_def
    by (metis append.assoc)
  ultimately show ?thesis
    unfolding connect_initial_embeds_the_gcc_userdata_def
    by (metis find_window_occurs H221_CLIENT_KEY_def list.discI)
qed
lemma connect_response_roundtrips_and_extracts_userdata_passes: connect_response_roundtrips_and_extracts_userdata
  by code_simp
lemma connect_response_rejects_failure_result_passes: connect_response_rejects_failure_result
  by code_simp

definition domain_erect_and_attach_choice_bytes :: bool where
  "domain_erect_and_attach_choice_bytes \<longleftrightarrow> erect_domain_request ! 0 = 0x04 \<and> attach_user_request = [0x28]"

definition domain_attach_user_confirm_extracts_channel :: bool where
  "domain_attach_user_confirm_extracts_channel \<longleftrightarrow> parse_attach_user_confirm True [0x2E, 0x00, 0x00, 0x06] = Ok 1007"

definition domain_channel_join_request_encoding :: bool where
  "domain_channel_join_request_encoding \<longleftrightarrow>
     (case channel_join_request True 1007 IO_CHANNEL of
        Ok req \<Rightarrow> req ! 0 = 0x38 \<and> u16_be_at req 1 = 1007 - MCS_BASE \<and> u16_be_at req 3 = IO_CHANNEL
      | _ \<Rightarrow> False)"

definition domain_channel_join_confirm_extracts_channel :: bool where
  "domain_channel_join_confirm_extracts_channel \<longleftrightarrow>
     parse_channel_join_confirm (put_u8 0x3E @ put_u8 0 @ put_u16 6 @ put_u16 1003 @ put_u16 1003) = Ok 1003"

definition domain_send_data_request_roundtrips :: bool where
  "domain_send_data_request_roundtrips \<longleftrightarrow>
     (let payload = bstr ''an-rdp-pdu-payload''
      in case send_data_request True 1007 IO_CHANNEL payload of
           Ok req \<Rightarrow> req ! 0 = 0x64 \<and> parse_send_data_indication (req[0 := 0x68]) = Ok (IO_CHANNEL, payload)
         | _ \<Rightarrow> False)"

lemma domain_erect_and_attach_choice_bytes_passes: domain_erect_and_attach_choice_bytes
  by code_simp
lemma domain_attach_user_confirm_extracts_channel_passes: domain_attach_user_confirm_extracts_channel
  by code_simp
lemma domain_channel_join_request_encoding_passes: domain_channel_join_request_encoding
  by code_simp
lemma domain_channel_join_confirm_extracts_channel_passes: domain_channel_join_confirm_extracts_channel
  by code_simp
lemma domain_send_data_request_roundtrips_passes: domain_send_data_request_roundtrips
  by code_simp

section \<open>\<open>src/gcc.rs\<close>, \<open>src/pdu.rs\<close>, \<open>src/caps.rs\<close>, \<open>src/info.rs\<close>\<close>

definition gcc_core_has_ud_header_and_selected_protocol :: bool where
  "gcc_core_has_ud_header_and_selected_protocol \<longleftrightarrow>
     (let enc = client_core_data_encode (client_core_data_default\<lparr>cd_server_selected_protocol := 0x02\<rparr>)
      in u16_at enc 0 = CS_CORE \<and> unat (u16_at enc 2) = length enc \<and> u32_at enc 4 = VERSION_RDP5)"

definition gcc_net_lists_channels :: bool where
  "gcc_net_lists_channels \<longleftrightarrow>
     (let enc = client_network_data
            [\<lparr>ch_name = rstr ''rdpdr'', ch_options = 0x80000000\<rparr>, \<lparr>ch_name = rstr ''cliprdr'', ch_options = 0xC0000000\<rparr>]
      in u16_at enc 0 = CS_NET \<and> u32_at enc 4 = 2)"

definition gcc_parse_sc_net_extracts_channel_ids :: bool where
  "gcc_parse_sc_net_extracts_channel_ids \<longleftrightarrow>
     (case parse_server_network_data
             (ud_block SC_NET (put_u16_le 1003 @ put_u16_le 2 @ put_u16_le 1004 @ put_u16_le 1005)) of
        Ok parsed \<Rightarrow> sn_io_channel_id parsed = 1003 \<and> sn_channel_ids parsed = [1004, 1005]
      | _ \<Rightarrow> False)"

definition gcc_parse_sc_net_skips_other_blocks :: bool where
  "gcc_parse_sc_net_skips_other_blocks \<longleftrightarrow>
     (case parse_server_network_data
             (ud_block SC_CORE [0, 0, 8, 0] @ ud_block SC_NET (put_u16_le 1003 @ put_u16_le 0)) of
        Ok parsed \<Rightarrow> sn_io_channel_id parsed = 1003 \<and> sn_channel_ids parsed = []
      | _ \<Rightarrow> False)"

definition pdu_share_control_roundtrips :: bool where
  "pdu_share_control_roundtrips \<longleftrightarrow>
     (let body = bstr ''share-control-body''
      in case parse_share_control (share_control PDUTYPE_CONFIRMACTIVE 1002 body) of
           Ok (hdr, inner) \<Rightarrow> sch_pdu_type hdr = PDUTYPE_CONFIRMACTIVE \<and> sch_pdu_source hdr = 1002 \<and> inner = body
         | _ \<Rightarrow> False)"

definition pdu_share_data_wraps_and_unwraps :: bool where
  "pdu_share_data_wraps_and_unwraps \<longleftrightarrow>
     (let inner = synchronize 1002
      in case parse_share_control (share_data 1007 0x103EA PDUTYPE2_SYNCHRONIZE inner) of
           Ok (hdr, body) \<Rightarrow>
             sch_pdu_type hdr = PDUTYPE_DATA \<and> parse_share_data body = Ok (PDUTYPE2_SYNCHRONIZE, inner)
         | _ \<Rightarrow> False)"

definition pdu_control_cooperate_is_well_formed :: bool where
  "pdu_control_cooperate_is_well_formed \<longleftrightarrow>
     (let c = control CTRLACTION_COOPERATE 0 0 in u16_at c 0 = CTRLACTION_COOPERATE \<and> length c = 8)"

definition pdu_synchronize_targets_user :: bool where
  "pdu_synchronize_targets_user \<longleftrightarrow> (let s = synchronize 0x03EA in u16_at s 0 = 1 \<and> u16_at s 2 = 0x03EA)"

definition caps_set_framing :: bool where
  "caps_set_framing \<longleftrightarrow>
     (let cs = capability_set CAPSTYPE_GENERAL [1, 2, 3, 4]
      in u16_at cs 0 = CAPSTYPE_GENERAL \<and> unat (u16_at cs 2) = length cs)"

definition caps_confirm_active_is_valid_share_control :: bool where
  "caps_confirm_active_is_valid_share_control \<longleftrightarrow>
     (case parse_share_control (confirm_active 1007 0x000103EA
             [general_caps, bitmap_caps 1024 768, pointer_caps, input_caps 0x409, share_caps]) of
        Ok (hdr, _) \<Rightarrow> sch_pdu_type hdr = PDUTYPE_CONFIRMACTIVE \<and> sch_pdu_source hdr = 1007
      | _ \<Rightarrow> False)"

definition caps_demand_active_roundtrips_through_parse :: bool where
  "caps_demand_active_roundtrips_through_parse \<longleftrightarrow>
     (let combined = concat [general_caps, bitmap_caps 800 600];
          body = put_u32_le 0x000103EA @ put_u16_le 6 @ put_u16_le (of_nat (length combined + 4))
            @ bstr ''RDP'' @ [0, 0, 0] @ put_u16_le 2 @ put_u16_le 0 @ combined
      in case parse_demand_active body of
           Ok da \<Rightarrow> da_share_id da = 0x000103EA \<and>
             map fst (da_capability_sets da) = [CAPSTYPE_GENERAL, CAPSTYPE_BITMAP]
         | _ \<Rightarrow> False)"

definition info_default :: logon_info where
  "info_default = \<lparr>li_domain = [], li_username = [], li_password = [], li_alternate_shell = [], li_working_dir = []\<rparr>"

definition info_starts_with_security_header :: bool where
  "info_starts_with_security_header \<longleftrightarrow>
     (let pdu = client_info (info_default\<lparr>li_domain := rstr ''DOM'', li_username := rstr ''nicat''\<rparr>) False
      in u16_at pdu 0 = SEC_INFO_PKT \<and> u16_at pdu 2 = 0)"

definition info_cb_fields_exclude_null_terminator :: bool where
  "info_cb_fields_exclude_null_terminator \<longleftrightarrow>
     (let pdu = client_info (info_default\<lparr>li_username := rstr ''ab''\<rparr>) False
      in u16_at pdu 12 = 0 \<and> u16_at pdu 14 = 4)"

definition info_autologon_flag_only_with_password :: bool where
  "info_autologon_flag_only_with_password \<longleftrightarrow>
     u32_at (client_info (info_default\<lparr>li_username := rstr ''u'', li_password := rstr ''p''\<rparr>) True) 8 AND INFO_AUTOLOGON \<noteq> 0 \<and>
     u32_at (client_info (info_default\<lparr>li_username := rstr ''u''\<rparr>) True) 8 AND INFO_AUTOLOGON = 0"

lemma gcc_core_has_ud_header_and_selected_protocol_passes: gcc_core_has_ud_header_and_selected_protocol
  by code_simp
lemma gcc_net_lists_channels_passes: gcc_net_lists_channels
  by code_simp
lemma gcc_parse_sc_net_extracts_channel_ids_passes: gcc_parse_sc_net_extracts_channel_ids
  by code_simp
lemma gcc_parse_sc_net_skips_other_blocks_passes: gcc_parse_sc_net_skips_other_blocks
  by code_simp

lemma pdu_share_control_roundtrips_passes: pdu_share_control_roundtrips
  by code_simp
lemma pdu_share_data_wraps_and_unwraps_passes: pdu_share_data_wraps_and_unwraps
  by code_simp
lemma pdu_control_cooperate_is_well_formed_passes: pdu_control_cooperate_is_well_formed
  by code_simp
lemma pdu_synchronize_targets_user_passes: pdu_synchronize_targets_user
  by code_simp
lemma caps_set_framing_passes: caps_set_framing
  by code_simp
lemma caps_confirm_active_is_valid_share_control_passes: caps_confirm_active_is_valid_share_control
  by code_simp
lemma caps_demand_active_roundtrips_through_parse_passes: caps_demand_active_roundtrips_through_parse
  by code_simp

lemma info_starts_with_security_header_passes: info_starts_with_security_header
  by code_simp
lemma info_cb_fields_exclude_null_terminator_passes: info_cb_fields_exclude_null_terminator
  by code_simp
lemma info_autologon_flag_only_with_password_passes: info_autologon_flag_only_with_password
  by code_simp

section \<open>\<open>src/emt.rs\<close>, \<open>src/multitransport.rs\<close>, \<open>src/dvc.rs\<close>, \<open>src/vchannel.rs\<close>\<close>

definition emt_create_request_matches_spec_example :: bool where
  "emt_create_request_matches_spec_example \<longleftrightarrow>
     (let cookie = [0x0F, 0x1E, 0x2D, 0x3C, 0x4B, 0x5A, 0x69, 0x78, 0x87, 0x96, 0xA5, 0xB4, 0xC3, 0xD2, 0xE1, 0xF0];
          pdu = create_request 1 cookie
      in pdu = [0x00, 0x18, 0x00, 0x04] @ [0x01, 0, 0, 0] @ [0, 0, 0, 0] @ cookie \<and> length pdu = 28)"

definition emt_create_response_roundtrips :: bool where
  "emt_create_response_roundtrips \<longleftrightarrow> emt_parse (tunnel_pdu ACTION_CREATERESPONSE (put_u32_le 0)) = Ok (CreateResponse 0)"

definition emt_data_wraps_and_unwraps :: bool where
  "emt_data_wraps_and_unwraps \<longleftrightarrow>
     (let inner = bstr ''fast-path-update-bytes''; pdu = tunnel_data inner
      in pdu ! 0 = ACTION_DATA \<and> emt_parse pdu = Ok (TunnelData inner))"

definition emt_parse_skips_subheaders_via_header_length :: bool where
  "emt_parse_skips_subheaders_via_header_length \<longleftrightarrow>
     emt_parse ([ACTION_DATA, 0x03, 0x00, 0x06, 0xAA, 0xBB] @ [1, 2, 3]) = Ok (TunnelData [1, 2, 3])"

definition multitransport_parses_initiate_request :: "(bytes \<Rightarrow> bytes) \<Rightarrow> bool" where
  "multitransport_parses_initiate_request sha256 \<longleftrightarrow>
     (let cookie = replicate 16 0x11
      in case initiate_request_parse (put_u32_le 0xDEADBEEF @ put_u16_le PROTOCOL_UDPFECR @ put_u16_le 0 @ cookie) of
           Ok req \<Rightarrow> ir_request_id req = 0xDEADBEEF \<and> ir_requested_protocol req = PROTOCOL_UDPFECR \<and>
             ir_security_cookie req = cookie \<and> cookie_hash sha256 req = sha256 cookie
         | _ \<Rightarrow> False)"

definition multitransport_response_layout :: bool where
  "multitransport_response_layout \<longleftrightarrow>
     (let r = initiate_response 0xDEADBEEF 0 in u32_at r 0 = 0xDEADBEEF \<and> u32_at r 4 = 0)"

definition dvc_parses_capabilities_request :: bool where
  "dvc_parses_capabilities_request \<longleftrightarrow>
     dvc_parse [0x50, 0x00, 0x03, 0x00, 0, 0, 0, 0, 0, 0, 0, 0] = Ok (Capabilities 3)"

definition dvc_capabilities_response_roundtrips :: bool where
  "dvc_capabilities_response_roundtrips \<longleftrightarrow>
     capabilities_response 2 = [0x50, 0x00, 0x02, 0x00] \<and> dvc_parse (capabilities_response 2) = Ok (Capabilities 2)"

definition dvc_parses_create_request :: bool where
  "dvc_parses_create_request \<longleftrightarrow> dvc_parse ([0x10, 0x03] @ bstr ''ECHO'' @ [0x00]) = Ok (Create 3 (rstr ''ECHO''))"

definition dvc_create_response_success :: bool where
  "dvc_create_response_success \<longleftrightarrow> create_response 3 0 = [0x10, 0x03, 0, 0, 0, 0]"

definition dvc_data_pdu_roundtrips :: bool where
  "dvc_data_pdu_roundtrips \<longleftrightarrow> dvc_parse (dvc_data 5 (bstr ''graphics-bytes'')) = Ok (Data 5 (bstr ''graphics-bytes''))"

definition dvc_two_byte_channel_id :: bool where
  "dvc_two_byte_channel_id \<longleftrightarrow>
     (let pdu = dvc_data 0x0102 (bstr ''x'') in pdu ! 0 = 0x31 \<and> u16_at pdu 1 = 0x0102)"

definition vchannel_single_chunk_wraps_and_reassembles :: bool where
  "vchannel_single_chunk_wraps_and_reassembles \<longleftrightarrow>
     (let data = bstr ''hello dynamic channel'' in fst (push (vc_wrap data) reassembler_new) = Ok (Some data))"

definition vchannel_large_message_chunks_and_reassembles :: bool where
  "vchannel_large_message_chunks_and_reassembles \<longleftrightarrow>
     (let data = map of_nat [0..<4000]; chunks = chunk data
      in 3 \<le> length chunks \<and> fst (push_all chunks reassembler_new) = Ok [data])"

definition vchannel_first_chunk_flags_are_set :: bool where
  "vchannel_first_chunk_flags_are_set \<longleftrightarrow>
     (let chunks = chunk (replicate 3500 0); first_flags = u32_at (chunks ! 0) 4; last_flags = u32_at (last chunks) 4
      in first_flags AND CHANNEL_FLAG_FIRST \<noteq> 0 \<and> first_flags AND CHANNEL_FLAG_LAST = 0 \<and>
         last_flags AND CHANNEL_FLAG_LAST \<noteq> 0)"

lemma emt_create_request_matches_spec_example_passes: emt_create_request_matches_spec_example
  by code_simp
lemma emt_create_response_roundtrips_passes: emt_create_response_roundtrips
  by code_simp
lemma emt_data_wraps_and_unwraps_passes: emt_data_wraps_and_unwraps
  by code_simp
lemma emt_parse_skips_subheaders_via_header_length_passes: emt_parse_skips_subheaders_via_header_length
  by code_simp
lemma multitransport_parses_initiate_request_passes: "multitransport_parses_initiate_request (p_sha256 sample_primitives)"
  by code_simp
lemma multitransport_response_layout_passes: multitransport_response_layout
  by code_simp
lemma dvc_parses_capabilities_request_passes: dvc_parses_capabilities_request
  by code_simp
lemma dvc_capabilities_response_roundtrips_passes: dvc_capabilities_response_roundtrips
  by code_simp
lemma dvc_parses_create_request_passes: dvc_parses_create_request
  by code_simp
lemma dvc_create_response_success_passes: dvc_create_response_success
  by code_simp
lemma dvc_data_pdu_roundtrips_passes: dvc_data_pdu_roundtrips
  by code_simp
lemma dvc_two_byte_channel_id_passes: dvc_two_byte_channel_id
  by code_simp
lemma vchannel_single_chunk_wraps_and_reassembles_passes: vchannel_single_chunk_wraps_and_reassembles
  by code_simp

text \<open>The long messages need no evaluation of their bytes: three chunks up to 4800 bytes.\<close>

lemma three_chunks:
  assumes "3200 < length data" and "length data \<le> 4800"
  shows "\<exists>a b c. chunk data = [chunk_pdu (of_nat (length data)) True False a,
    chunk_pdu (of_nat (length data)) False False b, chunk_pdu (of_nat (length data)) False True c]"
  using assms chunk_loop_step [of 0 data] chunk_loop_step [of 1600 data] chunk_loop_step [of 3200 data]
    chunk_loop_end [of data]
  by (cases "data = []") (auto simp: chunk_def CHANNEL_CHUNK_LENGTH_def min_def Let_def)

lemma chunk_pdu_flags:
  "u32_at (chunk_pdu tot a b data) 4 =
     (if a then CHANNEL_FLAG_FIRST else 0) OR (if b then CHANNEL_FLAG_LAST else 0)"
proof -
  have "u32_at (put_u32_le tot @ put_u32_le f @ data) 4 = f" for f
    by (simp add: u32_at_def put_u32_le_def u32_le_bytes)
  then show ?thesis by (simp only: chunk_pdu_def)
qed

lemma vchannel_first_chunk_flags_are_set_passes: vchannel_first_chunk_flags_are_set
proof -
  obtain a b c where c: "chunk (replicate 3500 0) = [chunk_pdu 3500 True False a,
      chunk_pdu 3500 False False b, chunk_pdu 3500 False True c]"
    using three_chunks [of "replicate 3500 0"] by auto
  show ?thesis unfolding vchannel_first_chunk_flags_are_set_def c Let_def
    by (simp add: chunk_pdu_flags CHANNEL_FLAG_FIRST_def CHANNEL_FLAG_LAST_def)
qed

lemma vchannel_large_message_chunks_and_reassembles_passes: vchannel_large_message_chunks_and_reassembles
proof -
  let ?data = "map of_nat [0..<4000] :: bytes"
  have "3 \<le> length (chunk ?data)" using three_chunks [of ?data] by auto
  moreover have "fst (push_all (chunk ?data) reassembler_new) = Ok [?data]"
    using push_chunk [of ?data reassembler_new] by auto
  ultimately show ?thesis unfolding vchannel_large_message_chunks_and_reassembles_def Let_def ..
qed

section \<open>\<open>src/input.rs\<close> and \<open>src/cert.rs\<close>\<close>

definition input_scancode_press_and_release :: bool where
  "input_scancode_press_and_release \<longleftrightarrow>
     scancode_event 0x1E True False = [0x00, 0x1E] \<and> scancode_event 0x1E False False = [KBDFLAGS_RELEASE, 0x1E]"

definition input_mouse_move_event_layout :: bool where
  "input_mouse_move_event_layout \<longleftrightarrow>
     (let ev = mouse_event PTRFLAGS_MOVE 100 200
      in ev ! 0 = 0x20 \<and> u16_at ev 1 = PTRFLAGS_MOVE \<and> u16_at ev 3 = 100 \<and> u16_at ev 5 = 200)"

definition input_pdu_wraps_events_with_count :: bool where
  "input_pdu_wraps_events_with_count \<longleftrightarrow>
     (let pdu = input_pdu [scancode_event 0x1E True False, mouse_event PTRFLAGS_MOVE 1 2]
      in drop_bit 2 (pdu ! 0) AND 0x0f = 2 \<and> pdu ! 0 AND 0x03 = 0 \<and> unat (pdu ! 1) = length pdu)"

definition input_left_click_is_down_plus_button1 :: bool where
  "input_left_click_is_down_plus_button1 \<longleftrightarrow>
     (let flags = u16_at (mouse_event (PTRFLAGS_DOWN OR PTRFLAGS_BUTTON1) 5 6) 1
      in flags AND PTRFLAGS_DOWN \<noteq> 0 \<and> flags AND PTRFLAGS_BUTTON1 \<noteq> 0)"

definition test_ber_tlv :: "u8 \<Rightarrow> bytes \<Rightarrow> bytes" where
  "test_ber_tlv tag v = [tag] @ ber_length (length v) @ v"

definition test_fake_cert :: "bool \<Rightarrow> bytes \<Rightarrow> bytes" where
  "test_fake_cert with_version pubkey =
     (let bit_string = test_ber_tlv 0x03 (0 # pubkey);
          algorithm = ber_sequence (ber_integer 1);
          spki = ber_sequence (algorithm @ bit_string);
          tbs = ber_sequence
            ((if with_version then test_ber_tlv (context_tag 0) (ber_integer 2) else [])
             @ ber_integer 0x1234 @ ber_sequence (ber_integer 1) @ ber_sequence [] @ ber_sequence [] @ ber_sequence [] @ spki)
      in ber_sequence (tbs @ ber_sequence [] @ test_ber_tlv 0x03 [0, 0]))"

definition cert_extracts_public_key_with_version :: bool where
  "cert_extracts_public_key_with_version \<longleftrightarrow>
     (let key = bstr ''the-servers-public-key-bytes'' in subject_public_key (test_fake_cert True key) = Ok key)"

definition cert_extracts_public_key_without_version :: bool where
  "cert_extracts_public_key_without_version \<longleftrightarrow>
     (let key = bstr ''another-key'' in subject_public_key (test_fake_cert False key) = Ok key)"

lemma input_scancode_press_and_release_passes: input_scancode_press_and_release
  by code_simp
lemma input_mouse_move_event_layout_passes: input_mouse_move_event_layout
  by code_simp
lemma input_pdu_wraps_events_with_count_passes: input_pdu_wraps_events_with_count
  by code_simp
lemma input_left_click_is_down_plus_button1_passes: input_left_click_is_down_plus_button1
  by code_simp
lemma cert_extracts_public_key_with_version_passes: cert_extracts_public_key_with_version
  by code_simp
lemma cert_extracts_public_key_without_version_passes: cert_extracts_public_key_without_version
  by code_simp

end
