(* ===== verification/Tests_Graphics.thy ===== *)
theory Tests_Graphics
  imports Tests_Wire Display Pointer Planar Rle Egfx
begin

text \<open>
  The unit tests of the graphics layer (\<open>src/graphics/\<close> and \<open>src/egfx.rs\<close>) as predicates over
  the model.
\<close>

definition test_pixel :: "framebuffer \<Rightarrow> nat \<Rightarrow> nat \<Rightarrow> u8 \<times> u8 \<times> u8 \<times> u8" where
  "test_pixel fb x y =
     (let o' = (y * fb_width fb + x) * 4
      in (fb_pixels fb ! o', fb_pixels fb ! (o' + 1), fb_pixels fb ! (o' + 2), fb_pixels fb ! (o' + 3)))"

definition holds :: "('a \<Rightarrow> bool) \<Rightarrow> 'a result \<Rightarrow> bool" where
  "holds P r \<longleftrightarrow> (case r of Ok x \<Rightarrow> P x | _ \<Rightarrow> False)"

section \<open>\<open>src/graphics/framebuffer.rs\<close> and \<open>bitmap.rs\<close>\<close>

definition fb_blit_places_pixels_at_offset :: bool where
  "fb_blit_places_pixels_at_offset \<longleftrightarrow>
     holds (\<lambda>fb. test_pixel fb 1 1 = (255, 0, 0, 255) \<and> test_pixel fb 2 2 = (255, 0, 0, 255) \<and>
         test_pixel fb 0 0 = (0, 0, 0, 0))
       (blit_rgba True 1 1 2 2 (concat (replicate 4 [255, 0, 0, 255])) (framebuffer_new 4 4))"

definition fb_blit_clips_at_edges :: bool where
  "fb_blit_clips_at_edges \<longleftrightarrow>
     holds (\<lambda>fb. test_pixel fb 2 2 = (0, 255, 0, 255))
       (blit_rgba True 2 2 2 2 (concat (replicate 4 [0, 255, 0, 255])) (framebuffer_new 3 3))"

definition test_rect_bytes :: "u16 \<Rightarrow> u16 \<Rightarrow> u16 \<Rightarrow> bytes \<Rightarrow> bytes" where
  "test_rect_bytes w h bpp pixels =
     concat (map put_u16_le [1, 1, 0, 0, w - 1, h - 1, w, h, bpp, 0, of_nat (length pixels)]) @ pixels"

definition bitmap_parses_uncompressed_rect :: bool where
  "bitmap_parses_uncompressed_rect \<longleftrightarrow>
     holds (\<lambda>rects. length rects = 1 \<and> r_width (rects ! 0) = 2 \<and> \<not> compressed (rects ! 0))
       (parse_bitmap_update (test_rect_bytes 2 1 16 [0x00, 0xF8, 0x1F, 0x00]))"

definition bitmap_rgb565_converts_to_rgba :: bool where
  "bitmap_rgb565_converts_to_rgba \<longleftrightarrow> to_rgba [0x00, 0xF8] 1 1 16 = Ok [255, 0, 0, 255]"

definition bitmap_bgr24_converts_and_flips_rows :: bool where
  "bitmap_bgr24_converts_and_flips_rows \<longleftrightarrow>
     to_rgba [0x00, 0xFF, 0x00, 0x00, 0x00, 0xFF] 1 2 24 = Ok [255, 0, 0, 255, 0, 255, 0, 255]"

definition bitmap_apply_compressed_rle_rect :: bool where
  "bitmap_apply_compressed_rle_rect \<longleftrightarrow>
     holds (\<lambda>rects. compressed (rects ! 0) \<and>
         holds (\<lambda>fb. list_all (\<lambda>x. test_pixel fb x 0 = (255, 0, 0, 255)) [0..<4])
           (apply_rect True (rects ! 0) (framebuffer_new 4 1)))
       (parse_bitmap_update
          (concat (map put_u16_le [1, 1, 0, 0, 3, 0, 4, 1, 16, 0x0001 OR 0x0400, 3]) @ [0x64, 0x00, 0xF8]))"

definition bitmap_apply_uncompressed_paints_framebuffer :: bool where
  "bitmap_apply_uncompressed_paints_framebuffer \<longleftrightarrow>
     holds (\<lambda>rects. holds (\<lambda>fb. test_pixel fb 0 0 = (255, 0, 0, 255)) (apply_rect True (rects ! 0) (framebuffer_new 4 4)))
       (parse_bitmap_update (test_rect_bytes 1 1 16 [0x00, 0xF8]))"

lemma fb_blit_places_pixels_at_offset_passes: fb_blit_places_pixels_at_offset
  by code_simp
lemma fb_blit_clips_at_edges_passes: fb_blit_clips_at_edges
  by code_simp
lemma bitmap_parses_uncompressed_rect_passes: bitmap_parses_uncompressed_rect
  by code_simp
lemma bitmap_rgb565_converts_to_rgba_passes: bitmap_rgb565_converts_to_rgba
  by code_simp
lemma bitmap_bgr24_converts_and_flips_rows_passes: bitmap_bgr24_converts_and_flips_rows
  by code_simp
lemma bitmap_apply_compressed_rle_rect_passes: bitmap_apply_compressed_rle_rect
  by code_simp
lemma bitmap_apply_uncompressed_paints_framebuffer_passes: bitmap_apply_uncompressed_paints_framebuffer
  by code_simp

section \<open>\<open>src/graphics/rle.rs\<close> and \<open>planar.rs\<close>\<close>

definition rle_color_run_fills_pixels :: bool where
  "rle_color_run_fills_pixels \<longleftrightarrow>
     decompress [0x64, 0x00, 0xF8] 4 1 16 = Ok [0x00, 0xF8, 0x00, 0xF8, 0x00, 0xF8, 0x00, 0xF8]"

definition rle_color_image_is_raw_copy :: bool where
  "rle_color_image_is_raw_copy \<longleftrightarrow> decompress [0x82, 0x00, 0xF8, 0x1F, 0x00] 2 1 16 = Ok [0x00, 0xF8, 0x1F, 0x00]"

definition rle_black_and_white_single_pixels :: bool where
  "rle_black_and_white_single_pixels \<longleftrightarrow> decompress [WHITE, BLACK] 2 1 8 = Ok [0xFF, 0x00]"

definition rle_background_run_on_first_line_is_black :: bool where
  "rle_background_run_on_first_line_is_black \<longleftrightarrow> decompress [0x03] 3 1 8 = Ok [0, 0, 0]"

definition rle_foreground_run_first_line_writes_fgpel :: bool where
  "rle_foreground_run_first_line_writes_fgpel \<longleftrightarrow> decompress [0x22] 2 1 8 = Ok [0xFF, 0xFF]"

definition rle_fgbg_second_line_xors_against_row_above :: bool where
  "rle_fgbg_second_line_xors_against_row_above \<longleftrightarrow>
     holds (\<lambda>out. take 8 (drop 8 out) = [1 XOR 0xFF, 2 XOR 0xFF, 3 XOR 0xFF, 4 XOR 0xFF, 5, 6, 7, 8])
       (decompress ([0x88] @ [1, 2, 3, 4, 5, 6, 7, 8] @ [0x41, 0x0F]) 8 2 8)"

definition planar_uncompressed_shortcut_decodes_bgra :: bool where
  "planar_uncompressed_shortcut_decodes_bgra \<longleftrightarrow> planar_decode [0x00, 0x00, 0x00, 0xFF, 0xFF] 1 1 = Ok [255, 0, 0, 255]"

definition planar_raw_planes_no_alpha :: bool where
  "planar_raw_planes_no_alpha \<longleftrightarrow>
     planar_decode ([NA_FLAG] @ [10, 20] @ [30, 40] @ [50, 60]) 2 1 = Ok [10, 30, 50, 255, 20, 40, 60, 255]"

definition planar_raw_planes_default_alpha :: bool where
  "planar_raw_planes_default_alpha \<longleftrightarrow> planar_decode [NA_FLAG, 1, 2, 3] 1 1 = Ok [1, 2, 3, 255]"

definition planar_aycocg_lossless_decodes :: bool where
  "planar_aycocg_lossless_decodes \<longleftrightarrow>
     holds (\<lambda>rgba. take 4 rgba = [100, 100, 100, 255] \<and> take 4 (drop 4 rgba) = [110, 110, 110, 255])
       (planar_decode ([NA_FLAG OR CS_FLAG] @ [100, 110, 120, 130] @ [0] @ [0]) 2 2)"

definition planar_rle_plane_run_and_delta :: bool where
  "planar_rle_plane_run_and_delta \<longleftrightarrow>
     planar_decode ([RLE_FLAG OR NA_FLAG] @ concat (replicate 3 [0x20, 5, 5, 0x20, 0, 0])) 2 2 =
       Ok (concat (replicate 4 [5, 5, 5, 255]))"

lemma rle_color_run_fills_pixels_passes: rle_color_run_fills_pixels
  by code_simp
lemma rle_color_image_is_raw_copy_passes: rle_color_image_is_raw_copy
  by code_simp
lemma rle_black_and_white_single_pixels_passes: rle_black_and_white_single_pixels
  by code_simp
lemma rle_background_run_on_first_line_is_black_passes: rle_background_run_on_first_line_is_black
  by code_simp
lemma rle_foreground_run_first_line_writes_fgpel_passes: rle_foreground_run_first_line_writes_fgpel
  by code_simp
lemma rle_fgbg_second_line_xors_against_row_above_passes: rle_fgbg_second_line_xors_against_row_above
  by code_simp
lemma planar_uncompressed_shortcut_decodes_bgra_passes: planar_uncompressed_shortcut_decodes_bgra
  by code_simp
lemma planar_raw_planes_no_alpha_passes: planar_raw_planes_no_alpha
  by code_simp
lemma planar_raw_planes_default_alpha_passes: planar_raw_planes_default_alpha
  by code_simp
lemma planar_aycocg_lossless_decodes_passes: planar_aycocg_lossless_decodes
  by code_simp
lemma planar_rle_plane_run_and_delta_passes: planar_rle_plane_run_and_delta
  by code_simp

section \<open>\<open>src/graphics/fastpath.rs\<close>, \<open>pointer.rs\<close>, \<open>update.rs\<close>\<close>

definition test_update :: "u8 \<Rightarrow> bytes \<Rightarrow> bytes" where
  "test_update code data = [code] @ put_u16_le (of_nat (length data)) @ data"

definition test_fp_wrap :: "u8 \<Rightarrow> bytes \<Rightarrow> bytes" where
  "test_fp_wrap code data = (let update = test_update code data in [0] @ [of_nat (2 + length update)] @ update)"

definition fastpath_parses_a_single_bitmap_update :: bool where
  "fastpath_parses_a_single_bitmap_update \<longleftrightarrow>
     holds (\<lambda>us. length us = 1 \<and> update_code (us ! 0) = UPDATETYPE_BITMAP \<and> u_data (us ! 0) = bstr ''bitmap-update-bytes'')
       (parse_output_pdu (test_fp_wrap UPDATETYPE_BITMAP (bstr ''bitmap-update-bytes'')))"

definition fastpath_parses_multiple_updates :: bool where
  "fastpath_parses_multiple_updates \<longleftrightarrow>
     (let update = test_update UPDATETYPE_SYNCHRONIZE [0, 0] @ test_update UPDATETYPE_POINTER (bstr ''cursor'')
      in holds (\<lambda>us. map update_code us = [UPDATETYPE_SYNCHRONIZE, UPDATETYPE_POINTER])
           (parse_output_pdu ([0] @ [of_nat (2 + length update)] @ update)))"

definition fastpath_two_byte_length_form :: bool where
  "fastpath_two_byte_length_form \<longleftrightarrow>
     (let update = test_update UPDATETYPE_BITMAP (replicate 300 0xAB); total = 1 + 2 + length update
      in holds (\<lambda>us. length (u_data (us ! 0)) = 300)
           (parse_output_pdu ([0] @ [0x80 OR of_nat (drop_bit 8 total)] @ [of_nat (total AND 0xff)] @ update)))"

definition fastpath_rejects_non_fastpath_action :: bool where
  "fastpath_rejects_non_fastpath_action \<longleftrightarrow> is_protocol (parse_output_pdu [0x03, 0x02])"

definition pointer_decodes_a_2x2_color_pointer :: bool where
  "pointer_decodes_a_2x2_color_pointer \<longleftrightarrow>
     (let xor' = [0x00, 0x00, 0xFF, 0x00, 0x00, 0xFF] @ [0x00, 0xFF, 0x00, 0x00, 0xFF, 0x00]; and' = [0, 0, 0, 0]
      in holds (\<lambda>cur. c_width cur = 2 \<and> c_height cur = 2 \<and> hotspot_x cur = 1 \<and>
             take 4 (c_rgba cur) = [0, 255, 0, 255] \<and> take 4 (drop (2 * 4) (c_rgba cur)) = [255, 0, 0, 255])
           (decode_color_pointer (concat (map put_u16_le [0, 1, 1, 2, 2, 4, 12]) @ xor' @ and')))"

definition pointer_and_mask_makes_pixels_transparent :: bool where
  "pointer_and_mask_makes_pixels_transparent \<longleftrightarrow>
     holds (\<lambda>cur. list_all (\<lambda>i. c_rgba cur ! (4 * i + 3) = 0) [0..<8] \<and> length (c_rgba cur) = 32)
       (decode_color_pointer (concat (map put_u16_le [0, 0, 0, 8, 1, 2, 24]) @ replicate (pad (8 * 3) 2) 0 @ [0xFF, 0x00]))"

definition update_bitmap_paints_framebuffer :: bool where
  "update_bitmap_paints_framebuffer \<longleftrightarrow>
     (case display_apply True
             \<lparr>update_code = UPDATETYPE_BITMAP, fragmentation = 0,
              u_data = concat (map put_u16_le [1, 1, 2, 2, 2, 2, 1, 1, 16, 0, 2, 0xF800])\<rparr> (display_new 8 8) of
        (Ok _, d) \<Rightarrow> dirty d \<and> test_pixel (d_framebuffer d) 2 2 = (255, 0, 0, 255)
      | _ \<Rightarrow> False)"

definition update_ptr_position_updates_cursor_pos :: bool where
  "update_ptr_position_updates_cursor_pos \<longleftrightarrow>
     (case display_apply True
             \<lparr>update_code = UPDATETYPE_PTR_POSITION, fragmentation = 0, u_data = put_u16_le 10 @ put_u16_le 20\<rparr>
             (display_new 8 8) of
        (Ok _, d) \<Rightarrow> cursor_pos d = (10, 20)
      | _ \<Rightarrow> False)"

definition update_ptr_null_clears_cursor :: bool where
  "update_ptr_null_clears_cursor \<longleftrightarrow>
     (case display_apply True \<lparr>update_code = UPDATETYPE_PTR_NULL, fragmentation = 0, u_data = []\<rparr>
             ((display_new 8 8)\<lparr>d_cursor := Some \<lparr>c_width = 1, c_height = 1, hotspot_x = 0, hotspot_y = 0, c_rgba = [0, 0, 0, 0]\<rparr>\<rparr>) of
        (Ok _, d) \<Rightarrow> d_cursor d = None
      | _ \<Rightarrow> False)"

lemma fastpath_parses_a_single_bitmap_update_passes: fastpath_parses_a_single_bitmap_update
  by code_simp
lemma fastpath_parses_multiple_updates_passes: fastpath_parses_multiple_updates
  by code_simp
lemma fastpath_two_byte_length_form_passes: fastpath_two_byte_length_form
proof -
  let ?u = "\<lparr>update_code = UPDATETYPE_BITMAP, fragmentation = 0, u_data = replicate 300 0xAB\<rparr>"
  let ?update = "test_update UPDATETYPE_BITMAP (replicate 300 0xAB)"
  have "update_encode ?u = ?update"
    by (simp add: update_encode_def update_header_def test_update_def UPDATETYPE_BITMAP_def)
  then have "[0] @ [0x80 OR of_nat (drop_bit 8 (306 :: nat))] @ [of_nat ((306 :: nat) AND 0xff)] @ ?update = output_pdu_encode [?u] @ []"
    by (simp add: output_pdu_encode_def fp_length_encode_def test_update_def) 
  moreover have "parse_output_pdu (output_pdu_encode [?u] @ []) = Ok [?u]"
    by (rule parse_output_pdu_encode) (simp_all add: update_ok_def UPDATETYPE_BITMAP_def update_encode_def)
  ultimately show ?thesis
    unfolding fastpath_two_byte_length_form_def Let_def holds_def by (simp add: test_update_def)
qed
lemma fastpath_rejects_non_fastpath_action_passes: fastpath_rejects_non_fastpath_action
  by code_simp
lemma pointer_decodes_a_2x2_color_pointer_passes: pointer_decodes_a_2x2_color_pointer
  by code_simp
lemma pointer_and_mask_makes_pixels_transparent_passes: pointer_and_mask_makes_pixels_transparent
  by code_simp
lemma update_bitmap_paints_framebuffer_passes: update_bitmap_paints_framebuffer
  by code_simp
lemma update_ptr_position_updates_cursor_pos_passes: update_ptr_position_updates_cursor_pos
  by code_simp
lemma update_ptr_null_clears_cursor_passes: update_ptr_null_clears_cursor
  by code_simp

section \<open>\<open>src/egfx.rs\<close>\<close>

definition egfx_parse_create_and_map_surface :: bool where
  "egfx_parse_create_and_map_surface \<longleftrightarrow>
     (let p = frame_header CMDID_CREATESURFACE (put_u16_le 7 @ put_u16_le 640 @ put_u16_le 480 @ put_u8 0x20)
      in parse_command p = Ok (CreateSurface 7 640 480 0x20, length p))"

definition egfx_caps_advertise_and_frame_ack_are_well_formed :: bool where
  "egfx_caps_advertise_and_frame_ack_are_well_formed \<longleftrightarrow>
     holds (\<lambda>(cmd, _). cmd = OtherCommand CMDID_CAPSADVERTISE) (parse_command (caps_advertise [0x00080004])) \<and>
     u16_at (frame_acknowledge 42 42) 0 = CMDID_FRAMEACKNOWLEDGE \<and> u32_at (frame_acknowledge 42 42) 12 = 42"

definition test_create :: bytes where
  "test_create = frame_header CMDID_CREATESURFACE (concat (map put_u16_le [1, 2, 1]) @ put_u8 0x20)"

definition test_draw :: bytes where
  "test_draw =
     (let pixels = [0x00, 0x00, 0xFF, 0xFF, 0x00, 0xFF, 0x00, 0xFF]
      in frame_header CMDID_WIRETOSURFACE_1
           (put_u16_le 1 @ put_u16_le CODECID_UNCOMPRESSED @ put_u8 0x20 @
            concat (map put_u16_le [0, 0, 2, 1]) @ put_u32_le (of_nat (length pixels)) @ pixels))"

definition egfx_uncompressed_wire_to_surface_paints :: bool where
  "egfx_uncompressed_wire_to_surface_paints \<longleftrightarrow>
     (case (parse_command test_create, parse_command test_draw) of
        (Ok (create, _), Ok (draw, _)) \<Rightarrow>
          (case io_bind (store_apply True create) (\<lambda>_. store_apply True draw) surface_store_new of
             (Ok changed, st) \<Rightarrow> changed = Some 1 \<and>
               (case surface st 1 of
                  Some fb \<Rightarrow> test_pixel fb 0 0 = (255, 0, 0, 255) \<and> test_pixel fb 1 0 = (0, 255, 0, 255)
                | None \<Rightarrow> False)
           | _ \<Rightarrow> False)
      | _ \<Rightarrow> False)"

definition egfx_h264_codec_reports_boundary :: bool where
  "egfx_h264_codec_reports_boundary \<longleftrightarrow>
     is_protocol (decode_surface_bits CODECID_AVC444 \<lparr>left = 0, top = 0, right = 4, bottom = 4\<rparr> (replicate 64 0))"

lemma egfx_parse_create_and_map_surface_passes: egfx_parse_create_and_map_surface
  by code_simp
lemma egfx_caps_advertise_and_frame_ack_are_well_formed_passes: egfx_caps_advertise_and_frame_ack_are_well_formed
  by code_simp
lemma parse_encoded:
  "command_ok cmd \<Longrightarrow> command_body cmd = (c, body) \<Longrightarrow> parse_command (frame_header c body) = Ok (cmd, 8 + length body)"
  using parse_frame [of body c "[]"] parse_body_encode [of cmd] command_body_length [of cmd] by simp

lemma test_create_parsed: "parse_command test_create = Ok (CreateSurface 1 2 1 0x20, 15)"
  using parse_encoded [of "CreateSurface 1 2 1 0x20"]
  by (simp add: test_create_def command_body_def)

lemma test_draw_parsed:
  "parse_command test_draw =
     Ok (WireToSurface1 1 CODECID_UNCOMPRESSED 0x20 \<lparr>left = 0, top = 0, right = 2, bottom = 1\<rparr>
           [0x00, 0x00, 0xFF, 0xFF, 0x00, 0xFF, 0x00, 0xFF], 33)"
  using parse_encoded [of "WireToSurface1 1 CODECID_UNCOMPRESSED 0x20 \<lparr>left = 0, top = 0, right = 2, bottom = 1\<rparr>
           [0x00, 0x00, 0xFF, 0xFF, 0x00, 0xFF, 0x00, 0xFF]"]
  by (simp add: test_draw_def Let_def command_body_def)

lemma test_pixels_decoded:
  "decode_surface_bits CODECID_UNCOMPRESSED \<lparr>left = 0, top = 0, right = 2, bottom = 1\<rparr>
     [0x00, 0x00, 0xFF, 0xFF, 0x00, 0xFF, 0x00, 0xFF] = Ok [255, 0, 0, 255, 0, 255, 0, 255]"
  by code_simp

lemma test_pixels_blitted:
  "blit_rgba True 0 0 2 1 [255, 0, 0, 255, 0, 255, 0, 255] (framebuffer_new 2 1) =
     Ok \<lparr>fb_width = 2, fb_height = 1, fb_pixels = [255, 0, 0, 255, 0, 255, 0, 255]\<rparr>"
  by code_simp

lemma egfx_uncompressed_wire_to_surface_paints_passes: egfx_uncompressed_wire_to_surface_paints
  unfolding egfx_uncompressed_wire_to_surface_paints_def test_create_parsed test_draw_parsed
  by (simp add: io_bind_def test_pixels_decoded test_pixels_blitted [simplified] rect_width_def rect_height_def surface_def
      surface_store_new_def test_pixel_def)
lemma egfx_h264_codec_reports_boundary_passes: egfx_h264_codec_reports_boundary
  by code_simp

end
