(* ===== verification/Tests_Nla.thy ===== *)
theory Tests_Nla
  imports Tests_Wire
begin

text \<open>
  The unit tests of the authentication layer (\<open>src/nla/\<close>) and the connection test of
  \<open>src/connection.rs\<close>, as predicates over the model. Digests and ciphers are third-party: a test
  that needs them is a predicate of the primitives, checked with those of \<open>Samples\<close>; the tests
  that compare digests with published vectors have no counterpart here.
\<close>

section \<open>\<open>src/nla/der.rs\<close> and \<open>crypto.rs\<close>\<close>

definition der_integer_encodings :: bool where
  "der_integer_encodings \<longleftrightarrow>
     der_integer 6 = [0x02, 0x01, 0x06] \<and> der_integer 0 = [0x02, 0x01, 0x00] \<and>
     der_integer 128 = [0x02, 0x02, 0x00, 0x80] \<and> der_integer 0x1234 = [0x02, 0x02, 0x12, 0x34]"

definition der_length_encodings :: bool where
  "der_length_encodings \<longleftrightarrow>
     encode_len 10 = [10] \<and> encode_len 127 = [127] \<and> encode_len 128 = [0x81, 128] \<and>
     encode_len 300 = [0x82, 0x01, 0x2c]"

definition der_octet_string_and_context_wrap :: bool where
  "der_octet_string_and_context_wrap \<longleftrightarrow>
     der_octet_string [1, 2, 3] = [0x04, 0x03, 1, 2, 3] \<and>
     der_context 0 (der_integer 2) = [0xA0, 0x03, 0x02, 0x01, 0x02]"

definition der_nested_sequence_roundtrips :: bool where
  "der_nested_sequence_roundtrips \<longleftrightarrow>
     (let seq = der_sequence (der_context 0 (der_integer 5) @ der_context 1 (der_octet_string (bstr ''hi'')))
      in and_then (der_expect TAG_SEQUENCE seq) (\<lambda>(inner, _).
         and_then (der_expect (context_tag 0) inner) (\<lambda>(v0, ri).
         and_then (der_expect (context_tag 1) ri) (\<lambda>(v1, _).
         and_then (der_read_integer v0) (\<lambda>(n, _).
         and_then (der_expect TAG_OCTET_STRING v1) (\<lambda>(s, _). Ok (n, s)))))) = Ok (5, bstr ''hi''))"

definition der_long_form_length_roundtrips :: bool where
  "der_long_form_length_roundtrips \<longleftrightarrow>
     der_expect TAG_OCTET_STRING (der_octet_string (replicate 500 0xAB)) = Ok (replicate 500 0xAB, [])"

definition crypto_unicode_is_utf16le :: bool where
  "crypto_unicode_is_utf16le \<longleftrightarrow> unicode (rstr ''A'') = [0x41, 0x00] \<and> unicode (rstr ''User'') = [0x55, 0, 0x73, 0, 0x65, 0, 0x72, 0]"

lemma der_integer_encodings_passes: der_integer_encodings
  by code_simp
lemma der_length_encodings_passes: der_length_encodings
  by code_simp
lemma der_octet_string_and_context_wrap_passes: der_octet_string_and_context_wrap
  by code_simp
lemma der_nested_sequence_roundtrips_passes: der_nested_sequence_roundtrips
  by code_simp
lemma der_long_form_length_roundtrips_passes: der_long_form_length_roundtrips
  by (simp add: der_long_form_length_roundtrips_def der_octet_string_def)
lemma crypto_unicode_is_utf16le_passes: crypto_unicode_is_utf16le
  by code_simp

section \<open>\<open>src/nla/credssp.rs\<close> and \<open>ntlm.rs\<close>\<close>

definition credssp_request_with_nego_token_roundtrips :: bool where
  "credssp_request_with_nego_token_roundtrips \<longleftrightarrow>
     (let req = (ts_request_new 6)
            \<lparr>ts_nego_tokens := [0x4e # bstr ''TLMSSP-negotiate''], ts_pub_key_auth := Some (replicate 40 0xAA),
             ts_client_nonce := Some (replicate 32 0x5A)\<rparr>
      in case ts_request_decode (ts_request_encode req) of
           Ok back \<Rightarrow> ts_version back = 6 \<and> ts_nego_tokens back = ts_nego_tokens req \<and>
             ts_pub_key_auth back = ts_pub_key_auth req \<and> ts_client_nonce back = ts_client_nonce req
         | _ \<Rightarrow> False)"

definition credssp_request_version_only_roundtrips :: bool where
  "credssp_request_version_only_roundtrips \<longleftrightarrow>
     (case ts_request_decode (ts_request_encode (ts_request_new 2)) of
        Ok back \<Rightarrow> ts_version back = 2 \<and> ts_nego_tokens back = []
      | _ \<Rightarrow> False)"

definition credssp_request_error_code_roundtrips :: bool where
  "credssp_request_error_code_roundtrips \<longleftrightarrow>
     (case ts_request_decode (ts_request_encode ((ts_request_new 6)\<lparr>ts_error_code := Some 0xC0000225\<rparr>)) of
        Ok back \<Rightarrow> ts_error_code back = Some 0xC0000225
      | _ \<Rightarrow> False)"

definition credssp_credentials_password_is_well_formed_der :: bool where
  "credssp_credentials_password_is_well_formed_der \<longleftrightarrow>
     (let der = ts_credentials_password
            \<lparr>pc_domain = rstr ''DOMAIN'', pc_username = rstr ''nicat'', pc_password = rstr ''secret''\<rparr>
      in and_then (der_expect TAG_SEQUENCE der) (\<lambda>(body, _).
         and_then (der_expect (context_tag 0) body) (\<lambda>(ty, br).
         and_then (der_read_integer ty) (\<lambda>(cred_type, _).
         and_then (der_expect (context_tag 1) br) (\<lambda>(os, _).
         and_then (der_expect TAG_OCTET_STRING os) (\<lambda>(inner, _).
         and_then (der_expect TAG_SEQUENCE inner) (\<lambda>(pw_seq, _).
         and_then (der_expect (context_tag 0) pw_seq) (\<lambda>(d, _).
         and_then (der_expect TAG_OCTET_STRING d) (\<lambda>(dom', _). Ok (cred_type, dom'))))))))) =
       Ok (1, unicode (rstr ''DOMAIN'')))"

definition ntlm_negotiate_message_roundtrips :: bool where
  "ntlm_negotiate_message_roundtrips \<longleftrightarrow>
     (let msg = \<lparr>n_flags = fold (\<lambda>f fl. flag_with fl f) [F_UNICODE, F_NTLM, F_EXTENDED_SESSIONSECURITY, F_VERSION] 0,
                 n_version = Some [6, 1, 0, 0, 0, 0, 0, 15]\<rparr>;
          b = negotiate_encode msg
      in take 8 b = SIGNATURE \<and> negotiate_decode b = Ok msg)"

definition ntlm_challenge_message_roundtrips_with_target_info :: bool where
  "ntlm_challenge_message_roundtrips_with_target_info \<longleftrightarrow>
     (let target_info = put_u16_le 2 @ put_u16_le 8 @ unicode (rstr ''DOM'') @ [0, 0] @ put_u16_le AV_EOL @ put_u16_le 0;
          msg = \<lparr>c_flags = flag_with (flag_with 0 F_UNICODE) F_TARGET_INFO,
                 c_server_challenge = [0x01, 0x23, 0x45, 0x67, 0x89, 0xab, 0xcd, 0xef],
                 c_target_name = unicode (rstr ''SERVER''), c_target_info = target_info\<rparr>
      in case challenge_decode (challenge_encode msg) of
           Ok back \<Rightarrow> c_server_challenge back = c_server_challenge msg \<and> c_target_info back = target_info \<and>
             c_target_name back = c_target_name msg \<and> fst (parse_av_pairs (c_target_info back) ! 0) = 2
         | _ \<Rightarrow> False)"

definition test_authenticate :: authenticate_message where
  "test_authenticate =
     \<lparr>a_flags = fold (\<lambda>f fl. flag_with fl f) [F_UNICODE, F_NTLM, F_EXTENDED_SESSIONSECURITY, F_KEY_EXCH, F_VERSION] 0,
      a_domain = unicode (rstr ''DOMAIN''), a_user = unicode (rstr ''nicat''), a_workstation = unicode (rstr ''WS''),
      a_lm_response = replicate 24 0, a_nt_response = replicate 48 0xAB,
      a_encrypted_session_key = replicate 16 0xCD, a_version = [6, 1, 0xB1, 0x1D, 0, 0, 0, 0x0F],
      a_mic = replicate 16 0\<rparr>"

definition ntlm_authenticate_message_roundtrips_with_mic :: "primitives \<Rightarrow> bool" where
  "ntlm_authenticate_message_roundtrips_with_mic P \<longleftrightarrow>
     (let msg = compute_mic P (replicate 16 0x55) (bstr ''NEGOTIATE-bytes'') (bstr ''CHALLENGE-bytes'') test_authenticate;
          b = authenticate_encode msg
      in a_mic msg \<noteq> replicate 16 0 \<and> take 16 (drop MIC_OFFSET b) = a_mic msg \<and> authenticate_decode b = Ok msg)"

lemma credssp_request_with_nego_token_roundtrips_passes: credssp_request_with_nego_token_roundtrips
  by code_simp
lemma credssp_request_version_only_roundtrips_passes: credssp_request_version_only_roundtrips
  by code_simp
lemma credssp_request_error_code_roundtrips_passes: credssp_request_error_code_roundtrips
  by code_simp
lemma credssp_credentials_password_is_well_formed_der_passes: credssp_credentials_password_is_well_formed_der
  by code_simp
lemma ntlm_negotiate_message_roundtrips_passes: ntlm_negotiate_message_roundtrips
proof -
  have "flag_has (fold (\<lambda>f fl. flag_with fl f) [F_UNICODE, F_NTLM, F_EXTENDED_SESSIONSECURITY, F_VERSION] 0) F_VERSION"
    by code_simp
  then show ?thesis
    unfolding ntlm_negotiate_message_roundtrips_def Let_def
    by (intro conjI negotiate_roundtrip) (simp_all add: negotiate_encode_def SIGNATURE_def)
qed
lemma ntlm_challenge_message_roundtrips_with_target_info_passes: ntlm_challenge_message_roundtrips_with_target_info
proof -
  have "challenge_decode (challenge_encode m) = Ok m"
    if "c_target_name m = unicode (rstr ''SERVER'')" "c_server_challenge m = [0x01, 0x23, 0x45, 0x67, 0x89, 0xab, 0xcd, 0xef]"
      "c_target_info m = put_u16_le 2 @ put_u16_le 8 @ unicode (rstr ''DOM'') @ [0, 0] @ put_u16_le AV_EOL @ put_u16_le 0"
    for m
  proof (rule challenge_roundtrip)
    have "length (unicode (rstr ''SERVER'')) = 12" "length (unicode (rstr ''DOM'')) = 6" by code_simp+
    then show "challenge_ok m" using that by (simp add: challenge_ok_def)
  qed
  moreover have "fst (parse_av_pairs (put_u16_le 2 @ put_u16_le 8 @ unicode (rstr ''DOM'') @ [0, 0] @
      put_u16_le AV_EOL @ put_u16_le 0) ! 0) = 2"
    by code_simp
  ultimately show ?thesis unfolding ntlm_challenge_message_roundtrips_with_target_info_def Let_def by simp
qed
lemma ntlm_authenticate_message_roundtrips_with_mic_passes:
  "ntlm_authenticate_message_roundtrips_with_mic sample_primitives"
proof -
  let ?m = "compute_mic sample_primitives (replicate 16 0x55) (bstr ''NEGOTIATE-bytes'') (bstr ''CHALLENGE-bytes'') test_authenticate"
  have "list_all (\<lambda>p. length p < 65536) (auth_parts test_authenticate)" by code_simp
  then have "auth_ok ?m"
    by (simp add: auth_ok_def auth_parts_def compute_mic_def Let_def) (simp add: test_authenticate_def)
  moreover have "a_mic ?m \<noteq> replicate 16 0" by code_simp
  ultimately show ?thesis
    unfolding ntlm_authenticate_message_roundtrips_with_mic_def Let_def
    by (simp add: mic_at_offset authenticate_roundtrip)
qed

section \<open>\<open>src/nla/sspi.rs\<close> and \<open>client.rs\<close>\<close>

definition test_exchange ::
    "primitives \<Rightarrow> bytes list \<Rightarrow> security_context \<Rightarrow> security_context \<Rightarrow> (bool \<times> security_context \<times> security_context)" where
  "test_exchange P msgs from to =
     fold (\<lambda>msg (ok, from, to).
         let (sealed, from) = seal P msg from; (r, to) = unseal P sealed to
         in (ok \<and> drop 16 sealed \<noteq> msg \<and> r = Ok msg, from, to))
       msgs (True, from, to)"

definition sspi_seal_unseal_roundtrips_across_two_contexts :: "primitives \<Rightarrow> bool" where
  "sspi_seal_unseal_roundtrips_across_two_contexts P \<longleftrightarrow>
     (let esk = replicate 16 0x55;
          (ok, client, server) = test_exchange P
            [bstr ''pubKeyAuth'', bstr ''credentials'', bstr ''third message here'']
            (security_context_new P Client esk) (security_context_new P Server esk);
          (sealed, server) = seal P (bstr ''server pubKeyAuth reply'') server
      in ok \<and> fst (unseal P sealed client) = Ok (bstr ''server pubKeyAuth reply''))"

definition sspi_tampered_ciphertext_is_rejected :: "primitives \<Rightarrow> bool" where
  "sspi_tampered_ciphertext_is_rejected P \<longleftrightarrow>
     (let esk = replicate 16 0x11;
          sealed = fst (seal P (bstr ''important'') (security_context_new P Client esk));
          tampered = butlast sealed @ [last sealed XOR 0xff]
      in is_protocol (fst (unseal P tampered (security_context_new P Server esk))))"

definition sspi_signature_layout_is_versioned_and_sequenced :: "primitives \<Rightarrow> bool" where
  "sspi_signature_layout_is_versioned_and_sequenced P \<longleftrightarrow>
     (let (s0, client) = seal P (bstr ''a'') (security_context_new P Client (replicate 16 0x42));
          (s1, client) = seal P (bstr ''b'') client
      in take 4 s0 = put_u32_le 1 \<and> take 4 (drop 12 s0) = put_u32_le 0 \<and> take 4 (drop 12 s1) = put_u32_le 1)"

definition test_entropy :: entropy where
  "test_entropy =
     \<lparr>e_client_challenge = replicate 8 0xaa, e_nonce = replicate 32 0x5a, e_exported_session_key = replicate 16 0x55\<rparr>"

definition client_start_emits_negotiate_token :: bool where
  "client_start_emits_negotiate_token \<longleftrightarrow>
     (let c = with_entropy (rstr ''Domain'') (rstr ''User'') (rstr ''Password'') [1, 2, 3] test_entropy
      in case ts_request_decode (fst (nla_start c)) of
           Ok req \<Rightarrow> ts_version req = CREDSSP_VERSION \<and>
             (case negotiate_decode (ts_nego_tokens req ! 0) of
                Ok neg \<Rightarrow> flag_has (n_flags neg) F_EXTENDED_SESSIONSECURITY
              | _ \<Rightarrow> False)
         | _ \<Rightarrow> False)"

text \<open>
  Where a test names a published digest, the predicate names the function that computes it: the
  NTProofStr of the challenge below is the vector of [MS-NLMP] 4.2.4 when the digests are the
  real ones.
\<close>

definition test_target_info :: bytes where
  "test_target_info =
     [0x02, 0x00, 0x0c, 0x00, 0x44, 0x00, 0x6f, 0x00, 0x6d, 0x00, 0x61, 0x00, 0x69, 0x00, 0x6e,
      0x00, 0x01, 0x00, 0x0c, 0x00, 0x53, 0x00, 0x65, 0x00, 0x72, 0x00, 0x76, 0x00, 0x65, 0x00,
      0x72, 0x00, 0x00, 0x00, 0x00, 0x00]"

definition test_server_challenge :: bytes where
  "test_server_challenge = [0x01, 0x23, 0x45, 0x67, 0x89, 0xab, 0xcd, 0xef]"

definition ntlmv2_temp_matches :: bool where
  "ntlmv2_temp_matches \<longleftrightarrow>
     (let t = ntlm_temp (replicate 8 0) (replicate 8 0xaa) test_target_info
      in t = [0x01, 0x01, 0, 0, 0, 0, 0, 0, 0, 0, 0, 0, 0, 0, 0, 0] @ replicate 8 0xaa @ [0, 0, 0, 0] @
             test_target_info @ [0, 0, 0, 0] \<and>
         length t = 68)"

definition ntlmv2_proof_and_response :: "primitives \<Rightarrow> bool" where
  "ntlmv2_proof_and_response P \<longleftrightarrow>
     (let key = ntowf_v2 P (rstr ''Password'') (rstr ''User'') (rstr ''Domain'');
          t = ntlm_temp (replicate 8 0) (replicate 8 0xaa) test_target_info;
          proof = nt_proof_str P key test_server_challenge t;
          resp = nt_challenge_response proof t
      in take 16 resp = proof \<and> length resp = 16 + length t)"

definition test_challenge :: "u32 list \<Rightarrow> challenge_message" where
  "test_challenge flags =
     \<lparr>c_flags = fold (\<lambda>f fl. flag_with fl f) flags 0, c_server_challenge = test_server_challenge,
      c_target_name = unicode (rstr ''Server''), c_target_info = test_target_info\<rparr>"

definition test_client :: "bytes \<Rightarrow> credssp_client" where
  "test_client key = snd (nla_start (with_entropy (rstr ''Domain'') (rstr ''User'') (rstr ''Password'') key test_entropy))"

definition client_challenge_produces_ntproofstr :: "primitives \<Rightarrow> bool" where
  "client_challenge_produces_ntproofstr P \<longleftrightarrow>
     (let challenge = test_challenge [F_UNICODE, F_TARGET_INFO, F_EXTENDED_SESSIONSECURITY];
          (out, c) = process_challenge P (server_challenge_request challenge) (test_client [9, 9, 9, 9])
      in (case and_then out ts_request_decode of
            Ok req \<Rightarrow>
              (case authenticate_decode (ts_nego_tokens req ! 0) of
                 Ok auth \<Rightarrow>
                   take 16 (a_nt_response auth) =
                     nt_proof_str P (ntowf_v2 P (rstr ''Password'') (rstr ''User'') (rstr ''Domain'')) test_server_challenge
                       (ntlm_temp (replicate 8 0) (replicate 8 0xaa) test_target_info)
               | _ \<Rightarrow> False) \<and>
              ts_pub_key_auth req \<noteq> None \<and> ts_client_nonce req = Some (replicate 32 0x5a)
          | _ \<Rightarrow> False) \<and> k_security c \<noteq> None)"

definition test_full_flow :: "primitives \<Rightarrow> bytes result" where
  "test_full_flow P =
     (let key = [0xDE, 0xAD, 0xBE, 0xEF, 0x01, 0x02]; nonce = e_nonce test_entropy;
          (out, c) = process_challenge P (server_challenge_request (test_challenge [F_UNICODE, F_TARGET_INFO])) (test_client key)
      in and_then out (\<lambda>out.
         and_then (ts_request_decode out) (\<lambda>req.
         and_then (ok_or ''pubKeyAuth'' (ts_pub_key_auth req)) (\<lambda>client_auth.
           let (client_hash, server) = unseal P client_auth (security_context_new P Server (e_exported_session_key test_entropy));
               (server_auth, server) = seal P (server_client_binding_hash P nonce key) server;
               reply = ts_request_encode ((ts_request_new CREDSSP_VERSION)\<lparr>ts_pub_key_auth := Some server_auth\<rparr>)
           in if client_hash \<noteq> Ok (client_server_binding_hash P nonce key) then Err (Protocol ''client hash'')
              else and_then (fst (process_pubkey P reply c)) (\<lambda>info. server_credentials P info server)))))"

definition client_full_flow_round_trips :: "primitives \<Rightarrow> bool" where
  "client_full_flow_round_trips P \<longleftrightarrow> (case test_full_flow P of Ok creds \<Rightarrow> creds ! 0 = 0x30 | _ \<Rightarrow> False)"

lemma ntlmv2_temp_matches_passes: ntlmv2_temp_matches
  by (simp add: ntlmv2_temp_matches_def ntlm_temp_def test_target_info_def numeral_eq_Suc)
lemma ntlmv2_proof_and_response_passes: "sized P \<Longrightarrow> ntlmv2_proof_and_response P"
  by (simp add: ntlmv2_proof_and_response_def nt_challenge_response_def Let_def)
lemma test_unicode_lengths:
  "length (unicode (rstr ''Domain'')) = 12" "length (unicode (rstr ''User'')) = 8"
  "length (unicode (rstr ''Password'')) = 16" "length (unicode (rstr ''Server'')) = 12"
  by code_simp+

lemma test_client_ok: "client_ok (test_client key)"
  by (simp add: test_client_def nla_start_def with_entropy_def client_ok_def entropy_ok_def test_entropy_def
      test_unicode_lengths Let_def)

lemma test_client_simps:
  "k_entropy (test_client key) = test_entropy" "k_server_public_key (test_client key) = key"
  "k_password (test_client key) = rstr ''Password''" "k_username (test_client key) = rstr ''User''"
  "k_domain (test_client key) = rstr ''Domain''"
  by (simp_all add: test_client_def nla_start_def with_entropy_def Let_def)

lemma test_challenge_ok: "server_ok (test_challenge flags)"
  by (simp add: server_ok_def challenge_ok_def test_challenge_def test_server_challenge_def test_target_info_def
      test_unicode_lengths)

lemma challenge_answer_ok:
  assumes "sized P" and "client_ok c" and "server_ok ch"
  shows "ts_request_ok (fst (challenge_answer P ch c))"
proof -
  obtain b x where s: "seal P (client_server_binding_hash P (e_nonce (k_entropy c)) (k_server_public_key c))
      (security_context_new P Client (e_exported_session_key (k_entropy c))) = (b, x)" by fastforce
  have "small b"
    using length_seal [OF assms(1) s] assms(1) by (simp add: small_def client_server_binding_hash_def binding_hash_def)
  moreover have "length (e_nonce (k_entropy c)) = 32" using assms(2) by (simp add: client_ok_def entropy_ok_def)
  ultimately show ?thesis
    using s length_authenticate [OF authenticate_for_ok [OF assms]] by (simp add: challenge_answer_def ts_new_ok)
qed

lemma client_challenge_produces_ntproofstr_passes:
  assumes "sized P" shows "client_challenge_produces_ntproofstr P"
proof -
  let ?ch = "test_challenge [F_UNICODE, F_TARGET_INFO, F_EXTENDED_SESSIONSECURITY]" and ?c = "test_client [9, 9, 9, 9]"
  let ?auth = "authenticate_for P (challenge_encode ?ch) ?ch ?c"
  have ts: "extract_timestamp test_target_info = (replicate 8 0, False)" by code_simp
  have ch: "c_target_info ?ch = test_target_info" "c_server_challenge ?ch = test_server_challenge"
    by (simp_all add: test_challenge_def)
  have "take 16 (a_nt_response ?auth) =
      nt_proof_str P (ntowf_v2 P (rstr ''Password'') (rstr ''User'') (rstr ''Domain'')) test_server_challenge
        (ntlm_temp (replicate 8 0) (replicate 8 0xaa) test_target_info)"
    using assms unfolding authenticate_for_def ch ts
    by (simp add: Let_def nt_challenge_response_def test_client_simps test_entropy_def)
  moreover have "authenticate_decode (authenticate_encode ?auth) = Ok ?auth"
    by (rule authenticate_roundtrip [OF authenticate_for_ok [OF assms test_client_ok test_challenge_ok]])
  ultimately show ?thesis
    unfolding client_challenge_produces_ntproofstr_def process_challenge_answer [OF test_challenge_ok] Let_def
    by (simp add: ts_request_roundtrip_nil challenge_answer_ok [OF assms test_client_ok test_challenge_ok])
      (simp add: challenge_answer_def test_client_simps test_entropy_def split: prod.splits)
qed

text \<open>The exchange of the full-flow test, for all digests of the right size.\<close>

lemma test_full_flow_Ok:
  assumes "sized P"
  shows "test_full_flow P =
    Ok (ts_credentials_password (client_creds (test_client [0xDE, 0xAD, 0xBE, 0xEF, 0x01, 0x02])))"
proof -
  let ?key = "[0xDE, 0xAD, 0xBE, 0xEF, 0x01, 0x02] :: bytes" and ?nonce = "e_nonce test_entropy"
  let ?c = "test_client ?key" and ?ch = "test_challenge [F_UNICODE, F_TARGET_INFO]"
  let ?esk = "e_exported_session_key test_entropy"
  have sc: "sealed_channel (seal P) (unseal P) in_step" by (rule contexts_sealed_channel [OF assms])
  obtain b x where s: "seal P (client_server_binding_hash P ?nonce ?key) (security_context_new P Client ?esk) = (b, x)"
    by fastforce
  obtain y where y: "unseal P b (security_context_new P Server ?esk) = (Ok (client_server_binding_hash P ?nonce ?key), y)"
      "in_step x y" "in_step y x"
    using sealed_channel.transfer [OF sc roles_in_step s] by blast
  obtain pka z where z: "seal P (server_client_binding_hash P ?nonce ?key) y = (pka, z)" by fastforce
  obtain w where w: "unseal P pka x = (Ok (server_client_binding_hash P ?nonce ?key), w)" "in_step w z"
    using sealed_channel.transfer [OF sc y(3,2) z] by blast
  have "small pka"
    using length_seal [OF assms z] assms by (simp add: small_def server_client_binding_hash_def binding_hash_def)
  moreover have "client_ok (?c\<lparr>k_security := Some x\<rparr>)" using test_client_ok [of ?key] by (simp add: client_ok_def)
  ultimately obtain out c' where
    "process_pubkey P (ts_request_encode ((ts_request_new CREDSSP_VERSION)\<lparr>ts_pub_key_auth := Some pka\<rparr>))
       (?c\<lparr>k_security := Some x\<rparr>) = (Ok out, c')"
    "server_credentials P out z = Ok (ts_credentials_password (client_creds ?c))"
    using process_pubkey_accepts [OF assms, of "?c\<lparr>k_security := Some x\<rparr>" pka x w z] w
    by (auto simp: test_client_simps client_creds_def)
  moreover have "challenge_answer P ?ch ?c = ((ts_request_new CREDSSP_VERSION)
      \<lparr>ts_nego_tokens := [authenticate_encode (authenticate_for P (challenge_encode ?ch) ?ch ?c)],
       ts_pub_key_auth := Some b, ts_client_nonce := Some ?nonce\<rparr>, x)"
    using s by (simp add: challenge_answer_def test_client_simps)
  moreover note ts_request_roundtrip_nil [OF challenge_answer_ok [OF assms test_client_ok test_challenge_ok],
      of "[F_UNICODE, F_TARGET_INFO]" ?key]
  ultimately show ?thesis
    using y(1) z unfolding test_full_flow_def process_challenge_answer [OF test_challenge_ok] Let_def
    by (simp add: ok_or_def)
qed

lemma client_full_flow_round_trips_passes: "sized P \<Longrightarrow> client_full_flow_round_trips P"
  by (simp add: client_full_flow_round_trips_def test_full_flow_Ok ts_credentials_password_def der_sequence_def
      tlv_def TAG_SEQUENCE_def)

lemma sspi_seal_unseal_roundtrips_passes: "sspi_seal_unseal_roundtrips_across_two_contexts sample_primitives"
  by code_simp
lemma sspi_tampered_ciphertext_is_rejected_passes: "sspi_tampered_ciphertext_is_rejected sample_primitives"
  by code_simp
lemma sspi_signature_layout_passes: "sspi_signature_layout_is_versioned_and_sequenced sample_primitives"
  by code_simp
lemma client_start_emits_negotiate_token_passes: client_start_emits_negotiate_token
proof -
  let ?c = "with_entropy (rstr ''Domain'') (rstr ''User'') (rstr ''Password'') [1, 2, 3] test_entropy"
  let ?neg = "\<lparr>n_flags = k_flags ?c, n_version = Some NTLM_VERSION\<rparr>"
  have flags: "flag_has (k_flags ?c) F_VERSION" "flag_has (k_flags ?c) F_EXTENDED_SESSIONSECURITY" by code_simp+
  have "negotiate_decode (negotiate_encode ?neg) = Ok ?neg"
    using flags(1) by (intro negotiate_roundtrip) (simp add: NTLM_VERSION_def)
  moreover have "ts_request_ok ((ts_request_new CREDSSP_VERSION)\<lparr>ts_nego_tokens := [negotiate_encode ?neg]\<rparr>)"
    by (simp add: ts_request_ok_def ts_request_new_def small_def negotiate_encode_def SIGNATURE_def NTLM_VERSION_def CREDSSP_VERSION_def)
  ultimately show ?thesis
    using ts_request_roundtrip [of "(ts_request_new CREDSSP_VERSION)\<lparr>ts_nego_tokens := [negotiate_encode ?neg]\<rparr>" "[]"] flags(2)
    by (simp add: client_start_emits_negotiate_token_def nla_start_def Let_def ts_request_new_def)
qed

section \<open>\<open>src/connection.rs\<close>\<close>

definition test_connect_response_pdu :: "u16 \<Rightarrow> u16 list \<Rightarrow> bytes" where
  "test_connect_response_pdu io channels =
     (let sc_net = put_u16_le io @ put_u16_le (of_nat (length channels)) @ concat (map put_u16_le channels);
          block = put_u16_le SC_NET @ put_u16_le (of_nat (length sc_net + 4)) @ sc_net;
          gcc = [0x00, 0x05, 0x00, 0x14, 0x7c, 0x00, 0x01] @ bstr ''McDn'' @ per_write_length (length block) @ block;
          dp = concat (map ber_integer [34, 3, 0, 1, 0, 1, 0xFFFF, 2])
      in ber_application 102 (ber_enumerated 0 @ ber_integer 0 @ ber_sequence dp @ ber_octet_string gcc))"

definition test_indication :: "bytes \<Rightarrow> bytes" where
  "test_indication sc = (case send_data_request True 0x03EA IO_CHANNEL sc of Ok b \<Rightarrow> b[0 := 0x68] | _ \<Rightarrow> [])"

definition test_demand_caps :: "bytes list" where
  "test_demand_caps = [general_caps, bitmap_caps 1024 768]"

definition test_demand :: bytes where
  "test_demand =
     put_u32_le 0x000103EA @ put_u16_le 4 @ put_u16_le (of_nat (length (concat test_demand_caps) + 4)) @
     bstr ''RDP'' @ [0] @ put_u16_le 2 @ put_u16_le 0 @ concat test_demand_caps"

definition test_join_confirm :: "u16 \<Rightarrow> bytes" where
  "test_join_confirm c = put_u8 0x3E @ put_u8 0x00 @ put_u16 6 @ put_u16 c @ put_u16 c"

definition test_final_pdus :: "bytes list" where
  "test_final_pdus =
     map (\<lambda>(ty, b). share_data 0x03EA 0x000103EA ty b)
       [(PDUTYPE2_SYNCHRONIZE, synchronize 1007), (PDUTYPE2_CONTROL, control CTRLACTION_COOPERATE 0 0),
        (PDUTYPE2_CONTROL, control 0x0002 0 0), (PDUTYPE2_FONTMAP, replicate 8 0)]"

definition test_responses :: "bytes list" where
  "test_responses =
     [test_connect_response_pdu IO_CHANNEL [1004], put_u8 0x2E @ put_u8 0x00 @ put_u16 (1007 - 1001)] @
     map test_join_confirm [1007, 1003, 1004] @
     [test_indication (share_control PDUTYPE_DEMANDACTIVE 0x03EA test_demand)] @
     map test_indication test_final_pdus"

definition test_config :: session_config where
  "test_config =
     \<lparr>sc_width = 1024, sc_height = 768, sc_domain = rstr ''DOM'', sc_username = rstr ''nicat'',
      sc_selected_protocol = 0x02, sc_channels = [\<lparr>ch_name = rstr ''rdpdr'', ch_options = 0x80000000\<rparr>]\<rparr>"

definition is_confirm_active :: "bytes \<Rightarrow> bool" where
  "is_confirm_active p \<longleftrightarrow>
     (case and_then (parse_send_data_indication (if p \<noteq> [] \<and> p ! 0 = 0x64 then p[0 := 0x68] else p))
             (\<lambda>(_, d). parse_share_control d) of
        Ok (h, _) \<Rightarrow> sch_pdu_type h = PDUTYPE_CONFIRMACTIVE
      | _ \<Rightarrow> False)"

definition connection_full_sequence_against_mock_server :: bool where
  "connection_full_sequence_against_mock_server \<longleftrightarrow>
     (case establish True mock_send mock_recv test_config \<lparr>mt_responses = test_responses, mt_sent = []\<rparr> of
        (Ok session, t) \<Rightarrow>
          se_user_id session = 1007 \<and> se_io_channel session = IO_CHANNEL \<and> se_channel_ids session = [1004] \<and>
          se_share_id session = 0x000103EA \<and> take 2 (mt_sent t ! 0) = [0x7f, 0x65] \<and>
          (\<exists>p \<in> set (mt_sent t). is_confirm_active p)
      | _ \<Rightarrow> False)"

text \<open>The scripted server is an honest one, so that the connection theorem applies to it.\<close>

definition test_run :: server_run where
  "test_run =
     \<lparr>sv_connect = test_connect_response_pdu IO_CHANNEL [1004],
      sv_net = \<lparr>sn_io_channel_id = IO_CHANNEL, sn_channel_ids = [1004], sn_message_channel_id = None\<rparr>,
      sv_attach = put_u8 0x2E @ put_u8 0x00 @ put_u16 (1007 - 1001), sv_user = 1007,
      sv_confirms = map test_join_confirm [1007, 1003, 1004], sv_confirmed = [1007, 1003, 1004],
      sv_strays = [], sv_offer = None,
      sv_demand = test_indication (share_control PDUTYPE_DEMANDACTIVE 0x03EA test_demand),
      sv_demand_parsed =
        \<lparr>da_share_id = 0x000103EA,
         da_capability_sets =
           [(CAPSTYPE_GENERAL, drop 4 general_caps), (CAPSTYPE_BITMAP, drop 4 (bitmap_caps 1024 768))]\<rparr>,
      sv_finals = map test_indication test_final_pdus, sv_final_pdus = test_final_pdus\<rparr>"

lemma test_run_settings: "parse_settings (sv_connect test_run) = Ok (sv_net test_run)"
  by code_simp

lemma test_run_demand:
  "and_then (io_payload (sv_demand test_run)) (classify None) = Ok (Inl (Ok (sv_demand_parsed test_run)))"
  by code_simp

lemma test_run_finals: "map io_payload (sv_finals test_run) = map Ok (sv_final_pdus test_run)"
  by code_simp

lemma test_run_data_pdus: "map is_data_pdu (sv_final_pdus test_run) = [True, True, True, True]"
  by code_simp

lemma test_run_joins:
  "parse_attach_user_confirm True (sv_attach test_run) = Ok (sv_user test_run)"
  "map parse_channel_join_confirm (sv_confirms test_run) = map Ok (sv_confirmed test_run)"
  "length (sv_confirmed test_run) = length (channels_to_join (sv_user test_run) (sv_net test_run))"
  by code_simp+

lemma test_run_honest: "honest_server True test_run"
proof -
  have "sv_offer test_run = None" "sv_strays test_run = []" "1001 \<le> unat (sv_user test_run)"
      "length (sv_finals test_run) = 4"
    by (simp_all add: test_run_def test_final_pdus_def)
  moreover have "filter is_data_pdu (sv_final_pdus test_run) = sv_final_pdus test_run"
    "length (sv_final_pdus test_run) = 4" "is_data_pdu (last (sv_final_pdus test_run))"
    using test_run_data_pdus by (auto simp: map_eq_Cons_conv)
  ultimately show ?thesis
    using test_run_settings test_run_demand test_run_finals test_run_joins by (simp add: honest_server_def MAX_SKIP_def)
qed

lemma test_run_session: "server_session test_run =
  \<lparr>se_user_id = 1007, se_io_channel = IO_CHANNEL, se_channel_ids = [1004], se_share_id = 0x000103EA,
   se_multitransport_request = None\<rparr>"
  by code_simp

lemma test_initial: "take 2 (connect_initial (conference_create_request (client_blocks test_config))) = [0x7f, 0x65]"
  by code_simp

lemma is_confirm_active_sent:
  assumes "length body + 6 < 0x4000"
  shows "is_confirm_active (send_data_bytes u (share_control PDUTYPE_CONFIRMACTIVE src body))"
proof -
  let ?pdu = "share_control PDUTYPE_CONFIRMACTIVE src body"
  have len: "length ?pdu < 0x4000" using assms by (simp add: share_control_def Let_def)
  have b: "send_data_bytes u ?pdu = 0x64 # tl (send_data_bytes u ?pdu)"
    by (simp add: send_data_bytes_def choice_def SEND_DATA_REQUEST_def put_u8_def)
  have "(send_data_bytes u ?pdu)[0 := 0x68] = put_u8 0x68 @ put_u16 (u - 1001) @ put_u16 IO_CHANNEL @ put_u8 0x70 @
      per_write_length (length ?pdu) @ ?pdu @ []"
    by (simp add: send_data_bytes_def put_u8_def)
  moreover have "parse_send_data_indication (put_u8 0x68 @ put_u16 (u - 1001) @ put_u16 IO_CHANNEL @ put_u8 0x70 @
      per_write_length (length ?pdu) @ ?pdu @ []) = Ok (IO_CHANNEL, ?pdu)"
    using len by (intro parse_send_data_frame) (simp_all add: SEND_DATA_INDICATION_def)
  moreover have "parse_share_control ?pdu = Ok (\<lparr>sch_pdu_type = PDUTYPE_CONFIRMACTIVE, sch_pdu_source = src\<rparr>, body)"
    using parse_share_control_roundtrip [of body PDUTYPE_CONFIRMACTIVE src "[]"] assms
    by (simp add: PDUTYPE_CONFIRMACTIVE_def)
  moreover have "send_data_bytes u ?pdu \<noteq> [] \<and> send_data_bytes u ?pdu ! 0 = 0x64" by (subst b, subst (2) b) simp
  ultimately show ?thesis by (simp add: is_confirm_active_def)
qed

lemma test_confirm_active:
  "is_confirm_active (send_data_bytes 1007 (confirm_active 1007 0x000103EA (client_caps test_config)))"
proof -
  have "length (concat (client_caps test_config)) < 1000" by code_simp
  then show ?thesis unfolding confirm_active_def Let_def
    by (intro is_confirm_active_sent) (simp add: source_descriptor_def)
qed

lemma connection_full_sequence_against_mock_server_passes: connection_full_sequence_against_mock_server
proof -
  have responses: "server_messages test_run = test_responses"
    by (simp add: server_messages_def test_run_def test_responses_def)
  let ?s = "\<lparr>mt_responses = test_responses, mt_sent = []\<rparr>"
  have "mock_ready ?s (server_messages test_run @ []) []" by (simp add: mock_ready_def responses)
  moreover have "runs mock_ready (establish True mock_send mock_recv test_config) (server_messages test_run)
      (Ok (server_session test_run)) (client_messages test_config test_run)"
    by (rule mock.establish_runs [OF test_run_honest]) (simp add: list_all_iff)
  ultimately obtain t where t: "establish True mock_send mock_recv test_config ?s = (Ok (server_session test_run), t)"
      "mt_sent t = client_messages test_config test_run"
    unfolding runs_def by (fastforce simp: mock_ready_def)
  have "send_data_bytes 1007 (confirm_active 1007 0x000103EA (client_caps test_config)) \<in> set (mt_sent t)"
    by (simp add: t(2) client_messages_def test_run_def)
  moreover have "take 2 (mt_sent t ! 0) = [0x7f, 0x65]"
    using test_initial by (simp add: t(2) client_messages_def Let_def)
  ultimately show ?thesis
    using test_confirm_active
    by (simp add: connection_full_sequence_against_mock_server_def t(1) test_run_session) blast
qed

end
