(* ===== verification/Tests_Vectors.thy ===== *)
theory Tests_Vectors
  imports Tests_Nla
begin

text \<open>
  The unit tests that compare with published vectors (\<open>src/nla/crypto.rs\<close>, \<open>src/nla/ntlmv2.rs\<close>,
  \<open>src/nla/client.rs\<close>). The digests are third-party code, so a test is a predicate of the
  primitives. Given the digest values of [MS-NLMP] 4.2.4, that is, what MD4, HMAC-MD5 and RC4
  return on the inputs of the example, the code's own composition of them yields the published
  NTLMv2 values, up to the response the client sends.
\<close>

section \<open>The tests of the primitives\<close>

definition md4_of_empty_matches :: "primitives \<Rightarrow> bool" where
  "md4_of_empty_matches P \<longleftrightarrow>
     p_md4 P [] = [0x31, 0xd6, 0xcf, 0xe0, 0xd1, 0x6a, 0xe9, 0x31, 0xb7, 0x3c, 0x59, 0xd7, 0xe0, 0xc0, 0x89, 0xc0]"

definition hmac_md5_matches_rfc2104 :: "primitives \<Rightarrow> bool" where
  "hmac_md5_matches_rfc2104 P \<longleftrightarrow>
     p_hmac_md5 P (replicate 16 0x0b) (bstr ''Hi There'') =
       [0x92, 0x94, 0x72, 0x7a, 0x36, 0x38, 0xbb, 0x1c, 0x13, 0xf4, 0x8e, 0xf8, 0x15, 0x8b, 0xfc, 0x9d]"

definition rc4_matches_known_vector :: "primitives \<Rightarrow> bool" where
  "rc4_matches_known_vector P \<longleftrightarrow>
     rc4 P (bstr ''Key'') (bstr ''Plaintext'') = [0xBB, 0xF3, 0x16, 0xE8, 0xD9, 0x40, 0xAF, 0x0A, 0xD3]"

section \<open>The vectors of [MS-NLMP] 4.2.4\<close>

definition nlmp_nt_hash :: bytes where
  "nlmp_nt_hash = [0xa4, 0xf4, 0x9c, 0x40, 0x65, 0x10, 0xbd, 0xca, 0xb6, 0x82, 0x4e, 0xe7, 0xc3, 0x0f, 0xd8, 0x52]"

definition nlmp_ntowf :: bytes where
  "nlmp_ntowf = [0x0c, 0x86, 0x8a, 0x40, 0x3b, 0xfd, 0x7a, 0x93, 0xa3, 0x00, 0x1e, 0xf2, 0x2e, 0xf0, 0x2e, 0x3f]"

definition nlmp_proof :: bytes where
  "nlmp_proof = [0x68, 0xcd, 0x0a, 0xb8, 0x51, 0xe5, 0x1c, 0x96, 0xaa, 0xbc, 0x92, 0x7b, 0xeb, 0xef, 0x6a, 0x1c]"

definition nlmp_lm :: bytes where
  "nlmp_lm = [0x86, 0xc3, 0x50, 0x97, 0xac, 0x9c, 0xec, 0x10, 0x25, 0x54, 0x76, 0x4a, 0x57, 0xcc, 0xcc, 0x19]"

definition nlmp_session_key :: bytes where
  "nlmp_session_key = [0x8d, 0xe4, 0x0c, 0xca, 0xdb, 0xc1, 0x4a, 0x82, 0xf1, 0x5c, 0xb0, 0xad, 0x0d, 0xe9, 0x5c, 0xa3]"

definition nlmp_encrypted_key :: bytes where
  "nlmp_encrypted_key = [0xc5, 0xda, 0xd2, 0x54, 0x4f, 0xc9, 0x79, 0x90, 0x94, 0xce, 0x1c, 0xe9, 0x0b, 0xc9, 0xd0, 0x3e]"

definition test_temp :: bytes where
  "test_temp = ntlm_temp (replicate 8 0) (replicate 8 0xaa) test_target_info"

definition test_ntowf :: "primitives \<Rightarrow> bytes" where
  "test_ntowf P = ntowf_v2 P (rstr ''Password'') (rstr ''User'') (rstr ''Domain'')"

definition md4_of_password_matches :: "primitives \<Rightarrow> bool" where
  "md4_of_password_matches P \<longleftrightarrow> p_md4 P (unicode (rstr ''Password'')) = nlmp_nt_hash"

definition ntowfv2_matches :: "primitives \<Rightarrow> bool" where
  "ntowfv2_matches P \<longleftrightarrow> test_ntowf P = nlmp_ntowf"

definition nt_proof_and_response_match :: "primitives \<Rightarrow> bool" where
  "nt_proof_and_response_match P \<longleftrightarrow>
     (let proof = nt_proof_str P (test_ntowf P) test_server_challenge test_temp;
          resp = nt_challenge_response proof test_temp
      in proof = nlmp_proof \<and> take 16 resp = proof \<and> length resp = 16 + length test_temp)"

definition lm_response_matches :: "primitives \<Rightarrow> bool" where
  "lm_response_matches P \<longleftrightarrow>
     lm_challenge_response P (test_ntowf P) test_server_challenge (replicate 8 0xaa) = nlmp_lm @ replicate 8 0xaa"

definition session_base_key_matches :: "primitives \<Rightarrow> bool" where
  "session_base_key_matches P \<longleftrightarrow>
     session_base_key P (test_ntowf P) (nt_proof_str P (test_ntowf P) test_server_challenge test_temp) = nlmp_session_key"

definition encrypted_session_key_matches :: "primitives \<Rightarrow> bool" where
  "encrypted_session_key_matches P \<longleftrightarrow>
     encrypted_random_session_key P nlmp_session_key (replicate 16 0x55) = nlmp_encrypted_key"

definition challenge_answered_with_published_proof :: "primitives \<Rightarrow> bool" where
  "challenge_answered_with_published_proof P \<longleftrightarrow>
     (case and_then (fst (process_challenge P
             (server_challenge_request (test_challenge [F_UNICODE, F_TARGET_INFO, F_EXTENDED_SESSIONSECURITY]))
             (test_client [9, 9, 9, 9]))) ts_request_decode of
        Ok req \<Rightarrow>
          (case authenticate_decode (ts_nego_tokens req ! 0) of
             Ok auth \<Rightarrow> take 16 (a_nt_response auth) = nlmp_proof
           | _ \<Rightarrow> False)
      | _ \<Rightarrow> False)"

section \<open>From the digests to the protocol values\<close>

text \<open>The digests of the example, each on the input the specification names.\<close>

definition nlmp_digests :: "primitives \<Rightarrow> bool" where
  "nlmp_digests P \<longleftrightarrow> p_uppercase P (rstr ''User'') = rstr ''USER'' \<and>
     p_md4 P (unicode (rstr ''Password'')) = nlmp_nt_hash \<and>
     p_hmac_md5 P nlmp_nt_hash (unicode (rstr ''USERDomain'')) = nlmp_ntowf \<and>
     p_hmac_md5 P nlmp_ntowf (test_server_challenge @ test_temp) = nlmp_proof \<and>
     p_hmac_md5 P nlmp_ntowf (test_server_challenge @ replicate 8 0xaa) = nlmp_lm \<and>
     p_hmac_md5 P nlmp_ntowf nlmp_proof = nlmp_session_key \<and>
     xor_from (p_keystream P nlmp_session_key) 0 (replicate 16 0x55) = nlmp_encrypted_key"

lemma md4_of_password_matches_passes: "nlmp_digests P \<Longrightarrow> md4_of_password_matches P"
  by (simp add: nlmp_digests_def md4_of_password_matches_def)

lemma test_ntowf_published: "nlmp_digests P \<Longrightarrow> test_ntowf P = nlmp_ntowf"
  by (simp add: nlmp_digests_def test_ntowf_def ntowf_v2_def rstr_def)

lemma ntowfv2_matches_passes: "nlmp_digests P \<Longrightarrow> ntowfv2_matches P"
  by (simp add: ntowfv2_matches_def test_ntowf_published)

lemma test_proof_published:
  "nlmp_digests P \<Longrightarrow> nt_proof_str P (test_ntowf P) test_server_challenge test_temp = nlmp_proof"
  by (simp add: nlmp_digests_def test_ntowf_published nt_proof_str_def)

lemma nt_proof_and_response_match_passes: "nlmp_digests P \<Longrightarrow> nt_proof_and_response_match P"
  by (simp add: nt_proof_and_response_match_def test_proof_published nt_challenge_response_def nlmp_proof_def)

lemma lm_response_matches_passes: "nlmp_digests P \<Longrightarrow> lm_response_matches P"
  by (simp add: lm_response_matches_def test_ntowf_published lm_challenge_response_def) (simp add: nlmp_digests_def)

lemma session_base_key_matches_passes: "nlmp_digests P \<Longrightarrow> session_base_key_matches P"
  by (simp add: session_base_key_matches_def test_proof_published) (simp add: test_ntowf_published session_base_key_def nlmp_digests_def)

lemma encrypted_session_key_matches_passes: "nlmp_digests P \<Longrightarrow> encrypted_session_key_matches P"
  by (simp add: encrypted_session_key_matches_def encrypted_random_session_key_def rc4_def apply_keystream_def
      cipher_new_def nlmp_digests_def)

lemma challenge_answered_with_published_proof_passes:
  assumes "sized P" and "nlmp_digests P"
  shows "challenge_answered_with_published_proof P"
proof -
  have proof_str: "nt_proof_str P (ntowf_v2 P (rstr ''Password'') (rstr ''User'') (rstr ''Domain'')) test_server_challenge
      (ntlm_temp (replicate 8 0) (replicate 8 0xaa) test_target_info) = nlmp_proof"
    using test_proof_published [OF assms(2)] by (simp add: test_ntowf_def test_temp_def)
  show ?thesis
    using client_challenge_produces_ntproofstr_passes [OF assms(1)]
    unfolding client_challenge_produces_ntproofstr_def challenge_answered_with_published_proof_def proof_str
    by (auto simp: Let_def case_prod_beta split: result.splits)
qed

section \<open>The hypotheses can hold\<close>

text \<open>Primitives that answer the example as published, and anything else with zeros.\<close>

definition published_primitives :: primitives where
  "published_primitives =
     \<lparr>p_md4 = (\<lambda>d. if d = unicode (rstr ''Password'') then nlmp_nt_hash
                   else [0x31, 0xd6, 0xcf, 0xe0, 0xd1, 0x6a, 0xe9, 0x31, 0xb7, 0x3c, 0x59, 0xd7, 0xe0, 0xc0, 0x89, 0xc0]),
      p_md5 = (\<lambda>d. replicate 16 0),
      p_hmac_md5 = (\<lambda>k d.
        if k = nlmp_nt_hash then nlmp_ntowf
        else if k = nlmp_ntowf then
          (if d = test_server_challenge @ test_temp then nlmp_proof
           else if d = nlmp_proof then nlmp_session_key else nlmp_lm)
        else [0x92, 0x94, 0x72, 0x7a, 0x36, 0x38, 0xbb, 0x1c, 0x13, 0xf4, 0x8e, 0xf8, 0x15, 0x8b, 0xfc, 0x9d]),
      p_sha256 = (\<lambda>d. replicate 32 0),
      p_keystream = (\<lambda>k i.
        if k = nlmp_session_key then nlmp_encrypted_key ! i XOR 0x55
        else [0xBB, 0xF3, 0x16, 0xE8, 0xD9, 0x40, 0xAF, 0x0A, 0xD3] ! i XOR bstr ''Plaintext'' ! i),
      p_uppercase = (\<lambda>u. if u = rstr ''User'' then rstr ''USER'' else u)\<rparr>"

lemma published_sized: "sized published_primitives"
  by (simp add: sized_def published_primitives_def nlmp_ntowf_def nlmp_proof_def nlmp_session_key_def nlmp_lm_def)

lemma published_digests: "nlmp_digests published_primitives"
proof -
  have keys: "nlmp_ntowf \<noteq> nlmp_nt_hash" by (simp add: nlmp_ntowf_def nlmp_nt_hash_def)
  have inputs: "test_server_challenge @ replicate 8 0xaa \<noteq> test_server_challenge @ test_temp"
    "test_server_challenge @ replicate 8 0xaa \<noteq> nlmp_proof" "nlmp_proof \<noteq> test_server_challenge @ test_temp"
    by code_simp+
  have stream: "xor_from (\<lambda>i. nlmp_encrypted_key ! i XOR 0x55) 0 (replicate 16 0x55) = nlmp_encrypted_key"
    by code_simp
  show ?thesis
    using keys inputs stream by (simp add: nlmp_digests_def published_primitives_def)
qed

lemma published_tests:
  "md4_of_empty_matches published_primitives" "hmac_md5_matches_rfc2104 published_primitives"
  "rc4_matches_known_vector published_primitives" "challenge_answered_with_published_proof published_primitives"
proof -
  have "unicode (rstr ''Password'') \<noteq> []" by code_simp
  then show "md4_of_empty_matches published_primitives"
    by (simp add: md4_of_empty_matches_def published_primitives_def)
  show "hmac_md5_matches_rfc2104 published_primitives"
    by code_simp
  show "rc4_matches_known_vector published_primitives" by code_simp
  show "challenge_answered_with_published_proof published_primitives"
    by (rule challenge_answered_with_published_proof_passes [OF published_sized published_digests])
qed

end
