(* ===== verification/Spec2Isabelle.thy ===== *)
theory Spec2Isabelle
  imports Security_Props Graphics_Props Wire_Props Viewer_Props Session_Run Tls_Config Tests_Graphics Tests_Vectors
begin

text \<open>
  A verification library for ferropipe-rdp, a Remote Desktop client written in Rust.

  \<^bold>\<open>The program.\<close> A session (\<open>src/session.rs\<close>) opens a TCP connection, negotiates the security
  protocol in an X.224 exchange framed by TPKT and upgrades to TLS (\<open>src/tls.rs\<close>, \<open>src/x224.rs\<close>,
  \<open>src/nego.rs\<close>, \<open>src/tpkt.rs\<close>); runs CredSSP with NTLMv2 when the server selected it
  (\<open>src/nla/\<close>); and runs the MCS, GCC, licensing-free activation sequence (\<open>src/connection.rs\<close>
  with \<open>src/mcs/\<close>, \<open>src/gcc.rs\<close>, \<open>src/info.rs\<close>, \<open>src/caps.rs\<close>, \<open>src/pdu.rs\<close>). It then pumps
  frames: fast-path updates are parsed, reassembled, decoded and painted (\<open>src/graphics/\<close>), and
  input is sent (\<open>src/input.rs\<close>). Beside this stand virtual channels (\<open>src/vchannel.rs\<close>,
  \<open>src/dvc.rs\<close>), the graphics pipeline (\<open>src/egfx.rs\<close>) and a UDP side-band
  (\<open>src/multitransport.rs\<close>, \<open>src/emt.rs\<close>, \<open>src/udp_tunnel.rs\<close>).

  \<^bold>\<open>How it is modelled.\<close> Bytes are \<open>8 word\<close>, the u16, u32 and u64 values words of their width,
  \<open>usize\<close> is \<open>nat\<close> (a 64-bit target; no length here comes near its end, except where a peer
  names one, and there the limit is written out). A function that can fail returns
  \<open>'a result\<close>: \<open>Ok\<close>, \<open>Err\<close> with the source's error, or \<open>Panic\<close>, so an index, slice, \<open>advance\<close> or
  \<open>get_\<close> past the end is a branch of the model, and absence of panics is a theorem. \<open>oc\<close> is
  whether the build checks arithmetic overflow, \<open>da\<close> whether it has debug assertions. Code that
  keeps state is an \<open>io\<close> computation: a function from the state to a result and the new state,
  also when it fails. The component theories keep the names and the order of the source.

  \<^bold>\<open>The theories.\<close>
  \<^item> \<open>Prelude\<close>: results, slices, the \<open>bytes\<close> crate's readers and writers, the \<open>io\<close> monad, the
    interface \<open>stream_codec\<close> of an item parser run in a loop, and the collections \<open>parse_simps\<close>
    and \<open>no_panic\<close>. \<open>Rust_String\<close>: strings, UTF-8 (lossy decoding included) and UTF-16.
  \<^item> \<open>Tpkt\<close>, \<open>X224\<close>, \<open>Nego\<close>: framing and negotiation; \<open>Per\<close>, \<open>Ber\<close>, \<open>Connect\<close>, \<open>Domain\<close>
    (\<open>src/mcs/\<close>), \<open>Gcc\<close>, \<open>Pdu\<close>, \<open>Caps\<close>, \<open>Info\<close>, \<open>Multitransport\<close>: the PDUs, each with its
    round trips and the proof that its parser returns.
  \<^item> \<open>Transport\<close>: the trait \<open>PduTransport\<close> as the locale \<open>pdu_transport\<close>, provided by the tests'
    scripted transport and, in \<open>Tls\<close>, by the framing over any \<open>byte_stream\<close> (a sublocale).
    \<open>Connection\<close>: the sequence, proved once for every such transport, with a loop bound of 16
    messages taken from the source. \<open>Tls\<close>: frame readers, the DER reader, the negotiation;
    \<open>Tls_Config\<close>: the accept-all verifier; \<open>Cert\<close>: the key of a certificate.
  \<^item> \<open>Der\<close>, \<open>Credssp\<close>, \<open>Ntlm\<close>, \<open>Ntlmv2\<close>, \<open>Sspi\<close>, \<open>Credssp_Client\<close>: network level
    authentication. \<open>Sspi\<close> states sealing as the locale \<open>sealed_channel\<close>; \<open>Credssp_Client\<close> has
    the client's step relation, an honest server, and the exchange of the two.
  \<^item> \<open>Framebuffer\<close>, \<open>Rle\<close> with \<open>Rle_Spec\<close>, \<open>Planar\<close> with \<open>Planar_Spec\<close> (the locale
    \<open>plane_reader\<close>), \<open>Bitmap\<close>, \<open>Pointer\<close>, \<open>Fastpath\<close>, \<open>Display\<close>: graphics. The \<open>_Spec\<close>
    theories give each codec an abstract image that the decoder is proved to produce. \<open>Display\<close>
    refines the list of payloads that an update sequence completes; \<open>Display_Spec\<close> states what
    the dirty flag reports, which pixels a rectangle of the wire paints in terms of its inclusive
    bounds and padded rows, and which updates end the session.
  \<^item> \<open>Egfx\<close>, \<open>Dvc\<close>, \<open>Vchannel\<close> (with a step relation of the reassembler), \<open>Emt\<close>,
    \<open>Udp_Tunnel\<close>, \<open>Input\<close>.
  \<^item> \<open>Session\<close>: connecting, the pump, input; \<open>Session_Spec\<close>: the session against an honest
    server; \<open>Samples\<close>: concrete values.
  \<^item> \<open>Viewer\<close>: the two threads of \<open>examples/viewer.rs\<close> around one session, as a step relation whose
    steps are critical sections, channel operations and code on one thread's own data, so that its
    runs are the interleavings of the program. A run's invariant relates the published frame to
    the session's framebuffer, and the channel (a locale, \<open>input_stream\<close>, of what sending input
    does to the transport) to what the server receives. The generation counter wraps at 2^64. A
    window that panicked would poison the mutex; that state is shown not to be reached. A bound on
    the worker's turns until it has taken what was sent is proved of every schedule.
    \<open>Smoke\<close>: \<open>examples/smoke.rs\<close>, with the number of turns in place of the clock and a report in
    place of what it prints. \<open>Diagnostics\<close>: the \<open>Debug\<close> forms of the flag words and the transport's
    probe, with the proof that the printed words determine the values.
  \<^item> \<open>Session_Run\<close>: a session from connecting through a list of PDUs, whose final picture is that
    of the payloads alone; painting does not depend on the dirty flag that each pump resets.
  \<^item> \<open>Tests_Wire\<close>, \<open>Tests_Graphics\<close>, \<open>Tests_Nla\<close>, \<open>Tests_Vectors\<close>: the crate's unit tests as
    predicates over the model, each with the lemma that the model passes it, which ties the
    definitions to the values the authors expect. A test that names a published digest is a
    predicate of the primitives; the NTLMv2 vectors follow from the digests of [MS-NLMP] 4.2.4.
  \<^item> The properties are in \<open>Security_Props\<close>, \<open>Graphics_Props\<close>, \<open>Wire_Props\<close>, \<open>Viewer_Props\<close> and,
    where they span the connection, here.

  \<^bold>\<open>Bounds and fuel.\<close> Loops are structural or have a proved measure. Only the receive loop of the
  UDP tunnel can run forever; its fuel is the number of passes, and one more than the number of
  PDUs that carry no data is shown to suffice. Sizes in hypotheses are those of the wire formats:
  a 16-bit length for a TPKT payload, a capability set or an update, 15 bits for a fast-path PDU,
  the length byte of an X.224 request, fewer than 2^24 bytes for a CredSSP token.

  \<^bold>\<open>Where notes and code part.\<close> The definitions follow the code. Where a comment or the notes
  on the protocol (\<open>SPEC-NOTES-*.md\<close>) say otherwise, the properties are stated where the two agree
  and a theorem beside them shows what the code does elsewhere: \<open>pump_reports_cursor_moves\<close> and
  \<open>pump_ignores_udp\<close> (the result of \<open>pump\<close>, and its source), \<open>columns_beyond_bound_painted\<close> and
  \<open>padded_rows_skewed\<close> (the bounds and raw rows of a rectangle), \<open>cursor_alpha_byte_ignored\<close> (the
  alpha of 32-bit cursors), \<open>scale8_near_replication\<close> (the rounding of 5-bit channels). The I/O
  channel of SC_NET is parsed and 1003 used in its place, as in the code.

  \<^bold>\<open>Not modelled.\<close> Code of other crates is a parameter with its documented behaviour as a named
  hypothesis: the digests and their sizes, RC4's keystream, Unicode upper-casing, the TLS
  handshake (it yields the server's certificate and passes the stream on), RDP-UDP. The operating
  system's generator, the environment, the clock and address parsing are arguments. Left out are
  sockets and timeouts, allocation failure, derived \<open>Debug\<close> output and the toolkit's drawing and
  layout in the viewer; what else the source holds is declarations, imports and re-exports.
\<close>

section \<open>The connection sequence\<close>

text \<open>
  C1: connecting reaches the active session. Over any stream whose peer answers the negotiation,
  shows a certificate, completes CredSSP when it selected HYBRID and then serves the MCS and
  activation sequence (skipping stray messages, with or without a UDP offer among them),
  \<open>connect\<close> returns the session of that server with a fresh display, consumes exactly the
  server's bytes and writes exactly the client's.
\<close>

theorem connect_reaches_active_session:
  assumes "connect_ok oc P e params x protocol ch v"
    and "\<And>s. \<exists>t. handshake s = (Ok (Some (x509_encode x)), t) \<and> ms_in t = ms_in s \<and> ms_out t = ms_out s"
    and "ms_in s = connect_incoming P e params x flags protocol ch v @ r"
  shows "\<exists>t. session_connect oc P e mem_read mem_write handshake params s =
      (Ok (new_session params (server_session v) t), t) \<and>
    ms_in t = r \<and> ms_out t = ms_out s @ connect_outgoing P e params x protocol ch v"
  by (rule mem.session_connect_runs [OF assms])

theorem connect_reaches_active_session_witness:
  "\<exists>t. session_connect True sample_primitives sample_entropy mem_read mem_write (io_ok (Some (x509_encode sample_cert)))
       sample_params
       \<lparr>ms_in = connect_incoming sample_primitives sample_entropy sample_params sample_cert 0 PROTO_HYBRID
          sample_challenge sample_server, ms_out = []\<rparr> =
     (Ok (new_session sample_params (server_session sample_server) t), t) \<and> ms_in t = []"
  using connect_reaches_active_session [OF sample_connect_ok, of "io_ok (Some (x509_encode sample_cert))"
      "\<lparr>ms_in = connect_incoming sample_primitives sample_entropy sample_params sample_cert 0 PROTO_HYBRID
          sample_challenge sample_server, ms_out = []\<rparr>" 0 "[]"]
  by (auto simp: io_ok_def)

text \<open>
  C2: a session shows what the server sends. When a conforming server follows the connection
  sequence with fast-path PDUs, connecting and then pumping one frame per PDU ends with the
  picture that the payloads of all updates paint, in order, on an empty display: whole updates
  and fragments, even across PDUs. An error in a payload ends the loop there with that error.
\<close>

theorem session_shows_server_updates:
  assumes "connect_ok oc P e params x protocol ch v"
    and "\<And>s. \<exists>t. handshake s = (Ok (Some (x509_encode x)), t) \<and> ms_in t = ms_in s \<and> ms_out t = ms_out s"
    and "ms_in s = connect_incoming P e params x flags protocol ch v @ concat (map output_pdu_encode uss) @ r"
    and "list_all pdu_ok uss"
  shows "\<exists>session t. session_connect oc P e mem_read mem_write handshake params s = (Ok session, t) \<and>
    run_shows
      (process_all da (completed ([], 0) (concat uss)) (display_new (unat (sp_width params)) (unat (sp_height params))))
      (length uss) r (ms_out s @ connect_outgoing P e params x protocol ch v)
      (smoke_pumps da mem_read mem_poll (length uss) 0 session)"
  using mem.session_connect_runs [OF assms(1,2,3)] new_session_run [OF assms(4), of _ r da params "server_session v"]
  by metis

theorem session_shows_server_updates_witness:
  "\<exists>(session :: (mem_stream, unit) rdp_session) t. session_connect True sample_primitives sample_entropy mem_read mem_write (io_ok (Some (x509_encode sample_cert)))
       sample_params
       \<lparr>ms_in = connect_incoming sample_primitives sample_entropy sample_params sample_cert 0 PROTO_HYBRID
          sample_challenge sample_server @ output_pdu_encode sample_updates, ms_out = []\<rparr> = (Ok session, t) \<and>
     fst (smoke_pumps True mem_read mem_poll 1 0 session) = Ok (1, None) \<and>
     cursor_pos (rs_display (snd (smoke_pumps True mem_read mem_poll 1 0 session))) = (5, 6)"
proof -
  have ok: "list_all pdu_ok [sample_updates]" by code_simp
  have picture: "process_all True (completed ([], 0) (concat [sample_updates])) (display_new 4 3) =
      (Ok (), (display_new 4 3)\<lparr>cursor_pos := (u16_from_le_bytes 5 0, u16_from_le_bytes 6 0), dirty := True\<rparr>)"
    by (simp add: sample_updates_def process_def update_types fragments)
  have pos: "u16_from_le_bytes 5 0 = 5" "u16_from_le_bytes 6 0 = 6" by code_simp+
  have size: "unat (sp_width sample_params) = 4" "unat (sp_height sample_params) = 3" by (simp_all add: sample_params_def)
  obtain session :: "(mem_stream, unit) rdp_session" and t where
    "session_connect True sample_primitives sample_entropy mem_read mem_write (io_ok (Some (x509_encode sample_cert)))
       sample_params
       \<lparr>ms_in = connect_incoming sample_primitives sample_entropy sample_params sample_cert 0 PROTO_HYBRID
          sample_challenge sample_server @ concat (map output_pdu_encode [sample_updates]) @ [], ms_out = []\<rparr> = (Ok session, t)"
    "run_shows (process_all True (completed ([], 0) (concat [sample_updates])) (display_new 4 3)) (length [sample_updates]) []
       ([] @ connect_outgoing sample_primitives sample_entropy sample_params sample_cert PROTO_HYBRID sample_challenge sample_server)
       (smoke_pumps True mem_read mem_poll (length [sample_updates]) 0 session)"
    using session_shows_server_updates [OF sample_connect_ok, of "io_ok (Some (x509_encode sample_cert))"
        "\<lparr>ms_in = connect_incoming sample_primitives sample_entropy sample_params sample_cert 0 PROTO_HYBRID
            sample_challenge sample_server @ concat (map output_pdu_encode [sample_updates]) @ [], ms_out = []\<rparr>"
        0 "[sample_updates]" "[]" True] ok size
    by (auto simp: io_ok_def)
  moreover have "cursor_pos d = (5, 6)" if "clean (shown d) = clean ((display_new 4 3)\<lparr>cursor_pos := (5, 6), dirty := b\<rparr>)" for d b
    using that by (cases d) (simp add: shown_def clean_def display_new_def)
  ultimately show ?thesis
    unfolding picture run_shows_def pos
    by (intro exI [of _ session] exI [of _ t]) (auto simp del: smoke_pumps.simps)
qed

text \<open>
  C9: on the scripted transport of the crate's tests, \<open>establish\<close> against any honest server
  returns that server's session (its user, channels, share and UDP offer), consumes every
  message and sends all of the client's messages in order.
\<close>

theorem establish_honest_server:
  assumes "honest_server oc v"
  shows "establish oc mock_send mock_recv cfg \<lparr>mt_responses = server_messages v @ rest, mt_sent = w\<rparr> =
    (Ok (server_session v), \<lparr>mt_responses = rest, mt_sent = w @ client_messages cfg v\<rparr>)"
proof -
  have "mock_ready \<lparr>mt_responses = server_messages v @ rest, mt_sent = w\<rparr> (server_messages v @ rest) w"
    by (simp add: mock_ready_def)
  moreover have "runs mock_ready (establish oc mock_send mock_recv cfg) (server_messages v) (Ok (server_session v))
      (client_messages cfg v)" by (rule mock.establish_runs [OF assms]) (simp add: list_all_iff)
  ultimately show ?thesis
    unfolding runs_def by (fastforce simp: mock_ready_def)
qed

theorem establish_honest_server_witness:
  "fst (establish True mock_send mock_recv (session_cfg sample_params PROTO_SSL)
     \<lparr>mt_responses = server_messages sample_server @ [], mt_sent = []\<rparr>) = Ok (server_session sample_server)"
  using establish_honest_server [OF sample_honest, of "session_cfg sample_params PROTO_SSL" "[]" "[]"] by simp

text \<open>
  C25: the wait for the Demand Active is bounded: a server that sends only other PDUs is given up
  on after \<open>MAX_SKIP\<close> messages, with an error, and nothing is sent.
\<close>

theorem demand_active_wait_bounded:
  assumes "skip_all None ms = Some mt" and "length ms = MAX_SKIP"
  shows "wait_for_demand_active_io mock_recv \<lparr>mt_responses = ms @ rest, mt_sent = w\<rparr> =
    (Err (Protocol ''no Demand Active PDU received''), \<lparr>mt_responses = rest, mt_sent = w\<rparr>)"
proof -
  have "mock_ready \<lparr>mt_responses = ms @ rest, mt_sent = w\<rparr> (ms @ rest) w" by (simp add: mock_ready_def)
  with mock.wait_for_demand_active_gives_up [OF assms] show ?thesis
    unfolding runs_def by (fastforce simp: mock_ready_def)
qed

theorem demand_active_wait_bounded_witness:
  "fst (wait_for_demand_active_io mock_recv
      \<lparr>mt_responses = replicate 16 (indication (share_data 1002 1 PDUTYPE2_CONTROL [])) @ [], mt_sent = []\<rparr>) =
   Err (Protocol ''no Demand Active PDU received'')"
proof -
  let ?m = "indication (share_data 1002 1 PDUTYPE2_CONTROL [])"
  have "and_then (io_payload ?m) (classify None) = Ok (Inr None)" by code_simp
  then have "skip_all None (replicate n ?m) = Some None" for n by (induction n) simp_all
  moreover have "length (replicate 16 (indication (share_data 1002 1 PDUTYPE2_CONTROL []))) = MAX_SKIP"
    by (simp add: MAX_SKIP_def)
  ultimately show ?thesis using demand_active_wait_bounded [of _ None "[]" "[]"] by simp
qed

text \<open>
  C24: the negotiation reports the server's choice. The client sends one Connection Request with
  its cookie and protocols; a response yields the selected protocol, a failure the named error,
  and a confirm without either means standard RDP security.
\<close>

theorem negotiation_outcome:
  assumes "length (cr_bytes requested cookie) + 4 \<le> 65535"
  shows "negotiate mem_read mem_write requested cookie
      \<lparr>ms_in = tpkt_bytes (connection_confirm_encode cc) @ r, ms_out = w\<rparr> =
    (case cc_nego cc of
       Some (Selected fl protocol) \<Rightarrow> Ok protocol
     | Some (Failure code) \<Rightarrow> Err (NegotiationFailure (failure_reason code))
     | None \<Rightarrow> Ok PROTO_RDP,
     \<lparr>ms_in = r, ms_out = w @ tpkt_bytes (cr_bytes requested cookie)\<rparr>)"
proof -
  let ?s = "\<lparr>ms_in = tpkt_bytes (connection_confirm_encode cc) @ r, ms_out = w\<rparr>"
  obtain t where "negotiate mem_read mem_write requested cookie ?s = (selected_protocol cc, t)" "ms_in t = r"
      "ms_out t = w @ tpkt_bytes (cr_bytes requested cookie)"
    using mem.negotiate_reads [OF assms, of ?s cc r] by auto
  moreover have "t = \<lparr>ms_in = ms_in t, ms_out = ms_out t\<rparr>" by simp
  ultimately show ?thesis by (simp add: selected_protocol_def failure_error_def
        split: option.splits negotiation_response.splits)
qed

theorem negotiation_outcome_witness:
  "fst (negotiate mem_read mem_write (PROTO_SSL OR PROTO_HYBRID) (Some (rstr ''eltons''))
     \<lparr>ms_in = tpkt_bytes (connection_confirm_encode \<lparr>cc_nego = Some (Failure 5)\<rparr>) @ [], ms_out = []\<rparr>) =
   Err (NegotiationFailure (failure_reason 5))"
proof -
  have "length (cr_bytes (PROTO_SSL OR PROTO_HYBRID) (Some (rstr ''eltons''))) + 4 \<le> 65535" by code_simp
  from negotiation_outcome [OF this, of "\<lparr>cc_nego = Some (Failure 5)\<rparr>" "[]" "[]"] show ?thesis by simp
qed

end
